theory Spec2Isabelle
  imports Main
begin

section \<open>The document: a store of elements\<close>

text \<open>
  The three scripts (validate.js, booking.js, lightbox.js) read and write the page through
  element objects. An element object is a handle (\<open>node\<close>); the store \<open>elem\<close> maps
  every handle to the element's current properties, and \<open>nodes\<close> lists the handles that
  are attached to the document, in tree order (the order in which \<open>getElementById\<close> and
  \<open>querySelector\<close> search). Two variables of the source that hold the same element hold
  the same handle, so a write through one is seen through the other.

  \<open>head\<close> and \<open>body\<close> are \<open>document.head\<close> and \<open>document.body\<close>. \<open>createElement\<close> takes the
  handle \<open>next_node\<close>, which no element of the page uses yet.

  JavaScript strings are modelled as \<open>string\<close>: one \<open>char\<close> stands for one UTF-16 code
  unit, which restricts field values to the Latin-1 range. Content attributes and the
  properties that reflect them (\<open>href\<close>, \<open>src\<close>, \<open>alt\<close>, \<open>aria-invalid\<close>, ...) live in
  \<open>attributes\<close>; an absent attribute reads as the empty string through a reflecting
  property. \<open>textContent\<close> is a string property of the element: the elements whose text
  the scripts replace are taken to hold nothing but text. \<open>ancestors\<close> is the chain
  parentNode, parentNode.parentNode, ... of the element; no script moves an element that
  it later searches from.
\<close>

type_synonym node = nat

record element =
  tagName :: string
  el_id :: string
  classList :: "string list"
  attributes :: "string \<rightharpoonup> string"
  style :: "string \<Rightarrow> string"
  el_value :: string
  textContent :: string
  ancestors :: "node list"

record document =
  nodes :: "node list"
  elem :: "node \<Rightarrow> element"
  activeElement :: "node option"
  console :: "string list"
  head :: node
  body :: node
  next_node :: node

definition update_elem :: "node \<Rightarrow> (element \<Rightarrow> element) \<Rightarrow> document \<Rightarrow> document" where
  "update_elem n f d = d\<lparr>elem := (elem d)(n := f (elem d n))\<rparr>"

text \<open>\<open>document.getElementById(s)\<close>: the first attached element whose id is \<open>s\<close>; the empty
  string matches no element.\<close>

definition getElementById :: "document \<Rightarrow> string \<Rightarrow> node option" where
  "getElementById d s = (if s = [] then None else find (\<lambda>n. el_id (elem d n) = s) (nodes d))"

text \<open>\<open>el.closest('.c')\<close>: the element itself or its nearest ancestor carrying class \<open>c\<close>.\<close>

definition closest :: "document \<Rightarrow> node \<Rightarrow> string \<Rightarrow> node option" where
  "closest d n c = find (\<lambda>m. c \<in> set (classList (elem d m))) (n # ancestors (elem d n))"

definition classList_add :: "string \<Rightarrow> element \<Rightarrow> element" where
  "classList_add c e = e\<lparr>classList := (if c \<in> set (classList e) then classList e else classList e @ [c])\<rparr>"

definition classList_remove :: "string \<Rightarrow> element \<Rightarrow> element" where
  "classList_remove c e = e\<lparr>classList := removeAll c (classList e)\<rparr>"

definition setAttribute :: "string \<Rightarrow> string \<Rightarrow> element \<Rightarrow> element" where
  "setAttribute k v e = e\<lparr>attributes := (attributes e)(k \<mapsto> v)\<rparr>"

definition set_textContent :: "string \<Rightarrow> element \<Rightarrow> element" where
  "set_textContent s e = e\<lparr>textContent := s\<rparr>"

definition set_style :: "string \<Rightarrow> string \<Rightarrow> element \<Rightarrow> element" where
  "set_style k v e = e\<lparr>style := (style e)(k := v)\<rparr>"

text \<open>A reflecting property (\<open>img.src\<close>, \<open>img.alt\<close>, \<open>a.href\<close>): the attribute, or the empty
  string when the attribute is absent.\<close>

definition reflect :: "element \<Rightarrow> string \<Rightarrow> string" where
  "reflect e k = (case attributes e k of None \<Rightarrow> [] | Some v \<Rightarrow> v)"

definition console_warn :: "string \<Rightarrow> document \<Rightarrow> document" where
  "console_warn s d = d\<lparr>console := console d @ [s]\<rparr>"

definition console_warns :: "string list \<Rightarrow> document \<Rightarrow> document" where
  "console_warns ws d = foldl (\<lambda>d w. console_warn w d) d ws"

text \<open>\<open>document.querySelector('.c')\<close>: the first attached element carrying class \<open>c\<close>.\<close>

definition querySelector_class :: "document \<Rightarrow> string \<Rightarrow> node option" where
  "querySelector_class d c = find (\<lambda>n. c \<in> set (classList (elem d n))) (nodes d)"

text \<open>\<open>document.createElement(tag)\<close>: a new element, not attached to the document.\<close>

definition createElement :: "string \<Rightarrow> document \<Rightarrow> node \<times> document" where
  "createElement tag d =
     (next_node d,
      d\<lparr>elem := (elem d)(next_node d :=
             \<lparr>tagName = tag, el_id = [], classList = [], attributes = Map.empty,
              style = (\<lambda>_. []), el_value = [], textContent = [], ancestors = []\<rparr>),
        next_node := Suc (next_node d)\<rparr>)"

text \<open>\<open>el.remove()\<close>: the element and its descendants leave the document.\<close>

definition remove_node :: "node \<Rightarrow> document \<Rightarrow> document" where
  "remove_node n d =
     d\<lparr>nodes := filter (\<lambda>m. m \<noteq> n \<and> n \<notin> set (ancestors (elem d m))) (nodes d),
       elem := (elem d)(n := (elem d n)\<lparr>ancestors := []\<rparr>)\<rparr>"

text \<open>\<open>parent.appendChild(child)\<close> for a childless \<open>child\<close>: it becomes the last child of
  \<open>parent\<close>, which in tree order is the place after the last descendant of \<open>parent\<close>.\<close>

definition appendChild :: "node \<Rightarrow> node \<Rightarrow> document \<Rightarrow> document" where
  "appendChild parent child d =
     (let d1 = remove_node child d;
          below = (\<lambda>m. parent \<in> set (ancestors (elem d1 m)));
          ns = (case dropWhile (\<lambda>m. m \<noteq> parent) (nodes d1) of
                  [] \<Rightarrow> nodes d1
                | p # rest \<Rightarrow> takeWhile (\<lambda>m. m \<noteq> parent) (nodes d1) @
                             p # takeWhile below rest @ child # dropWhile below rest)
      in d1\<lparr>nodes := ns,
            elem := (elem d1)(child := (elem d1 child)\<lparr>ancestors := parent # ancestors (elem d1 parent)\<rparr>)\<rparr>)"

text \<open>\<open>el.innerHTML = ''\<close>: every descendant of the element leaves the document.\<close>

definition clear_innerHTML :: "node \<Rightarrow> document \<Rightarrow> document" where
  "clear_innerHTML n d = d\<lparr>nodes := filter (\<lambda>m. n \<notin> set (ancestors (elem d m))) (nodes d)\<rparr>"

definition set_id :: "string \<Rightarrow> element \<Rightarrow> element" where
  "set_id s e = e\<lparr>el_id := s\<rparr>"

definition console_error :: "string \<Rightarrow> document \<Rightarrow> document" where
  "console_error s d = d\<lparr>console := console d @ [s]\<rparr>"

text \<open>\<open>el.focus()\<close>: the element becomes \<open>document.activeElement\<close>. The elements the scripts
  focus are taken to be focusable.\<close>

definition focus :: "node \<Rightarrow> document \<Rightarrow> document" where
  "focus n d = d\<lparr>activeElement := Some n\<rparr>"

text \<open>\<open>s.includes(sub)\<close>\<close>

definition includes_str :: "string \<Rightarrow> string \<Rightarrow> bool" where
  "includes_str s sub = list_ex (\<lambda>k. take (length sub) (drop k s) = sub) [0..<Suc (length s)]"

text \<open>A well-formed store: the handles of the attached elements and of their ancestors
  are below \<open>next_node\<close>, so that the handle \<open>createElement\<close> takes is new.\<close>

definition wf_document :: "document \<Rightarrow> bool" where
  "wf_document d = (\<forall>n\<in>set (nodes d). n < next_node d \<and> (\<forall>a\<in>set (ancestors (elem d n)). a < next_node d))"

section \<open>validate.js\<close>

subsection \<open>Strings, numbers and regular expressions of the rule predicates\<close>

text \<open>The characters \<open>\s\<close> matches and \<open>trim()\<close> strips, within the Latin-1 range: TAB, LF,
  VT, FF, CR, SPACE and NBSP.\<close>

definition is_space :: "char \<Rightarrow> bool" where
  "is_space c = (c \<in> set [CHR 0x09, CHR 0x0A, CHR 0x0B, CHR 0x0C, CHR 0x0D, CHR 0x20, CHR 0xA0])"

definition trim :: "string \<Rightarrow> string" where
  "trim s = rev (dropWhile is_space (rev (dropWhile is_space s)))"

definition is_digit :: "char \<Rightarrow> bool" where
  "is_digit c = (c \<in> set ''0123456789'')"

text \<open>\<open>rule.split(':')\<close>: the pieces between the separators; always at least one piece.\<close>

fun split_on :: "char \<Rightarrow> string \<Rightarrow> string list" where
  "split_on c [] = [[]]"
| "split_on c (x # xs) =
     (if x = c then [] # split_on c xs
      else (case split_on c xs of w # ws \<Rightarrow> (x # w) # ws | [] \<Rightarrow> [[x]]))"

text \<open>
  A parameter reaches \<open>minLength\<close> and \<open>maxLength\<close> as the string after the colon, and the
  comparison \<open>value.trim().length >= min\<close> converts it with ToNumber. A JavaScript number is
  \<open>NaN\<close>, an infinity, or a double: \<open>Num m p\<close> is the double \<open>m * 2 ^ p\<close>. \<open>ToNumber\<close> follows the
  grammar of string numeric literals: white space around the literal is dropped and the
  empty string is 0; \<open>0x\<close>, \<open>0o\<close> and \<open>0b\<close> start an unsigned integer in that radix; a decimal
  literal has an optional sign, then \<open>Infinity\<close> or digits with an optional fraction and an
  optional exponent; every other string is \<open>NaN\<close>. \<open>to_double negative a b\<close> rounds the
  quotient \<open>a / b\<close> to the nearest double, ties to the even significand, with 53 bits above
  \<open>2 ^ (-1022)\<close>, multiples of \<open>2 ^ (-1074)\<close> below, and infinity from \<open>2 ^ 1024\<close> on.
  A comparison with \<open>NaN\<close> is false.
\<close>

datatype jsnumber = Num int int | PosInfinity | NegInfinity | NaN

definition digit_val :: "char \<Rightarrow> int" where
  "digit_val c =
     (if is_digit c then of_char c - of_char CHR ''0''
      else if c \<in> set ''abcdef'' then of_char c - of_char CHR ''a'' + 10
      else of_char c - of_char CHR ''A'' + 10)"

definition digits_val :: "int \<Rightarrow> string \<Rightarrow> int" where
  "digits_val radix ds = foldl (\<lambda>acc c. radix * acc + digit_val c) 0 ds"

function log2_floor :: "int \<Rightarrow> int" where
  "log2_floor n = (if n < 2 then 0 else 1 + log2_floor (n div 2))"
  by pat_completeness auto
termination
  by (relation "measure nat") auto

definition round_half_even :: "int \<Rightarrow> int \<Rightarrow> int" where
  "round_half_even a b =
     (let q = a div b; r = a mod b
      in if 2 * r < b then q else if 2 * r > b then q + 1 else if even q then q else q + 1)"

definition to_double :: "bool \<Rightarrow> int \<Rightarrow> int \<Rightarrow> jsnumber" where
  "to_double negative a b =
     (if a = 0 then Num 0 0
      else
        (let k = log2_floor a - log2_floor b;
             e = (if (if k \<ge> 0 then a \<ge> b * 2 ^ nat k else a * 2 ^ nat (- k) \<ge> b) then k else k - 1);
             p = max (e - 52) (- 1074);
             m = (if p \<ge> 0 then round_half_even a (b * 2 ^ nat p)
                  else round_half_even (a * 2 ^ nat (- p)) b)
         in if e \<ge> 1024 \<or> (p = 971 \<and> m = 2 ^ 53)
            then (if negative then NegInfinity else PosInfinity)
            else Num (if negative then - m else m) p))"

definition non_decimal :: "string \<Rightarrow> int option" where
  "non_decimal t =
     (case t of
        z # c # ds \<Rightarrow>
          if z = CHR ''0'' \<and> ds \<noteq> [] then
            (if c \<in> set ''xX'' \<and> list_all (\<lambda>x. is_digit x \<or> x \<in> set ''abcdefABCDEF'') ds
               then Some (digits_val 16 ds)
             else if c \<in> set ''oO'' \<and> list_all (\<lambda>x. x \<in> set ''01234567'') ds
               then Some (digits_val 8 ds)
             else if c \<in> set ''bB'' \<and> list_all (\<lambda>x. x \<in> set ''01'') ds
               then Some (digits_val 2 ds)
             else None)
          else None
      | _ \<Rightarrow> None)"

definition exponent_part :: "string \<Rightarrow> int option" where
  "exponent_part x =
     (case x of
        [] \<Rightarrow> Some 0
      | c # r \<Rightarrow>
          if c \<in> set ''eE'' then
            (let negative = (case r of s # _ \<Rightarrow> s = CHR ''-'' | [] \<Rightarrow> False);
                 ds = (case r of s # u \<Rightarrow> if s \<in> set ''+-'' then u else r | [] \<Rightarrow> r)
             in if ds \<noteq> [] \<and> list_all is_digit ds
                then Some (if negative then - digits_val 10 ds else digits_val 10 ds)
                else None)
          else None)"

definition unsigned_decimal :: "bool \<Rightarrow> string \<Rightarrow> jsnumber" where
  "unsigned_decimal negative u =
     (if u = ''Infinity'' then (if negative then NegInfinity else PosInfinity)
      else
        (let ip = takeWhile is_digit u;
             r = dropWhile is_digit u;
             fp = (case r of c # f \<Rightarrow> if c = CHR ''.'' then takeWhile is_digit f else [] | [] \<Rightarrow> []);
             x = (case r of c # f \<Rightarrow> if c = CHR ''.'' then dropWhile is_digit f else r | [] \<Rightarrow> [])
         in if ip = [] \<and> fp = [] then NaN
            else
              (case exponent_part x of
                 None \<Rightarrow> NaN
               | Some ex \<Rightarrow>
                   (let d = digits_val 10 (ip @ fp); sc = ex - int (length fp)
                    in if sc \<ge> 0 then to_double negative (d * 10 ^ nat sc) 1
                       else to_double negative d (10 ^ nat (- sc))))))"

definition ToNumber :: "string \<Rightarrow> jsnumber" where
  "ToNumber s =
     (let t = trim s in
      if t = [] then Num 0 0
      else
        (case non_decimal t of
           Some n \<Rightarrow> to_double False n 1
         | None \<Rightarrow>
             (case t of
                c # u \<Rightarrow>
                  if c = CHR ''+'' then unsigned_decimal False u
                  else if c = CHR ''-'' then unsigned_decimal True u
                  else unsigned_decimal False t
              | [] \<Rightarrow> NaN)))"

fun js_ge :: "nat \<Rightarrow> jsnumber \<Rightarrow> bool" where
  "js_ge n (Num m p) = (if p \<ge> 0 then int n \<ge> m * 2 ^ nat p else int n * 2 ^ nat (- p) \<ge> m)"
| "js_ge n PosInfinity = False"
| "js_ge n NegInfinity = True"
| "js_ge n NaN = False"

fun js_le :: "nat \<Rightarrow> jsnumber \<Rightarrow> bool" where
  "js_le n (Num m p) = (if p \<ge> 0 then int n \<le> m * 2 ^ nat p else int n * 2 ^ nat (- p) \<le> m)"
| "js_le n PosInfinity = True"
| "js_le n NegInfinity = False"
| "js_le n NaN = False"

text \<open>Regular expressions over character classes, matched by derivatives. \<open>RegExp.test\<close>
  with \<open>^\<close> and \<open>$\<close> at both ends and no multiline flag asks whether the whole string
  belongs to the language.\<close>

datatype rexp =
  Zero
  | One
  | Atom "char \<Rightarrow> bool"
  | Alt rexp rexp
  | Times rexp rexp
  | Star rexp

fun nullable :: "rexp \<Rightarrow> bool" where
  "nullable Zero = False"
| "nullable One = True"
| "nullable (Atom p) = False"
| "nullable (Alt r s) = (nullable r \<or> nullable s)"
| "nullable (Times r s) = (nullable r \<and> nullable s)"
| "nullable (Star r) = True"

fun deriv :: "char \<Rightarrow> rexp \<Rightarrow> rexp" where
  "deriv c Zero = Zero"
| "deriv c One = Zero"
| "deriv c (Atom p) = (if p c then One else Zero)"
| "deriv c (Alt r s) = Alt (deriv c r) (deriv c s)"
| "deriv c (Times r s) =
     (if nullable r then Alt (Times (deriv c r) s) (deriv c s) else Times (deriv c r) s)"
| "deriv c (Star r) = Times (deriv c r) (Star r)"

definition regex_test :: "rexp \<Rightarrow> string \<Rightarrow> bool" where
  "regex_test r s = nullable (foldl (\<lambda>r c. deriv c r) r s)"

definition Opt :: "rexp \<Rightarrow> rexp" where
  "Opt r = Alt One r"

definition Plus :: "rexp \<Rightarrow> rexp" where
  "Plus r = Times r (Star r)"

fun AtLeast :: "nat \<Rightarrow> rexp \<Rightarrow> rexp" where
  "AtLeast 0 r = Star r"
| "AtLeast (Suc n) r = Times r (AtLeast n r)"

text \<open>\<open>/^[^\s@]+@[^\s@]+\.[^\s@]+$/\<close>\<close>

definition emailRegex :: rexp where
  "emailRegex =
     (let c = Atom (\<lambda>x. \<not> is_space x \<and> x \<noteq> CHR ''@'') in
      Times (Plus c) (Times (Atom (\<lambda>x. x = CHR ''@''))
        (Times (Plus c) (Times (Atom (\<lambda>x. x = CHR ''.'')) (Plus c)))))"

text \<open>\<open>/^[\+]?[(]?[\d\s\-\(\)]{10,}$/\<close>\<close>

definition phoneRegex :: rexp where
  "phoneRegex =
     Times (Opt (Atom (\<lambda>x. x = CHR ''+'')))
       (Times (Opt (Atom (\<lambda>x. x = CHR ''('')))
          (AtLeast 10 (Atom (\<lambda>x. is_digit x \<or> is_space x \<or> x \<in> set ''-()''))))"

subsection \<open>The rule registry\<close>

text \<open>
  A rule has a predicate \<open>test(value, param)\<close> and a message that is a string or a function
  of the parameter. \<open>test rc v None\<close> is the call \<open>test(v)\<close>, where a default parameter
  applies; the result is read through JavaScript truthiness. A message function carries
  its source text, which is what assigning the function to \<open>textContent\<close> displays.
\<close>

datatype message = Text string | Template "string \<Rightarrow> string" string

record rule_config =
  test :: "string \<Rightarrow> string option \<Rightarrow> bool"
  message :: message

text \<open>The clock and the date parser the \<open>date\<close> rule reads: \<open>parseDate v\<close> is the time value
  of \<open>new Date(v)\<close> (\<open>None\<close> for an invalid date), and \<open>startOfToday\<close> that of today's local
  midnight.\<close>

record date_env =
  parseDate :: "string \<Rightarrow> int option"
  startOfToday :: int

definition rule_required :: rule_config where
  "rule_required = \<lparr>test = (\<lambda>v _. v \<noteq> [] \<and> length (trim v) > 0),
                    message = Text ''This field is required''\<rparr>"

definition rule_email :: rule_config where
  "rule_email = \<lparr>test = (\<lambda>v _. if v = [] then True else regex_test emailRegex v),
                 message = Text ''Please enter a valid email address''\<rparr>"

definition rule_phone :: rule_config where
  "rule_phone = \<lparr>test = (\<lambda>v _. if v = [] then True
                           else regex_test phoneRegex (filter (\<lambda>c. \<not> is_space c) v)),
                 message = Text ''Please enter a valid phone number''\<rparr>"

definition rule_minLength :: rule_config where
  "rule_minLength =
     \<lparr>test = (\<lambda>v p. if v = [] then True
                    else js_ge (length (trim v)) (case p of None \<Rightarrow> Num 2 0 | Some m \<Rightarrow> ToNumber m)),
      message = Template (\<lambda>m. ''Must be at least '' @ m @ '' characters long'')
                  ''(min) => `Must be at least ${min} characters long`''\<rparr>"

definition rule_maxLength :: rule_config where
  "rule_maxLength =
     \<lparr>test = (\<lambda>v p. if v = [] then True
                    else js_le (length (trim v)) (case p of None \<Rightarrow> Num 1000 0 | Some m \<Rightarrow> ToNumber m)),
      message = Template (\<lambda>m. ''Must be no more than '' @ m @ '' characters long'')
                  ''(max) => `Must be no more than ${max} characters long`''\<rparr>"

definition rule_date :: "date_env \<Rightarrow> rule_config" where
  "rule_date env =
     \<lparr>test = (\<lambda>v _. if v = [] then True
                    else (case parseDate env v of None \<Rightarrow> False | Some t \<Rightarrow> t \<ge> startOfToday env)),
      message = Text ''Please select a date from today onwards''\<rparr>"

type_synonym registry = "string \<rightharpoonup> rule_config"

definition VALIDATION_RULES :: "date_env \<Rightarrow> registry" where
  "VALIDATION_RULES env =
     [''required'' \<mapsto> rule_required,
      ''email'' \<mapsto> rule_email,
      ''phone'' \<mapsto> rule_phone,
      ''minLength'' \<mapsto> rule_minLength,
      ''maxLength'' \<mapsto> rule_maxLength,
      ''date'' \<mapsto> rule_date env]"

definition addValidationRule ::
  "string \<Rightarrow> (string \<Rightarrow> string option \<Rightarrow> bool) \<Rightarrow> message \<Rightarrow> registry \<Rightarrow> registry" where
  "addValidationRule name testFunction msg reg = reg(name \<mapsto> \<lparr>test = testFunction, message = msg\<rparr>)"

text \<open>
  \<open>VALIDATION_RULES[ruleName]\<close> is a property read on an object literal: a name the object
  does not own is looked up on \<open>Object.prototype\<close>. The names found there yield a truthy
  value (a built-in function, or the prototype object itself for \<open>__proto__\<close>) that has no
  \<open>test\<close> method; every other name yields \<open>undefined\<close>.
\<close>

definition object_prototype_keys :: "string list" where
  "object_prototype_keys =
     [''constructor'', ''__defineGetter__'', ''__defineSetter__'', ''hasOwnProperty'',
      ''__lookupGetter__'', ''__lookupSetter__'', ''isPrototypeOf'', ''propertyIsEnumerable'',
      ''toString'', ''valueOf'', ''__proto__'', ''toLocaleString'']"

datatype lookup = Undefined | Rule rule_config | Inherited

definition registry_get :: "registry \<Rightarrow> string \<Rightarrow> lookup" where
  "registry_get reg name =
     (case reg name of
        Some rc \<Rightarrow> Rule rc
      | None \<Rightarrow> if name \<in> set object_prototype_keys then Inherited else Undefined)"

datatype js_error = TypeError string

subsection \<open>Error display\<close>

text \<open>The value \<open>showFieldError\<close> assigns to \<open>textContent\<close> is converted to a string: a
  string stays, a function becomes its source text.\<close>

fun to_text :: "message \<Rightarrow> string" where
  "to_text (Text s) = s"
| "to_text (Template f source) = source"

definition showFieldError :: "node \<Rightarrow> message \<Rightarrow> document \<Rightarrow> document" where
  "showFieldError field msg d =
     (let errorElement = getElementById d (el_id (elem d field) @ ''-error'');
          d1 = (case errorElement of
                  None \<Rightarrow> d
                | Some e \<Rightarrow> update_elem e (classList_add ''show'')
                             (update_elem e (set_textContent (to_text msg)) d));
          d2 = update_elem field (setAttribute ''aria-invalid'' ''true'') d1;
          d3 = update_elem field (classList_add ''error'') d2;
          formGroup = closest d3 field ''form-group''
      in (case formGroup of
            None \<Rightarrow> d3
          | Some g \<Rightarrow> update_elem g (classList_add ''has-error'') d3))"

definition clearFieldError :: "node \<Rightarrow> document \<Rightarrow> document" where
  "clearFieldError field d =
     (let errorElement = getElementById d (el_id (elem d field) @ ''-error'');
          d1 = (case errorElement of
                  None \<Rightarrow> d
                | Some e \<Rightarrow> update_elem e (classList_remove ''show'')
                             (update_elem e (set_textContent []) d));
          d2 = update_elem field (setAttribute ''aria-invalid'' ''false'') d1;
          d3 = update_elem field (classList_remove ''error'') d2;
          formGroup = closest d3 field ''form-group''
      in (case formGroup of
            None \<Rightarrow> d3
          | Some g \<Rightarrow> update_elem g (classList_remove ''has-error'') d3))"

subsection \<open>validateField and validateForm\<close>

text \<open>
  The loop over the rules of \<open>validateField\<close>. It returns the warnings it logged and
  either the exception that left the loop or the pair \<open>(isValid, errorMessage)\<close> the loop
  ends with. Calling \<open>ruleConfig.test\<close> on a value inherited from \<open>Object.prototype\<close>
  throws a TypeError.
\<close>

fun run_rules :: "registry \<Rightarrow> string \<Rightarrow> string list \<Rightarrow> string list \<times> (js_error + bool \<times> message)" where
  "run_rules reg v [] = ([], Inr (True, Text []))"
| "run_rules reg v (rule # rules) =
     (case split_on CHR '':'' rule of
        [] \<Rightarrow> ([], Inr (True, Text []))
      | ruleName # params \<Rightarrow>
          (case registry_get reg ruleName of
             Undefined \<Rightarrow>
               (case run_rules reg v rules of
                  (ws, r) \<Rightarrow> ((''Unknown validation rule: '' @ ruleName) # ws, r))
           | Inherited \<Rightarrow> ([], Inl (TypeError ''ruleConfig.test is not a function''))
           | Rule ruleConfig \<Rightarrow>
               (case params of
                  param # _ \<Rightarrow>
                    if test ruleConfig v (Some param) then run_rules reg v rules
                    else ([], Inr (False,
                           (case message ruleConfig of
                              Template f source \<Rightarrow> Text (f param)
                            | Text s \<Rightarrow> Text s)))
                | [] \<Rightarrow>
                    if test ruleConfig v None then run_rules reg v rules
                    else ([], Inr (False, message ruleConfig)))))"

definition validateField ::
  "registry \<Rightarrow> node \<Rightarrow> string list \<Rightarrow> document \<Rightarrow> (js_error + bool) \<times> document" where
  "validateField reg field rules d =
     (let v = el_value (elem d field);
          d1 = clearFieldError field d
      in (case run_rules reg v rules of
            (ws, r) \<Rightarrow>
              (let d2 = console_warns ws d1
               in (case r of
                     Inl e \<Rightarrow> (Inl e, d2)
                   | Inr (isValid, errorMessage) \<Rightarrow>
                       if \<not> isValid then (Inr False, showFieldError field errorMessage d2)
                       else (Inr True, d2)))))"

text \<open>
  \<open>validateForm(form, config)\<close>: \<open>config\<close> is the list of the object's entries in the order
  of \<open>Object.keys\<close>. The \<open>form\<close> argument is not used by the source. An exception thrown
  by \<open>validateField\<close> leaves the \<open>forEach\<close> and the function.
\<close>

fun validateForm_loop ::
  "registry \<Rightarrow> (string \<times> string list) list \<Rightarrow> bool \<Rightarrow> document \<Rightarrow> (js_error + bool) \<times> document" where
  "validateForm_loop reg [] isValid d = (Inr isValid, d)"
| "validateForm_loop reg ((fieldId, rules) # config) isValid d =
     (case getElementById d fieldId of
        None \<Rightarrow> validateForm_loop reg config isValid d
      | Some field \<Rightarrow>
          (case validateField reg field rules d of
             (Inl e, d') \<Rightarrow> (Inl e, d')
           | (Inr fieldValid, d') \<Rightarrow>
               validateForm_loop reg config (if \<not> fieldValid then False else isValid) d'))"

definition validateForm ::
  "registry \<Rightarrow> (string \<times> string list) list \<Rightarrow> document \<Rightarrow> (js_error + bool) \<times> document" where
  "validateForm reg config d = validateForm_loop reg config True d"

text \<open>\<open>FORM_CONFIGS\<close>: for each form, the entries field id, rule list in the order of
  \<open>Object.keys\<close>.\<close>

type_synonym form_config = "(string \<times> string list) list"

definition contact_form_config :: form_config where
  "contact_form_config =
     [(''contact-name'', [''required'', ''minLength:2'', ''maxLength:100'']),
      (''contact-email'', [''required'', ''email'']),
      (''contact-subject'', [''maxLength:200'']),
      (''contact-message'', [''required'', ''minLength:10'', ''maxLength:1000''])]"

definition booking_form_config :: form_config where
  "booking_form_config =
     [(''booking-name'', [''required'', ''minLength:2'', ''maxLength:100'']),
      (''booking-email'', [''required'', ''email'']),
      (''booking-phone'', [''phone'']),
      (''booking-service'', [''required'']),
      (''booking-date'', [''required'', ''date'']),
      (''booking-time'', [''required'']),
      (''booking-notes'', [''maxLength:500''])]"

definition FORM_CONFIGS :: "(string \<times> form_config) list" where
  "FORM_CONFIGS = [(''contact-form'', contact_form_config), (''booking-form'', booking_form_config)]"

subsection \<open>The notions the properties of validate.js are stated with\<close>

text \<open>
  A rule specification \<open>name:param\<close> names a rule and may carry a parameter, as
  \<open>validateField\<close> reads it: the name is the first piece of \<open>rule.split(':')\<close>, the
  parameter the second. The predicate of a rule returns false on a value when the name
  resolves to a registered rule whose \<open>test\<close> is falsy on the value and the parameter. The
  message of a rule is what \<open>validateField\<close> would display for it: with a parameter, the
  message function applied to the parameter (or the message string); without a parameter,
  the \<open>message\<close> property converted to text. A rule specification throws when its name
  resolves to a property inherited from \<open>Object.prototype\<close>.
\<close>

definition rule_name :: "string \<Rightarrow> string" where
  "rule_name rule = (case split_on CHR '':'' rule of n # _ \<Rightarrow> n | [] \<Rightarrow> [])"

definition rule_param :: "string \<Rightarrow> string option" where
  "rule_param rule = (case split_on CHR '':'' rule of _ # p # _ \<Rightarrow> Some p | _ \<Rightarrow> None)"

definition rule_fails :: "registry \<Rightarrow> string \<Rightarrow> string \<Rightarrow> bool" where
  "rule_fails reg v rule =
     (case registry_get reg (rule_name rule) of
        Rule rc \<Rightarrow> \<not> test rc v (rule_param rule)
      | _ \<Rightarrow> False)"

definition rule_message :: "registry \<Rightarrow> string \<Rightarrow> string" where
  "rule_message reg rule =
     (case registry_get reg (rule_name rule) of
        Rule rc \<Rightarrow>
          (case rule_param rule of
             Some p \<Rightarrow> (case message rc of Template f source \<Rightarrow> f p | Text s \<Rightarrow> s)
           | None \<Rightarrow> to_text (message rc))
      | _ \<Rightarrow> [])"

definition rule_throws :: "registry \<Rightarrow> string \<Rightarrow> bool" where
  "rule_throws reg rule = (registry_get reg (rule_name rule) = Inherited)"

definition rule_unknown :: "registry \<Rightarrow> string \<Rightarrow> bool" where
  "rule_unknown reg rule = (registry_get reg (rule_name rule) = Undefined)"

text \<open>The error display of a field: its \<open>aria-invalid\<close> attribute, whether it carries the
  class \<open>error\<close>, and the text and the \<open>show\<close> class of its error element, when the
  document has one.\<close>

definition error_display :: "document \<Rightarrow> node \<Rightarrow> string option \<times> bool \<times> (string \<times> bool) option" where
  "error_display d field =
     (attributes (elem d field) ''aria-invalid'',
      ''error'' \<in> set (classList (elem d field)),
      map_option (\<lambda>e. (textContent (elem d e), ''show'' \<in> set (classList (elem d e))))
        (getElementById d (el_id (elem d field) @ ''-error'')))"

text \<open>The display \<open>validateField\<close> leaves on a field, from the result of the rule loop.\<close>

definition display_of :: "js_error + bool \<times> message \<Rightarrow> node option \<Rightarrow> string option \<times> bool \<times> (string \<times> bool) option" where
  "display_of r errorElement =
     (case r of
        Inr (False, m) \<Rightarrow> (Some ''true'', True, map_option (\<lambda>_. (to_text m, True)) errorElement)
      | _ \<Rightarrow> (Some ''false'', False, map_option (\<lambda>_. ([], False)) errorElement))"

subsection \<open>Auxiliary notions of the proofs\<close>

text \<open>\<open>frame d d'\<close>: \<open>d'\<close> has the elements of \<open>d\<close> with the same ids, values, ancestors and
  \<open>form-group\<close> classes, so every search of validate.js finds in \<open>d'\<close> what it finds in \<open>d\<close>.
  \<open>clear_elem\<close> and \<open>show_elem\<close> are what \<open>clearFieldError\<close> and \<open>showFieldError\<close> do to
  one element, given whether it is the error element, the field and the form group.\<close>

definition frame :: "document \<Rightarrow> document \<Rightarrow> bool" where
  "frame d d' = (nodes d' = nodes d \<and> activeElement d' = activeElement d \<and>
     (\<forall>n. el_id (elem d' n) = el_id (elem d n) \<and> el_value (elem d' n) = el_value (elem d n) \<and>
          ancestors (elem d' n) = ancestors (elem d n) \<and>
          ((''form-group'' \<in> set (classList (elem d' n))) = (''form-group'' \<in> set (classList (elem d n))))))"

definition clear_elem :: "bool \<Rightarrow> bool \<Rightarrow> bool \<Rightarrow> element \<Rightarrow> element" where
  "clear_elem isError isField isGroup e =
     (let e1 = (if isError then classList_remove ''show'' (set_textContent [] e) else e);
          e2 = (if isField then classList_remove ''error'' (setAttribute ''aria-invalid'' ''false'' e1) else e1)
      in if isGroup then classList_remove ''has-error'' e2 else e2)"

definition show_elem :: "string \<Rightarrow> bool \<Rightarrow> bool \<Rightarrow> bool \<Rightarrow> element \<Rightarrow> element" where
  "show_elem s isError isField isGroup e =
     (let e1 = (if isError then classList_add ''show'' (set_textContent s e) else e);
          e2 = (if isField then classList_add ''error'' (setAttribute ''aria-invalid'' ''true'' e1) else e1)
      in if isGroup then classList_add ''has-error'' e2 else e2)"

section \<open>booking.js\<close>

text \<open>
  The module state of booking.js: the configuration object (mutable through
  \<open>updateConfig\<close>), the variables \<open>isScriptLoaded\<close> and \<open>scriptLoadAttempts\<close>, and what
  the module reads and writes outside itself: the page, \<open>window.location.pathname\<close>, the
  date \<open>new Date().toISOString().split('T')[0]\<close> and the calls of \<open>window.open\<close>,
  \<open>scrollIntoView\<close> and the assignments to \<open>window.location.href\<close>, logged in \<open>effects\<close>.
  The variable \<open>setmoreWidget\<close> is never assigned and is left out.
\<close>

record booking_config =
  provider :: string
  setmoreUrl :: string
  internalRoute :: string
  scriptTimeout :: int
  retryAttempts :: int

definition default_BOOKING_CONFIG :: booking_config where
  "default_BOOKING_CONFIG =
     \<lparr>provider = ''setmore'',
      setmoreUrl = ''https://daixmarededa.setmore.com/book'',
      internalRoute = ''/pages/booking.html'',
      scriptTimeout = 10000,
      retryAttempts = 3\<rparr>"

datatype effect = WindowOpen string string string | LocationHref string | ScrollIntoView node

record booking_state =
  BOOKING_CONFIG :: booking_config
  isScriptLoaded :: bool
  scriptLoadAttempts :: nat
  page :: document
  pathname :: string
  today :: string
  effects :: "effect list"

definition isBookingPage :: "booking_state \<Rightarrow> bool" where
  "isBookingPage s = includes_str (pathname s) ''booking''"

definition showLoadingState :: "booking_state \<Rightarrow> booking_state" where
  "showLoadingState s =
     (case querySelector_class (page s) ''booking-loading'' of
        None \<Rightarrow> s
      | Some loadingElement \<Rightarrow>
          s\<lparr>page := update_elem loadingElement (set_style ''display'' ''flex'') (page s)\<rparr>)"

definition hideLoadingState :: "booking_state \<Rightarrow> booking_state" where
  "hideLoadingState s =
     (case querySelector_class (page s) ''booking-loading'' of
        None \<Rightarrow> s
      | Some loadingElement \<Rightarrow>
          s\<lparr>page := update_elem loadingElement (set_style ''display'' ''none'') (page s)\<rparr>)"

definition setupSetmoreFallbackLink :: "booking_state \<Rightarrow> booking_state" where
  "setupSetmoreFallbackLink s =
     (case getElementById (page s) ''setmore-fallback-link'' of
        None \<Rightarrow> s
      | Some fallbackLink \<Rightarrow>
          s\<lparr>page := update_elem fallbackLink
                      (setAttribute ''href'' (setmoreUrl (BOOKING_CONFIG s))) (page s)\<rparr>)"

definition showSetmoreFallback :: "booking_state \<Rightarrow> booking_state" where
  "showSetmoreFallback s =
     (let setmoreContainer = getElementById (page s) ''setmore-booking-container'';
          fallbackContainer = getElementById (page s) ''booking-fallback'';
          s1 = (case setmoreContainer of
                  None \<Rightarrow> s
                | Some c \<Rightarrow> s\<lparr>page := update_elem c (set_style ''display'' ''none'') (page s)\<rparr>)
      in (case fallbackContainer of
            None \<Rightarrow> s1
          | Some f \<Rightarrow>
              setupSetmoreFallbackLink
                (s1\<lparr>page := update_elem f (set_style ''display'' ''block'') (page s1)\<rparr>)))"

text \<open>
  The first lines of \<open>loadSetmoreScript\<close>: an element with the id \<open>setmore_script\<close> is
  removed, a new script element is created and appended to \<open>document.head\<close>. The result
  holds the new element.
\<close>

definition inject_script :: "booking_state \<Rightarrow> node \<times> booking_state" where
  "inject_script s =
     (let d1 = (case getElementById (page s) ''setmore_script'' of
                  None \<Rightarrow> page s
                | Some existingScript \<Rightarrow> remove_node existingScript (page s))
      in (case createElement ''script'' d1 of
            (script, d2) \<Rightarrow>
              (let d3 = update_elem script (set_id ''setmore_script'') d2;
                   d4 = update_elem script
                          (setAttribute ''src''
                             ''https://assets.setmore.com/integration/static/setmoreIframeLive.js'') d3;
                   d5 = update_elem script (setAttribute ''async'' []) d4
               in (script, s\<lparr>page := appendChild (head d5) script d5\<rparr>))))"

text \<open>
  \<open>loadSetmoreScript\<close> returns a promise that later events settle. Of the three callbacks
  of one script element (\<open>onload\<close>, \<open>onerror\<close>, the timeout), the first to run decides
  the attempt: \<open>onload\<close> and \<open>onerror\<close> clear the timeout, and what a script does after
  its timeout has rejected the promise is not modelled. The list of events gives, for each
  script element the loader injects in turn, that first callback; when the list is used up
  the last injected script is still loading and the promise is pending. The retry of
  \<open>onerror\<close> runs after a delay of 2000 ms, and settles the promise as the promise of the
  recursive call settles; delays are not modelled, only the order of the callbacks. The
  configuration is read when \<open>onerror\<close> runs.
\<close>

datatype script_event = ScriptLoad | ScriptError | ScriptTimeout

datatype promise = Pending | Resolved | Rejected string

fun loadSetmoreScript :: "script_event list \<Rightarrow> booking_state \<Rightarrow> promise \<times> booking_state" where
  "loadSetmoreScript [] s = (Pending, snd (inject_script s))"
| "loadSetmoreScript (ev # evs) s =
     (case inject_script s of
        (script, s1) \<Rightarrow>
          (case ev of
             ScriptLoad \<Rightarrow> (Resolved, s1\<lparr>isScriptLoaded := True\<rparr>)
           | ScriptTimeout \<Rightarrow>
               (Rejected ''Script loading timeout'', s1\<lparr>page := remove_node script (page s1)\<rparr>)
           | ScriptError \<Rightarrow>
               (let s2 = s1\<lparr>page := remove_node script (page s1)\<rparr>;
                    s3 = s2\<lparr>scriptLoadAttempts := scriptLoadAttempts s2 + 1\<rparr>
                in if int (scriptLoadAttempts s3) < retryAttempts (BOOKING_CONFIG s3)
                   then loadSetmoreScript evs s3
                   else (Rejected ''Failed to load Setmore script after multiple attempts'', s3))))"

text \<open>\<open>embedSetmoreWidget\<close>: no step of its \<open>try\<close> block throws in the model, so the
  \<open>catch\<close> branch (\<open>showSetmoreFallback\<close>) is not reached.\<close>

definition embedSetmoreWidget :: "booking_state \<Rightarrow> booking_state" where
  "embedSetmoreWidget s =
     (case getElementById (page s) ''setmore-booking-container'' of
        None \<Rightarrow> s
      | Some setmoreContainer \<Rightarrow>
          (case createElement ''iframe'' (page s) of
             (iframe, d1) \<Rightarrow>
               (let d2 = update_elem iframe
                      (set_style ''borderRadius'' ''8px'' \<circ>
                       setAttribute ''allow'' ''camera; microphone; geolocation'' \<circ>
                       setAttribute ''title'' ''Book Appointment'' \<circ>
                       setAttribute ''frameborder'' ''0'' \<circ>
                       setAttribute ''height'' ''800'' \<circ>
                       setAttribute ''width'' ''100%'' \<circ>
                       setAttribute ''src'' (setmoreUrl (BOOKING_CONFIG s))) d1;
                    d3 = clear_innerHTML setmoreContainer d2;
                    d4 = appendChild setmoreContainer iframe d3
                in setupSetmoreFallbackLink (s\<lparr>page := d4\<rparr>))))"

text \<open>\<open>loadSetmoreWidget\<close>: the \<open>then\<close> and \<open>catch\<close> callbacks run when the promise
  settles; while it is pending the page shows the loading state.\<close>

definition loadSetmoreWidget :: "script_event list \<Rightarrow> booking_state \<Rightarrow> booking_state" where
  "loadSetmoreWidget evs s =
     (case getElementById (page s) ''setmore-booking-container'' of
        None \<Rightarrow> s
      | Some setmoreContainer \<Rightarrow>
          (case loadSetmoreScript evs (showLoadingState s) of
             (Pending, s1) \<Rightarrow> s1
           | (Resolved, s1) \<Rightarrow> embedSetmoreWidget (hideLoadingState s1)
           | (Rejected err, s1) \<Rightarrow>
               showSetmoreFallback
                 (hideLoadingState
                    (s1\<lparr>page := console_error (''Failed to load Setmore script: '' @ err) (page s1)\<rparr>))))"

text \<open>\<open>setupInternalBookingForm\<close>: the submit listener it registers is not part of the
  state; the date input gets today's date as its minimum.\<close>

definition setupInternalBookingForm :: "booking_state \<Rightarrow> booking_state" where
  "setupInternalBookingForm s =
     (case getElementById (page s) ''booking-form'' of
        None \<Rightarrow> s
      | Some bookingForm \<Rightarrow>
          (case getElementById (page s) ''booking-date'' of
             None \<Rightarrow> s
           | Some dateInput \<Rightarrow>
               s\<lparr>page := update_elem dateInput (setAttribute ''min'' (today s)) (page s)\<rparr>))"

definition showInternalBookingForm :: "booking_state \<Rightarrow> booking_state" where
  "showInternalBookingForm s =
     (let setmoreContainer = getElementById (page s) ''setmore-booking-container'';
          internalContainer = getElementById (page s) ''internal-booking-container'';
          s1 = (case setmoreContainer of
                  None \<Rightarrow> s
                | Some c \<Rightarrow> s\<lparr>page := update_elem c (set_style ''display'' ''none'') (page s)\<rparr>)
      in (case internalContainer of
            None \<Rightarrow> s1
          | Some i \<Rightarrow>
              setupInternalBookingForm
                (s1\<lparr>page := update_elem i (set_style ''display'' ''block'') (page s1)\<rparr>)))"

definition initializeBookingWidget :: "script_event list \<Rightarrow> booking_state \<Rightarrow> booking_state" where
  "initializeBookingWidget evs s =
     (if provider (BOOKING_CONFIG s) = ''setmore'' then loadSetmoreWidget evs s
      else showInternalBookingForm s)"

text \<open>\<open>init\<close>: registering the click handler of the floating button leaves the state as
  it is; nothing in the \<open>try\<close> block throws in the model.\<close>

definition init :: "script_event list \<Rightarrow> booking_state \<Rightarrow> booking_state" where
  "init evs s = (if isBookingPage s then initializeBookingWidget evs s else s)"

definition openInternalBooking :: "booking_state \<Rightarrow> booking_state" where
  "openInternalBooking s = s\<lparr>effects := effects s @ [LocationHref (internalRoute (BOOKING_CONFIG s))]\<rparr>"

definition openSetmoreBooking :: "booking_state \<Rightarrow> booking_state" where
  "openSetmoreBooking s =
     (let otherwise =
            (if setmoreUrl (BOOKING_CONFIG s) \<noteq> [] \<and>
                setmoreUrl (BOOKING_CONFIG s) \<noteq> ''https://booking.setmore.com/scheduleappointment/services''
             then s\<lparr>effects := effects s @
                       [WindowOpen (setmoreUrl (BOOKING_CONFIG s)) ''_blank'' ''width=800,height=600'']\<rparr>
             else s\<lparr>effects := effects s @ [LocationHref (internalRoute (BOOKING_CONFIG s))]\<rparr>)
      in if isBookingPage s \<and> isScriptLoaded s
         then (case getElementById (page s) ''setmore-booking-container'' of
                 None \<Rightarrow> otherwise
               | Some bookingWidget \<Rightarrow>
                   if style (elem (page s) bookingWidget) ''display'' \<noteq> ''none''
                   then s\<lparr>effects := effects s @ [ScrollIntoView bookingWidget]\<rparr>
                   else otherwise)
         else otherwise)"

text \<open>\<open>handleBookingClick(e)\<close> starts with \<open>e.preventDefault()\<close>: called with an event it
  goes on, called without one (as \<open>openBooking()\<close>) it throws before it does anything.\<close>

definition handleBookingClick :: "bool \<Rightarrow> booking_state \<Rightarrow> js_error + booking_state" where
  "handleBookingClick hasEvent s =
     (if \<not> hasEvent then Inl (TypeError ''Cannot read properties of undefined'')
      else if provider (BOOKING_CONFIG s) = ''setmore'' then Inr (openSetmoreBooking s)
      else Inr (openInternalBooking s))"

text \<open>\<open>updateConfig(newConfig)\<close>: \<open>Object.assign\<close> overwrites the properties that
  \<open>newConfig\<close> has.\<close>

record config_update =
  new_provider :: "string option"
  new_setmoreUrl :: "string option"
  new_internalRoute :: "string option"
  new_scriptTimeout :: "int option"
  new_retryAttempts :: "int option"

definition Object_assign :: "booking_config \<Rightarrow> config_update \<Rightarrow> booking_config" where
  "Object_assign c u =
     \<lparr>provider = (case new_provider u of None \<Rightarrow> provider c | Some x \<Rightarrow> x),
      setmoreUrl = (case new_setmoreUrl u of None \<Rightarrow> setmoreUrl c | Some x \<Rightarrow> x),
      internalRoute = (case new_internalRoute u of None \<Rightarrow> internalRoute c | Some x \<Rightarrow> x),
      scriptTimeout = (case new_scriptTimeout u of None \<Rightarrow> scriptTimeout c | Some x \<Rightarrow> x),
      retryAttempts = (case new_retryAttempts u of None \<Rightarrow> retryAttempts c | Some x \<Rightarrow> x)\<rparr>"

definition updateConfig :: "config_update \<Rightarrow> script_event list \<Rightarrow> booking_state \<Rightarrow> booking_state" where
  "updateConfig newConfig evs s =
     (let s1 = s\<lparr>BOOKING_CONFIG := Object_assign (BOOKING_CONFIG s) newConfig\<rparr>
      in if isBookingPage s1 then initializeBookingWidget evs s1 else s1)"

definition getConfig :: "booking_state \<Rightarrow> booking_config" where
  "getConfig s = BOOKING_CONFIG s"

text \<open>The listener of the window's \<open>error\<close> event.\<close>

definition onWindowError :: "string \<Rightarrow> booking_state \<Rightarrow> booking_state" where
  "onWindowError filename s =
     (if filename \<noteq> [] \<and> includes_str filename ''setmore''
      then showSetmoreFallback (s\<lparr>page := console_error ''Setmore script error:'' (page s)\<rparr>)
      else s)"

text \<open>
  The operations of the module on its state: the initialisation, the exported functions
  and the listeners. Those that start a load carry the events of that load. The submit
  handler of the internal booking form, which touches only the form and its button, is
  left out.
\<close>

datatype booking_operation =
  Init "script_event list"
  | HandleBookingClick bool
  | OpenSetmoreBooking
  | OpenInternalBooking
  | UpdateConfig config_update "script_event list"
  | GetConfig
  | WindowError string

fun booking_step :: "booking_operation \<Rightarrow> booking_state \<Rightarrow> booking_state" where
  "booking_step (Init evs) s = init evs s"
| "booking_step (HandleBookingClick hasEvent) s =
     (case handleBookingClick hasEvent s of Inl err \<Rightarrow> s | Inr s' \<Rightarrow> s')"
| "booking_step OpenSetmoreBooking s = openSetmoreBooking s"
| "booking_step OpenInternalBooking s = openInternalBooking s"
| "booking_step (UpdateConfig newConfig evs) s = updateConfig newConfig evs s"
| "booking_step GetConfig s = s"
| "booking_step (WindowError filename) s = onWindowError filename s"

text \<open>The state in which a page session starts.\<close>

definition initial_booking_state :: "document \<Rightarrow> string \<Rightarrow> string \<Rightarrow> booking_state" where
  "initial_booking_state d path date =
     \<lparr>BOOKING_CONFIG = default_BOOKING_CONFIG, isScriptLoaded = False, scriptLoadAttempts = 0,
      page = d, pathname = path, today = date, effects = []\<rparr>"

subsection \<open>Auxiliary notions of the proofs about booking.js\<close>

text \<open>\<open>same_page d0 d\<close>: \<open>d\<close> is well formed and has the attached elements of \<open>d0\<close>, with
  the same ids and ancestors. \<open>after_error s\<close> is the state in which \<open>onerror\<close> decides
  between retry and rejection: the script injected and removed again, the counter
  incremented. \<open>after_timeout s\<close> is the state the timeout callback leaves.\<close>

definition same_page :: "document \<Rightarrow> document \<Rightarrow> bool" where
  "same_page d0 d = (wf_document d \<and> nodes d = nodes d0 \<and>
     (\<forall>n\<in>set (nodes d0). el_id (elem d n) = el_id (elem d0 n) \<and>
                           ancestors (elem d n) = ancestors (elem d0 n)))"

definition after_error :: "booking_state \<Rightarrow> booking_state" where
  "after_error s =
     (case inject_script s of
        (script, s1) \<Rightarrow>
          s1\<lparr>page := remove_node script (page s1), scriptLoadAttempts := Suc (scriptLoadAttempts s1)\<rparr>)"

definition after_timeout :: "booking_state \<Rightarrow> booking_state" where
  "after_timeout s =
     (case inject_script s of (script, s1) \<Rightarrow> s1\<lparr>page := remove_node script (page s1)\<rparr>)"

section \<open>lightbox.js\<close>

text \<open>\<open>root.querySelector(sel)\<close> and \<open>root.querySelectorAll(sel)\<close>: the descendants of
  \<open>root\<close> that match, in tree order; the selector is given as a predicate on elements.\<close>

definition querySelectorAll_in :: "document \<Rightarrow> node \<Rightarrow> (element \<Rightarrow> bool) \<Rightarrow> node list" where
  "querySelectorAll_in d root sel =
     filter (\<lambda>n. root \<in> set (ancestors (elem d n)) \<and> sel (elem d n)) (nodes d)"

definition querySelector_in :: "document \<Rightarrow> node \<Rightarrow> (element \<Rightarrow> bool) \<Rightarrow> node option" where
  "querySelector_in d root sel =
     find (\<lambda>n. root \<in> set (ancestors (elem d n)) \<and> sel (elem d n)) (nodes d)"

definition has_class :: "string \<Rightarrow> element \<Rightarrow> bool" where
  "has_class c e = (c \<in> set (classList e))"

definition has_tag :: "string \<Rightarrow> element \<Rightarrow> bool" where
  "has_tag t e = (tagName e = t)"

text \<open>\<open>'button, [href], input, select, textarea, [tabindex]:not([tabindex="-1"])'\<close>\<close>

definition focusable_selector :: "element \<Rightarrow> bool" where
  "focusable_selector e =
     (tagName e \<in> set [''button'', ''input'', ''select'', ''textarea''] \<or>
      attributes e ''href'' \<noteq> None \<or>
      (case attributes e ''tabindex'' of None \<Rightarrow> False | Some t \<Rightarrow> t \<noteq> ''-1''))"

text \<open>Numbers in template strings.\<close>

function show_nat :: "nat \<Rightarrow> string" where
  "show_nat n =
     (if n < 10 then [char_of (48 + n)] else show_nat (n div 10) @ [char_of (48 + n mod 10)])"
  by pat_completeness auto
termination
  by (relation "measure id") auto

text \<open>
  The module state of lightbox.js: the element variables set by \<open>setupLightbox\<close>
  (\<open>None\<close> is \<open>null\<close>), the state variables, and the page. Three parts of the state stand
  for what the browser holds for the module:
  \<^item> \<open>itemListeners\<close>: the click and keydown listeners that \<open>setupGalleryItems\<close> has added
    to gallery items, each with the index it captured;
  \<^item> \<open>openTimers\<close>: the number of callbacks of \<open>setTimeout(..., 50)\<close> of \<open>openLightbox\<close>
    that have not run yet;
  \<^item> \<open>imageLoads\<close>: the preloads started by \<open>loadCurrentImage\<close> whose \<open>onload\<close> or
    \<open>onerror\<close> has not run yet, each with the values its callbacks captured.

  \<open>announceToScreenReader\<close> appends an element with the message to the body and removes
  it a second later; the model keeps the messages in \<open>announcements\<close>. \<open>toasts\<close> are the calls
  of \<open>window.MainApp.showToast\<close>, made when \<open>hasShowToast\<close> holds. The function
  \<open>preloadAdjacentImages\<close> is never called and is left out.
\<close>

record image_load =
  load_src :: string
  load_alt :: string
  load_overlay :: "node option"

record lightbox_state =
  lightbox :: "node option"
  lightboxImage :: "node option"
  lightboxTitle :: "node option"
  lightboxDescription :: "node option"
  lightboxCounter :: "node option"
  lightboxClose :: "node option"
  lightboxPrev :: "node option"
  lightboxNext :: "node option"
  lightboxOverlay :: "node option"
  currentIndex :: nat
  galleryItems :: "node list"
  isOpen :: bool
  focusedElementBeforeModal :: "node option"
  doc :: document
  itemListeners :: "(node \<times> nat) list"
  openTimers :: nat
  imageLoads :: "image_load list"
  announcements :: "string list"
  hasShowToast :: bool
  toasts :: "(string \<times> string) list"

definition on_doc :: "(document \<Rightarrow> document) \<Rightarrow> lightbox_state \<Rightarrow> lightbox_state" where
  "on_doc f s = s\<lparr>doc := f (doc s)\<rparr>"

text \<open>An update of an element variable that may be \<open>null\<close>: \<open>if (el) el.prop = ...\<close>.\<close>

definition on_elem :: "node option \<Rightarrow> (element \<Rightarrow> element) \<Rightarrow> lightbox_state \<Rightarrow> lightbox_state" where
  "on_elem el f s = (case el of None \<Rightarrow> s | Some n \<Rightarrow> on_doc (update_elem n f) s)"

text \<open>\<open>galleryItems[i]\<close>: \<open>undefined\<close> outside the array.\<close>

definition item_at :: "node list \<Rightarrow> nat \<Rightarrow> node option" where
  "item_at items i = (if i < length items then Some (items ! i) else None)"

definition setupLightbox :: "lightbox_state \<Rightarrow> lightbox_state" where
  "setupLightbox s =
     (case getElementById (doc s) ''lightbox'' of
        None \<Rightarrow> s\<lparr>lightbox := None\<rparr>
      | Some lb \<Rightarrow>
          s\<lparr>lightbox := Some lb,
            lightboxImage := getElementById (doc s) ''lightbox-image'',
            lightboxTitle := getElementById (doc s) ''lightbox-title'',
            lightboxDescription := getElementById (doc s) ''lightbox-description'',
            lightboxCounter := getElementById (doc s) ''lightbox-counter'',
            lightboxClose := getElementById (doc s) ''lightbox-close'',
            lightboxPrev := getElementById (doc s) ''lightbox-prev'',
            lightboxNext := getElementById (doc s) ''lightbox-next'',
            lightboxOverlay := querySelector_in (doc s) lb (has_class ''lightbox-overlay'')\<rparr>)"

definition setupGalleryItems :: "lightbox_state \<Rightarrow> lightbox_state" where
  "setupGalleryItems s =
     (case querySelector_class (doc s) ''gallery-grid'' of
        None \<Rightarrow> s
      | Some galleryContainer \<Rightarrow>
          (let found = querySelectorAll_in (doc s) galleryContainer (has_class ''gallery-item'')
           in s\<lparr>galleryItems := found,
                 itemListeners := itemListeners s @ zip found [0..<length found]\<rparr>))"

text \<open>\<open>init\<close>: \<open>setupEventListeners\<close> registers the handlers below on the elements that
  exist, and nothing if there is no lightbox element; the step function further down
  follows that.\<close>

definition lightbox_init :: "lightbox_state \<Rightarrow> lightbox_state" where
  "lightbox_init s = setupGalleryItems (setupLightbox s)"

definition announceToScreenReader :: "string \<Rightarrow> lightbox_state \<Rightarrow> lightbox_state" where
  "announceToScreenReader msg s = s\<lparr>announcements := announcements s @ [msg]\<rparr>"

definition lb_showLoadingState :: "lightbox_state \<Rightarrow> lightbox_state" where
  "lb_showLoadingState s = on_elem (lightboxImage s) (set_style ''opacity'' ''0.5'') s"

definition lb_hideLoadingState :: "lightbox_state \<Rightarrow> lightbox_state" where
  "lb_hideLoadingState s = on_elem (lightboxImage s) (set_style ''opacity'' ''1'') s"

definition handleImageError :: "lightbox_state \<Rightarrow> lightbox_state" where
  "handleImageError s =
     (let s1 = on_elem (lightboxImage s) (setAttribute ''alt'' ''Failed to load image'') s;
          s2 = on_elem (lightboxTitle s1) (set_textContent ''Image unavailable'') s1;
          s3 = on_elem (lightboxDescription s2)
                 (set_style ''display'' ''block'' \<circ>
                  set_textContent ''Sorry, this image could not be loaded.'') s2
      in if hasShowToast s3 then s3\<lparr>toasts := toasts s3 @ [(''Failed to load image'', ''error'')]\<rparr>
         else s3)"

definition updateImageInfo :: "node option \<Rightarrow> lightbox_state \<Rightarrow> lightbox_state" where
  "updateImageInfo ov s =
     (let title0 = (case ov of
                      None \<Rightarrow> []
                    | Some o' \<Rightarrow>
                        (case querySelector_in (doc s) o' (has_class ''gallery-title'') of
                           None \<Rightarrow> []
                         | Some titleElement \<Rightarrow> textContent (elem (doc s) titleElement)));
          description = (case ov of
                      None \<Rightarrow> []
                    | Some o' \<Rightarrow>
                        (case querySelector_in (doc s) o' (has_class ''gallery-description'') of
                           None \<Rightarrow> []
                         | Some descElement \<Rightarrow> textContent (elem (doc s) descElement)));
          title = (if title0 = [] then
                     (case lightboxImage s of
                        None \<Rightarrow> title0
                      | Some im \<Rightarrow>
                          if reflect (elem (doc s) im) ''alt'' \<noteq> [] then reflect (elem (doc s) im) ''alt''
                          else ''Image '' @ show_nat (currentIndex s + 1))
                   else title0);
          s1 = on_elem (lightboxTitle s) (set_textContent title) s
      in on_elem (lightboxDescription s1)
           (set_style ''display'' (if description \<noteq> [] then ''block'' else ''none'') \<circ>
            set_textContent description) s1)"

text \<open>\<open>loadCurrentImage\<close> starts a preload: \<open>newImage.src = fullSrc\<close>. Its \<open>onload\<close> and
  \<open>onerror\<close> run later, as events of their own.\<close>

definition loadCurrentImage :: "lightbox_state \<Rightarrow> lightbox_state" where
  "loadCurrentImage s =
     (case lightboxImage s of
        None \<Rightarrow> s
      | Some im \<Rightarrow>
          (case item_at (galleryItems s) (currentIndex s) of
             None \<Rightarrow> s
           | Some currentItem \<Rightarrow>
               (case querySelector_in (doc s) currentItem (has_tag ''img'') of
                  None \<Rightarrow> s
                | Some img \<Rightarrow>
                    (let ov = querySelector_in (doc s) currentItem (has_class ''gallery-overlay'');
                         fullSrc = (case attributes (elem (doc s) img) ''data-full'' of
                                      None \<Rightarrow> reflect (elem (doc s) img) ''src''
                                    | Some v \<Rightarrow> if v \<noteq> [] then v else reflect (elem (doc s) img) ''src'');
                         alt = reflect (elem (doc s) img) ''alt'';
                         s1 = lb_showLoadingState s
                     in s1\<lparr>imageLoads := imageLoads s1 @
                              [\<lparr>load_src = fullSrc, load_alt = alt, load_overlay = ov\<rparr>]\<rparr>))))"

definition image_onload :: "image_load \<Rightarrow> lightbox_state \<Rightarrow> lightbox_state" where
  "image_onload l s =
     (let s1 = lb_hideLoadingState s;
          s2 = on_elem (lightboxImage s1) (setAttribute ''src'' (load_src l)) s1;
          s3 = on_elem (lightboxImage s2) (setAttribute ''alt'' (load_alt l)) s2
      in updateImageInfo (load_overlay l) s3)"

definition image_onerror :: "image_load \<Rightarrow> lightbox_state \<Rightarrow> lightbox_state" where
  "image_onerror l s = handleImageError (lb_hideLoadingState s)"

definition updateNavigation :: "lightbox_state \<Rightarrow> lightbox_state" where
  "updateNavigation s =
     (if length (galleryItems s) \<le> 1
      then on_elem (lightboxNext s) (set_style ''display'' ''none'')
             (on_elem (lightboxPrev s) (set_style ''display'' ''none'') s)
      else on_elem (lightboxNext s) (set_style ''display'' ''flex'')
             (on_elem (lightboxPrev s) (set_style ''display'' ''flex'') s))"

definition updateCounter :: "lightbox_state \<Rightarrow> lightbox_state" where
  "updateCounter s =
     (case lightboxCounter s of
        None \<Rightarrow> s
      | Some counter \<Rightarrow>
          if length (galleryItems s) > 1
          then on_doc (update_elem counter
                 (set_style ''display'' ''block'' \<circ>
                  set_textContent (show_nat (currentIndex s + 1) @ '' of '' @
                                   show_nat (length (galleryItems s))))) s
          else on_doc (update_elem counter (set_style ''display'' ''none'')) s)"

text \<open>\<open>openLightbox(index)\<close>: the index is an integer, as the listeners of the gallery items
  pass it. The callback of \<open>setTimeout\<close> is counted in \<open>openTimers\<close> and runs as an event of its
  own.\<close>

definition openLightbox :: "int \<Rightarrow> lightbox_state \<Rightarrow> lightbox_state" where
  "openLightbox index s =
     (case lightbox s of
        None \<Rightarrow> s
      | Some lb \<Rightarrow>
          if galleryItems s = [] \<or> index < 0 \<or> index \<ge> int (length (galleryItems s)) then s
          else
            (let s1 = s\<lparr>focusedElementBeforeModal := activeElement (doc s)\<rparr>;
                 s2 = s1\<lparr>currentIndex := nat index, isOpen := True\<rparr>;
                 s3 = on_doc (update_elem lb
                        (set_style ''display'' ''flex'' \<circ> setAttribute ''aria-hidden'' ''false'')) s2;
                 s4 = on_doc (\<lambda>d. update_elem (body d) (set_style ''overflow'' ''hidden'') d) s3;
                 s5 = s4\<lparr>openTimers := Suc (openTimers s4)\<rparr>
             in announceToScreenReader ''Gallery image opened'' s5))"

text \<open>The callback of the timer of \<open>openLightbox\<close>.\<close>

definition open_timer_callback :: "lightbox_state \<Rightarrow> lightbox_state" where
  "open_timer_callback s =
     (let s1 = updateCounter (updateNavigation (loadCurrentImage s))
      in (case lightboxClose s1 of
            None \<Rightarrow> s1
          | Some c \<Rightarrow> on_doc (focus c) s1))"

definition closeLightbox :: "lightbox_state \<Rightarrow> lightbox_state" where
  "closeLightbox s =
     (case lightbox s of
        None \<Rightarrow> s
      | Some lb \<Rightarrow>
          if \<not> isOpen s then s
          else
            (let s1 = s\<lparr>isOpen := False\<rparr>;
                 s2 = on_doc (update_elem lb
                        (set_style ''display'' ''none'' \<circ> setAttribute ''aria-hidden'' ''true'')) s1;
                 s3 = on_doc (\<lambda>d. update_elem (body d) (set_style ''overflow'' []) d) s2;
                 s4 = (case focusedElementBeforeModal s3 of
                         None \<Rightarrow> s3
                       | Some e \<Rightarrow> (on_doc (focus e) s3)\<lparr>focusedElementBeforeModal := None\<rparr>);
                 s5 = on_elem (lightboxImage s4) (setAttribute ''alt'' [] \<circ> setAttribute ''src'' []) s4
             in announceToScreenReader ''Gallery image closed'' s5))"

definition showPreviousImage :: "lightbox_state \<Rightarrow> lightbox_state" where
  "showPreviousImage s =
     (if \<not> isOpen s \<or> length (galleryItems s) \<le> 1 then s
      else
        (let s1 = s\<lparr>currentIndex := (if currentIndex s > 0 then currentIndex s - 1
                                       else length (galleryItems s) - 1)\<rparr>;
             s2 = updateCounter (updateNavigation (loadCurrentImage s1))
         in announceToScreenReader
              (''Previous image: '' @ show_nat (currentIndex s2 + 1) @ '' of '' @
               show_nat (length (galleryItems s2))) s2))"

definition showNextImage :: "lightbox_state \<Rightarrow> lightbox_state" where
  "showNextImage s =
     (if \<not> isOpen s \<or> length (galleryItems s) \<le> 1 then s
      else
        (let s1 = s\<lparr>currentIndex := (if currentIndex s < length (galleryItems s) - 1
                                       then currentIndex s + 1 else 0)\<rparr>;
             s2 = updateCounter (updateNavigation (loadCurrentImage s1))
         in announceToScreenReader
              (''Next image: '' @ show_nat (currentIndex s2 + 1) @ '' of '' @
               show_nat (length (galleryItems s2))) s2))"

text \<open>\<open>handleFocusTrap\<close>: with no focusable element in the lightbox, \<open>firstFocusable\<close> and
  \<open>lastFocusable\<close> are \<open>undefined\<close> and equal no element.\<close>

definition handleFocusTrap :: "bool \<Rightarrow> lightbox_state \<Rightarrow> lightbox_state" where
  "handleFocusTrap shiftKey s =
     (case lightbox s of
        None \<Rightarrow> s
      | Some lb \<Rightarrow>
          (case querySelectorAll_in (doc s) lb focusable_selector of
             [] \<Rightarrow> s
           | firstFocusable # rest \<Rightarrow>
               (let lastFocusable = last (firstFocusable # rest)
                in if shiftKey
                   then (if activeElement (doc s) = Some firstFocusable
                         then on_doc (focus lastFocusable) s else s)
                   else (if activeElement (doc s) = Some lastFocusable
                         then on_doc (focus firstFocusable) s else s))))"

definition handleKeydown :: "string \<Rightarrow> bool \<Rightarrow> lightbox_state \<Rightarrow> lightbox_state" where
  "handleKeydown key shiftKey s =
     (if \<not> isOpen s then s
      else if key = ''Escape'' then closeLightbox s
      else if key = ''ArrowLeft'' then showPreviousImage s
      else if key = ''ArrowRight'' then showNextImage s
      else if key = ''Home'' then
        (if length (galleryItems s) > 1
         then updateCounter (updateNavigation (loadCurrentImage (s\<lparr>currentIndex := 0\<rparr>)))
         else s)
      else if key = ''End'' then
        (if length (galleryItems s) > 1
         then updateCounter (updateNavigation (loadCurrentImage
                (s\<lparr>currentIndex := length (galleryItems s) - 1\<rparr>)))
         else s)
      else if key = ''Tab'' then handleFocusTrap shiftKey s
      else s)"

definition refresh :: "lightbox_state \<Rightarrow> lightbox_state" where
  "refresh s = setupGalleryItems s"

definition getState :: "lightbox_state \<Rightarrow> bool \<times> nat \<times> nat" where
  "getState s = (isOpen s, currentIndex s, length (galleryItems s))"

text \<open>
  The events of a page session after \<open>init\<close>, and the handler each one runs. A listener
  of a gallery item calls \<open>openLightbox\<close> with the index it captured; the listeners of the
  lightbox's own elements and of the document exist only if the lightbox element and the
  element in question exist. \<open>ImageLoaded k\<close> and \<open>ImageFailed k\<close> complete the \<open>k\<close>-th
  pending preload, in any order the network gives. \<open>FocusMoved\<close> is the browser moving the
  focus (a click, or the default action of Tab).
\<close>

datatype lightbox_event =
  ActivateItem node
  | ClickClose
  | ClickPrev
  | ClickNext
  | ClickOverlay
  | KeyDown string bool
  | OpenTimer
  | ImageLoaded nat
  | ImageFailed nat
  | LightboxImageError
  | VisibilityHidden
  | Resize
  | ApiRefresh
  | ApiOpenLightbox int
  | ApiCloseLightbox
  | FocusMoved "node option"

fun lightbox_step :: "lightbox_event \<Rightarrow> lightbox_state \<Rightarrow> lightbox_state" where
  "lightbox_step (ActivateItem item) s =
     foldl (\<lambda>s' (n, i). if n = item then openLightbox (int i) s' else s') s (itemListeners s)"
| "lightbox_step ClickClose s =
     (if lightbox s \<noteq> None \<and> lightboxClose s \<noteq> None then closeLightbox s else s)"
| "lightbox_step ClickPrev s =
     (if lightbox s \<noteq> None \<and> lightboxPrev s \<noteq> None then showPreviousImage s else s)"
| "lightbox_step ClickNext s =
     (if lightbox s \<noteq> None \<and> lightboxNext s \<noteq> None then showNextImage s else s)"
| "lightbox_step ClickOverlay s =
     (if lightbox s \<noteq> None \<and> lightboxOverlay s \<noteq> None then closeLightbox s else s)"
| "lightbox_step (KeyDown key shiftKey) s =
     (if lightbox s \<noteq> None then handleKeydown key shiftKey s else s)"
| "lightbox_step OpenTimer s =
     (if openTimers s > 0 then open_timer_callback (s\<lparr>openTimers := openTimers s - 1\<rparr>) else s)"
| "lightbox_step (ImageLoaded k) s =
     (if k < length (imageLoads s)
      then image_onload (imageLoads s ! k)
             (s\<lparr>imageLoads := take k (imageLoads s) @ drop (Suc k) (imageLoads s)\<rparr>)
      else s)"
| "lightbox_step (ImageFailed k) s =
     (if k < length (imageLoads s)
      then image_onerror (imageLoads s ! k)
             (s\<lparr>imageLoads := take k (imageLoads s) @ drop (Suc k) (imageLoads s)\<rparr>)
      else s)"
| "lightbox_step LightboxImageError s =
     (if lightbox s \<noteq> None \<and> lightboxImage s \<noteq> None then handleImageError s else s)"
| "lightbox_step VisibilityHidden s = (if isOpen s then closeLightbox s else s)"
| "lightbox_step Resize s = (if isOpen s then updateNavigation s else s)"
| "lightbox_step ApiRefresh s = refresh s"
| "lightbox_step (ApiOpenLightbox index) s = openLightbox index s"
| "lightbox_step ApiCloseLightbox s = closeLightbox s"
| "lightbox_step (FocusMoved target) s = on_doc (\<lambda>d. d\<lparr>activeElement := target\<rparr>) s"

text \<open>The events that neither open nor close the lightbox: the navigation of the
  user and everything the browser delivers while the lightbox is open.\<close>

fun navigation_event :: "lightbox_event \<Rightarrow> bool" where
  "navigation_event ClickPrev = True"
| "navigation_event ClickNext = True"
| "navigation_event (KeyDown key shiftKey) = (key \<noteq> ''Escape'')"
| "navigation_event OpenTimer = True"
| "navigation_event (ImageLoaded k) = True"
| "navigation_event (ImageFailed k) = True"
| "navigation_event LightboxImageError = True"
| "navigation_event Resize = True"
| "navigation_event ApiRefresh = True"
| "navigation_event (FocusMoved target) = True"
| "navigation_event _ = False"

definition run_events :: "lightbox_event list \<Rightarrow> lightbox_state \<Rightarrow> lightbox_state" where
  "run_events evs s = foldl (\<lambda>s' ev. lightbox_step ev s') s evs"

text \<open>The module's variables when the script has been loaded and \<open>init\<close> has not run yet, on
  a page \<open>d\<close>; \<open>toast\<close> says whether \<open>window.MainApp.showToast\<close> exists.\<close>

definition initial_lightbox_state :: "document \<Rightarrow> bool \<Rightarrow> lightbox_state" where
  "initial_lightbox_state d toast =
     \<lparr>lightbox = None, lightboxImage = None, lightboxTitle = None, lightboxDescription = None,
      lightboxCounter = None, lightboxClose = None, lightboxPrev = None, lightboxNext = None,
      lightboxOverlay = None, currentIndex = 0, galleryItems = [], isOpen = False,
      focusedElementBeforeModal = None, doc = d, itemListeners = [], openTimers = 0,
      imageLoads = [], announcements = [], hasShowToast = toast, toasts = []\<rparr>"

subsection \<open>Auxiliary notions of the proofs\<close>

text \<open>\<open>element_vars s\<close>: the element variables and the gallery items, which only \<open>setupLightbox\<close> and
  \<open>setupGalleryItems\<close> assign. \<open>frame_except X d d'\<close>: \<open>d'\<close> has the nodes of \<open>d\<close> with the same tags,
  classes and ancestors, and the same attributes outside \<open>X\<close>, so every search of lightbox.js
  finds in \<open>d'\<close> what it finds in \<open>d\<close>.\<close>

definition element_vars ::
  "lightbox_state \<Rightarrow> (node option \<times> node option \<times> node option \<times> node option \<times> node option) \<times>
     (node option \<times> node option \<times> node option \<times> node option) \<times> node list" where
  "element_vars s =
     ((lightbox s, lightboxImage s, lightboxTitle s, lightboxDescription s, lightboxCounter s),
      (lightboxClose s, lightboxPrev s, lightboxNext s, lightboxOverlay s), galleryItems s)"

definition frame_except :: "node set \<Rightarrow> document \<Rightarrow> document \<Rightarrow> bool" where
  "frame_except X d d' = (nodes d' = nodes d \<and>
     (\<forall>n. tagName (elem d' n) = tagName (elem d n) \<and> classList (elem d' n) = classList (elem d n) \<and>
          ancestors (elem d' n) = ancestors (elem d n) \<and>
          (n \<notin> X \<longrightarrow> attributes (elem d' n) = attributes (elem d n))))"

section \<open>Example pages\<close>

text \<open>Concrete pages on which the theorems are instantiated.\<close>

definition blank_element :: element where
  "blank_element = \<lparr>tagName = ''div'', el_id = [], classList = [], attributes = Map.empty,
     style = (\<lambda>_. []), el_value = [], textContent = [], ancestors = []\<rparr>"

definition example_env :: date_env where
  "example_env = \<lparr>parseDate = (\<lambda>_. None), startOfToday = 0\<rparr>"

text \<open>A contact form inside one form group: the name field holds \<open>a\<close>, the email field
  is empty, each has its error element; the subject and message fields are missing.\<close>

definition example_contact_page :: document where
  "example_contact_page =
     \<lparr>nodes = [10, 11, 12, 13, 14],
      elem = (\<lambda>_. blank_element)
        (10 := blank_element\<lparr>classList := [''form-group'']\<rparr>,
         11 := blank_element\<lparr>tagName := ''input'', el_id := ''contact-name'', el_value := ''a'',
                ancestors := [10]\<rparr>,
         12 := blank_element\<lparr>el_id := ''contact-name-error'', ancestors := [10]\<rparr>,
         13 := blank_element\<lparr>tagName := ''input'', el_id := ''contact-email'', ancestors := [10]\<rparr>,
         14 := blank_element\<lparr>el_id := ''contact-email-error'', ancestors := [10]\<rparr>),
      activeElement = None,
      console = [],
      head = 1,
      body = 2,
      next_node = 20\<rparr>"

text \<open>A booking page: the widget container with its loading indicator, the hidden
  fallback container and its link. The session starts on it with the default
  configuration; \<open>example_exhausted_state\<close> is that session after three load errors.\<close>

definition example_booking_page :: document where
  "example_booking_page =
     \<lparr>nodes = [1, 2, 30, 31, 32, 33],
      elem = (\<lambda>_. blank_element)
        (1 := blank_element\<lparr>tagName := ''head''\<rparr>,
         2 := blank_element\<lparr>tagName := ''body''\<rparr>,
         30 := blank_element\<lparr>el_id := ''setmore-booking-container'', ancestors := [2]\<rparr>,
         31 := blank_element\<lparr>classList := [''booking-loading''], ancestors := [30, 2]\<rparr>,
         32 := blank_element\<lparr>el_id := ''booking-fallback'', ancestors := [2],
                 style := (\<lambda>_. [])(''display'' := ''none'')\<rparr>,
         33 := blank_element\<lparr>tagName := ''a'', el_id := ''setmore-fallback-link'', ancestors := [32, 2]\<rparr>),
      activeElement = None,
      console = [],
      head = 1,
      body = 2,
      next_node = 40\<rparr>"

definition example_booking_state :: booking_state where
  "example_booking_state = initial_booking_state example_booking_page ''/pages/booking.html'' ''2024-01-01''"

definition example_exhausted_state :: booking_state where
  "example_exhausted_state =
     snd (loadSetmoreScript [ScriptError, ScriptError, ScriptError] example_booking_state)"

text \<open>A gallery of two items, each with a thumbnail that names its full-size image, and a
  lightbox with its image, close, previous and next elements; the first item has the focus.
  \<open>example_lightbox_state\<close> is the module after \<open>init\<close> on this page.\<close>

definition example_gallery_page :: document where
  "example_gallery_page =
     \<lparr>nodes = [1, 2, 50, 51, 52, 53, 54, 60, 61, 62, 63, 64],
      elem = (\<lambda>_. blank_element)
        (1 := blank_element\<lparr>tagName := ''head''\<rparr>,
         2 := blank_element\<lparr>tagName := ''body''\<rparr>,
         50 := blank_element\<lparr>classList := [''gallery-grid''], ancestors := [2]\<rparr>,
         51 := blank_element\<lparr>classList := [''gallery-item''], ancestors := [50, 2],
                 attributes := [''tabindex'' \<mapsto> ''0'']\<rparr>,
         52 := blank_element\<lparr>tagName := ''img'', ancestors := [51, 50, 2],
                 attributes := [''src'' \<mapsto> ''a-thumb.jpg'', ''data-full'' \<mapsto> ''a-full.jpg'',
                                ''alt'' \<mapsto> ''First'']\<rparr>,
         53 := blank_element\<lparr>classList := [''gallery-item''], ancestors := [50, 2],
                 attributes := [''tabindex'' \<mapsto> ''0'']\<rparr>,
         54 := blank_element\<lparr>tagName := ''img'', ancestors := [53, 50, 2],
                 attributes := [''src'' \<mapsto> ''b-thumb.jpg'', ''data-full'' \<mapsto> ''b-full.jpg'',
                                ''alt'' \<mapsto> ''Second'']\<rparr>,
         60 := blank_element\<lparr>el_id := ''lightbox'', ancestors := [2]\<rparr>,
         61 := blank_element\<lparr>tagName := ''img'', el_id := ''lightbox-image'', ancestors := [60, 2]\<rparr>,
         62 := blank_element\<lparr>tagName := ''button'', el_id := ''lightbox-close'', ancestors := [60, 2]\<rparr>,
         63 := blank_element\<lparr>tagName := ''button'', el_id := ''lightbox-prev'', ancestors := [60, 2]\<rparr>,
         64 := blank_element\<lparr>tagName := ''button'', el_id := ''lightbox-next'', ancestors := [60, 2]\<rparr>),
      activeElement = Some 51,
      console = [],
      head = 1,
      body = 2,
      next_node = 70\<rparr>"

definition example_lightbox_state :: lightbox_state where
  "example_lightbox_state = lightbox_init (initial_lightbox_state example_gallery_page False)"

lemma nodes_update_elem [simp]: "nodes (update_elem n g d) = nodes d"
  and activeElement_update_elem [simp]: "activeElement (update_elem n g d) = activeElement d"
  and console_update_elem [simp]: "console (update_elem n g d) = console d"
  and head_update_elem [simp]: "head (update_elem n g d) = head d"
  and body_update_elem [simp]: "body (update_elem n g d) = body d"
  and next_node_update_elem [simp]: "next_node (update_elem n g d) = next_node d"
  and elem_update_elem: "elem (update_elem n g d) m = (if m = n then g (elem d n) else elem d m)"
  by (simp_all add: update_elem_def)

lemma element_op_simps [simp]:
  "el_id (classList_add c e) = el_id e" "el_id (classList_remove c e) = el_id e"
  "el_id (setAttribute k v e) = el_id e" "el_id (set_textContent s e) = el_id e"
  "el_id (set_style k v e) = el_id e"
  "el_value (classList_add c e) = el_value e" "el_value (classList_remove c e) = el_value e"
  "el_value (setAttribute k v e) = el_value e" "el_value (set_textContent s e) = el_value e"
  "el_value (set_style k v e) = el_value e"
  "ancestors (classList_add c e) = ancestors e" "ancestors (classList_remove c e) = ancestors e"
  "ancestors (setAttribute k v e) = ancestors e" "ancestors (set_textContent s e) = ancestors e"
  "ancestors (set_style k v e) = ancestors e"
  "classList (setAttribute k v e) = classList e" "classList (set_textContent s e) = classList e"
  "classList (set_style k v e) = classList e"
  "textContent (classList_add c e) = textContent e" "textContent (classList_remove c e) = textContent e"
  "textContent (setAttribute k v e) = textContent e" "textContent (set_textContent s e) = s"
  "textContent (set_style k v e) = textContent e"
  "attributes (classList_add c e) = attributes e" "attributes (classList_remove c e) = attributes e"
  "attributes (setAttribute k v e) = (attributes e)(k \<mapsto> v)" "attributes (set_textContent s e) = attributes e"
  "attributes (set_style k v e) = attributes e"
  by (simp_all add: classList_add_def classList_remove_def setAttribute_def set_textContent_def set_style_def)

lemma classList_add_mem [simp]: "(c' \<in> set (classList (classList_add c e))) = (c' = c \<or> c' \<in> set (classList e))"
  by (auto simp: classList_add_def)

lemma classList_remove_mem [simp]: "(c' \<in> set (classList (classList_remove c e))) = (c' \<noteq> c \<and> c' \<in> set (classList e))"
  by (auto simp: classList_remove_def)

lemma frame_refl [simp]: "frame d d"
  by (simp add: frame_def)

lemma frame_trans: "frame d d' \<Longrightarrow> frame d' d'' \<Longrightarrow> frame d d''"
  by (simp add: frame_def)

lemma frame_getElementById: "frame d d' \<Longrightarrow> getElementById d' s = getElementById d s"
  by (simp add: frame_def getElementById_def)

lemma frame_closest: "frame d d' \<Longrightarrow> closest d' n ''form-group'' = closest d n ''form-group''"
  by (simp add: frame_def closest_def)

lemma frame_update_elem:
  "el_id (g (elem d n)) = el_id (elem d n) \<Longrightarrow> el_value (g (elem d n)) = el_value (elem d n) \<Longrightarrow>
   ancestors (g (elem d n)) = ancestors (elem d n) \<Longrightarrow>
   (''form-group'' \<in> set (classList (g (elem d n)))) = (''form-group'' \<in> set (classList (elem d n))) \<Longrightarrow>
   frame d (update_elem n g d)"
  by (simp add: frame_def elem_update_elem)

lemma frame_console_warn [simp]: "frame d (console_warn w d)"
  by (simp add: frame_def console_warn_def)

lemma frame_clearFieldError: "frame d (clearFieldError field d)"
  unfolding clearFieldError_def Let_def
  by (auto split: option.splits intro!: frame_update_elem frame_trans [OF _ frame_update_elem])


lemma frame_showFieldError: "frame d (showFieldError field m d)"
  unfolding showFieldError_def Let_def
  by (auto split: option.splits intro!: frame_update_elem frame_trans [OF _ frame_update_elem])

lemma frame_warns: "frame d (console_warns ws d)"
  unfolding console_warns_def
proof (induction ws arbitrary: d)
  case Nil
  show ?case by simp
next
  case (Cons w ws)
  show ?case using frame_trans [OF frame_console_warn Cons] by simp
qed

lemma frame_validateField: "frame d (snd (validateField reg field rules d))"
proof -
  have a: "frame d (console_warns ws (clearFieldError field d))" for ws
    by (rule frame_trans [OF frame_clearFieldError frame_warns])
  have b: "frame d (showFieldError field m (console_warns ws (clearFieldError field d)))" for ws m
    by (rule frame_trans [OF a frame_showFieldError])
  show ?thesis
    unfolding validateField_def Let_def
    by (simp add: a b split: prod.splits sum.splits)
qed

lemma validateField_fst:
  "fst (validateField reg field rules d) =
     (case snd (run_rules reg (el_value (elem d field)) rules) of
        Inl e \<Rightarrow> Inl e | Inr (b, m) \<Rightarrow> Inr b)"
  unfolding validateField_def Let_def
  by (simp split: prod.splits sum.splits)

lemma frame_validateField_fst:
  "frame d d' \<Longrightarrow> fst (validateField reg field rules d') = fst (validateField reg field rules d)"
  by (simp add: validateField_fst frame_def)

lemma getElementById_console [simp]: "getElementById (console_warn w d) s = getElementById d s"
  by (simp add: getElementById_def console_warn_def)

lemma closest_console [simp]: "closest (console_warn w d) n c = closest d n c"
  by (simp add: closest_def console_warn_def)

lemma elem_console [simp]: "elem (console_warn w d) = elem d"
  and nodes_console [simp]: "nodes (console_warn w d) = nodes d"
  and activeElement_console [simp]: "activeElement (console_warn w d) = activeElement d"
  by (simp_all add: console_warn_def)

lemma update_elem_console: "update_elem n g (console_warn w d) = console_warn w (update_elem n g d)"
  by (simp add: update_elem_def console_warn_def)

lemma closest_update_elem:
  "ancestors (g (elem d n)) = ancestors (elem d n) \<Longrightarrow>
   (c \<in> set (classList (g (elem d n)))) = (c \<in> set (classList (elem d n))) \<Longrightarrow>
   closest (update_elem n g d) m c = closest d m c"
  by (auto simp: closest_def elem_update_elem intro!: find_cong)

lemma getElementById_update_elem:
  "el_id (g (elem d n)) = el_id (elem d n) \<Longrightarrow> getElementById (update_elem n g d) s = getElementById d s"
  by (auto simp: getElementById_def elem_update_elem intro!: find_cong)

lemma clearFieldError_console:
  "clearFieldError field (console_warn w d) = console_warn w (clearFieldError field d)"
  unfolding clearFieldError_def Let_def
  by (simp add: update_elem_console closest_update_elem split: option.splits)

lemma split_on_nonempty: "split_on c s \<noteq> []"
  by (induction s) (auto split: list.splits)

lemma run_rules_throws:
  "rule_throws reg rule \<Longrightarrow>
   snd (run_rules reg v (rule # rules)) = Inl (TypeError ''ruleConfig.test is not a function'')"
  by (auto simp: rule_throws_def rule_name_def split_on_nonempty split: list.splits)

lemma run_rules_fails:
  "rule_fails reg v rule \<Longrightarrow>
   \<exists>m. snd (run_rules reg v (rule # rules)) = Inr (False, m) \<and> to_text m = rule_message reg rule"
  by (auto simp: rule_fails_def rule_message_def rule_name_def rule_param_def split_on_nonempty
           split: list.splits lookup.splits message.splits)

lemma run_rules_passes:
  "\<not> rule_throws reg rule \<Longrightarrow> \<not> rule_fails reg v rule \<Longrightarrow>
   snd (run_rules reg v (rule # rules)) = snd (run_rules reg v rules)"
  by (auto simp: rule_throws_def rule_fails_def rule_name_def rule_param_def split_on_nonempty
           split: list.splits lookup.splits prod.splits)

lemma run_rules_total:
  "\<forall>rule\<in>set rules. \<not> rule_throws reg rule \<Longrightarrow> \<exists>bm. snd (run_rules reg v rules) = Inr bm"
proof (induction rules)
  case Nil
  show ?case by auto
next
  case (Cons rule rules)
  show ?case
  proof (cases "rule_fails reg v rule")
    case True
    from run_rules_fails [OF True, of rules]
    obtain m where "snd (run_rules reg v (rule # rules)) = Inr (False, m)" by blast
    then show ?thesis by (intro exI)
  next
    case False
    from Cons.prems have nt: "\<not> rule_throws reg rule" by simp
    from Cons have "\<exists>bm. snd (run_rules reg v rules) = Inr bm" by simp
    then show ?thesis by (simp only: run_rules_passes [OF nt False])
  qed
qed

lemma run_rules_valid:
  "snd (run_rules reg v rules) = Inr (True, m) \<Longrightarrow>
   (\<forall>rule\<in>set rules. \<not> rule_fails reg v rule \<and> \<not> rule_throws reg rule)"
proof (induction rules)
  case Nil
  show ?case by simp
next
  case (Cons rule rules)
  have nt: "\<not> rule_throws reg rule"
    using Cons.prems run_rules_throws [of reg rule v rules] by auto
  have nf: "\<not> rule_fails reg v rule"
    using Cons.prems run_rules_fails [of reg v rule rules] by auto
  from Cons.prems have "snd (run_rules reg v rules) = Inr (True, m)"
    by (simp add: run_rules_passes [OF nt nf] del: run_rules.simps)
  with Cons.IH nt nf show ?case by simp
qed

lemma run_rules_invalid:
  "snd (run_rules reg v rules) = Inr (False, m) \<Longrightarrow>
   (\<exists>rule. find (rule_fails reg v) rules = Some rule \<and> to_text m = rule_message reg rule)"
proof (induction rules)
  case Nil
  then show ?case by simp
next
  case (Cons rule rules)
  show ?case
  proof (cases "rule_fails reg v rule")
    case True
    from run_rules_fails [OF True, of rules] Cons.prems True show ?thesis by auto
  next
    case False
    have nt: "\<not> rule_throws reg rule"
      using Cons.prems run_rules_throws [of reg rule v rules] by auto
    from Cons.prems have "snd (run_rules reg v rules) = Inr (False, m)"
      by (simp add: run_rules_passes [OF nt False] del: run_rules.simps)
    with Cons.IH False show ?thesis by simp
  qed
qed

lemma showFieldError_console:
  "showFieldError field m (console_warn w d) = console_warn w (showFieldError field m d)"
  unfolding showFieldError_def Let_def
  by (simp add: update_elem_console closest_update_elem split: option.splits)

lemma document_eqI:
  "nodes d = nodes d' \<Longrightarrow> activeElement d = activeElement d' \<Longrightarrow> console d = console d' \<Longrightarrow>
   head d = head d' \<Longrightarrow> body d = body d' \<Longrightarrow> next_node d = next_node d' \<Longrightarrow>
   (\<And>n. elem d n = elem d' n) \<Longrightarrow> d = (d' :: document)"
  by (cases d, cases d') (auto simp: fun_eq_iff)

lemma elem_clearFieldError:
  "elem (clearFieldError field d) n =
     clear_elem (getElementById d (el_id (elem d field) @ ''-error'') = Some n) (n = field)
       (closest d field ''form-group'' = Some n) (elem d n)"
  unfolding clearFieldError_def Let_def clear_elem_def
  by (simp add: elem_update_elem closest_update_elem split: option.splits)

lemma elem_showFieldError:
  "elem (showFieldError field m d) n =
     show_elem (to_text m) (getElementById d (el_id (elem d field) @ ''-error'') = Some n) (n = field)
       (closest d field ''form-group'' = Some n) (elem d n)"
  unfolding showFieldError_def Let_def show_elem_def
  by (simp add: elem_update_elem closest_update_elem split: option.splits)

lemma other_clearFieldError [simp]:
  "nodes (clearFieldError field d) = nodes d"
  "activeElement (clearFieldError field d) = activeElement d"
  "console (clearFieldError field d) = console d"
  "head (clearFieldError field d) = head d"
  "body (clearFieldError field d) = body d"
  "next_node (clearFieldError field d) = next_node d"
  unfolding clearFieldError_def Let_def
  by (simp_all split: option.splits)

lemma other_showFieldError [simp]:
  "nodes (showFieldError field m d) = nodes d"
  "activeElement (showFieldError field m d) = activeElement d"
  "console (showFieldError field m d) = console d"
  "head (showFieldError field m d) = head d"
  "body (showFieldError field m d) = body d"
  "next_node (showFieldError field m d) = next_node d"
  unfolding showFieldError_def Let_def
  by (simp_all split: option.splits)

lemma clear_elem_clear_elem: "clear_elem a b c (clear_elem a b c e) = clear_elem a b c e"
  by (cases a; cases b; cases c)
     (simp_all add: clear_elem_def Let_def classList_remove_def setAttribute_def set_textContent_def)

lemma clear_elem_show_elem: "clear_elem a b c (show_elem s a b c e) = clear_elem a b c e"
  by (cases a; cases b; cases c)
     (simp_all add: clear_elem_def show_elem_def Let_def classList_remove_def classList_add_def
        setAttribute_def set_textContent_def)

lemma clearFieldError_clearFieldError:
  "clearFieldError field (clearFieldError field d) = clearFieldError field d"
proof (rule document_eqI)
  fix n
  let ?d = "clearFieldError field d"
  have f: "frame d ?d" by (rule frame_clearFieldError)
  have id: "el_id (elem ?d field) = el_id (elem d field)" using f by (simp add: frame_def)
  show "elem (clearFieldError field ?d) n = elem ?d n"
    unfolding elem_clearFieldError [of field ?d] id frame_getElementById [OF f] frame_closest [OF f]
    by (simp add: elem_clearFieldError [of field d] clear_elem_clear_elem)
qed simp_all

lemma clearFieldError_showFieldError:
  "clearFieldError field (showFieldError field m d) = clearFieldError field d"
proof (rule document_eqI)
  fix n
  let ?d = "showFieldError field m d"
  have f: "frame d ?d" by (rule frame_showFieldError)
  have id: "el_id (elem ?d field) = el_id (elem d field)" using f by (simp add: frame_def)
  show "elem (clearFieldError field ?d) n = elem (clearFieldError field d) n"
    unfolding elem_clearFieldError [of field ?d] id frame_getElementById [OF f] frame_closest [OF f]
    by (simp add: elem_clearFieldError [of field d] elem_showFieldError clear_elem_show_elem)
qed simp_all

lemma console_warns_simps [simp]:
  "elem (console_warns ws d) = elem d"
  "nodes (console_warns ws d) = nodes d"
  "activeElement (console_warns ws d) = activeElement d"
  unfolding console_warns_def
  by (induction ws arbitrary: d) simp_all

lemma clearFieldError_console_warns:
  "clearFieldError field (console_warns ws d) = console_warns ws (clearFieldError field d)"
  unfolding console_warns_def
  by (induction ws arbitrary: d) (simp_all add: clearFieldError_console)

lemma showFieldError_console_warns:
  "showFieldError field m (console_warns ws d) = console_warns ws (showFieldError field m d)"
  unfolding console_warns_def
  by (induction ws arbitrary: d) (simp_all add: showFieldError_console)

lemma validateField_snd:
  "snd (validateField reg field rules d) =
     (case run_rules reg (el_value (elem d field)) rules of
        (ws, Inr (False, m)) \<Rightarrow> showFieldError field m (console_warns ws (clearFieldError field d))
      | (ws, _) \<Rightarrow> console_warns ws (clearFieldError field d))"
  unfolding validateField_def Let_def
  by (simp split: prod.splits sum.splits bool.splits)

lemma textContent_show_elem: "textContent (show_elem s True b c e) = s"
  by (simp add: show_elem_def Let_def)

lemma validateField_invalid_text:
  assumes "snd (run_rules reg (el_value (elem d field)) rules) = Inr (False, m)"
    and "getElementById d (el_id (elem d field) @ ''-error'') = Some e"
  shows "textContent (elem (snd (validateField reg field rules d)) e) = to_text m"
proof -
  obtain ws where r: "run_rules reg (el_value (elem d field)) rules = (ws, Inr (False, m))"
    using assms(1) by (cases "run_rules reg (el_value (elem d field)) rules") simp
  let ?d = "console_warns ws (clearFieldError field d)"
  have f: "frame d ?d" by (rule frame_trans [OF frame_clearFieldError frame_warns])
  have id: "el_id (elem ?d field) = el_id (elem d field)" using f by (simp add: frame_def)
  show ?thesis
    by (simp add: validateField_snd r elem_showFieldError id frame_getElementById [OF f] assms(2)
        textContent_show_elem del: console_warns_simps)
qed

lemma example_a:
  "run_rules (VALIDATION_RULES env) ''a'' [''required'', ''minLength:2'']
     = ([], Inr (False, Text ''Must be at least 2 characters long''))"
  by (simp add: VALIDATION_RULES_def registry_get_def rule_required_def rule_minLength_def
      trim_def is_space_def ToNumber_def is_digit_def digit_val_def
      non_decimal_def unsigned_decimal_def exponent_part_def digits_val_def to_double_def
      round_half_even_def Let_def)

lemma example_empty:
  "run_rules (VALIDATION_RULES env) [] [''required'', ''minLength:2'']
     = ([], Inr (False, Text ''This field is required''))"
  by (simp add: VALIDATION_RULES_def registry_get_def rule_required_def)

lemma validateField_snd_warns:
  "run_rules reg (el_value (elem d field)) rules = (ws, r) \<Longrightarrow>
   snd (validateField reg field rules d) =
     console_warns ws
       (case r of Inr (False, m) \<Rightarrow> showFieldError field m (clearFieldError field d)
                | _ \<Rightarrow> clearFieldError field d)"
  by (simp add: validateField_snd showFieldError_console_warns split: sum.splits bool.splits)

lemma frame_validateForm_loop: "frame d (snd (validateForm_loop reg config isValid d))"
proof (induction config arbitrary: isValid d)
  case Nil
  show ?case by simp
next
  case (Cons entry config)
  obtain fieldId rules where e: "entry = (fieldId, rules)" by (cases entry)
  show ?case
  proof (cases "getElementById d fieldId")
    case None
    with Cons e show ?thesis by simp
  next
    case (Some field)
    obtain r d' where v: "validateField reg field rules d = (r, d')"
      by (cases "validateField reg field rules d")
    have f: "frame d d'" using frame_validateField [of d reg field rules] v by simp
    show ?thesis
    proof (cases r)
      case (Inl err)
      with Some e v f show ?thesis by simp
    next
      case (Inr b)
      with Some e v show ?thesis
        using frame_trans [OF f Cons [where d = d' and isValid = "if \<not> b then False else isValid"]] by simp
    qed
  qed
qed

lemma validateForm_loop_true:
  "(fst (validateForm_loop reg config isValid d) = Inr True) =
   (isValid \<and> (\<forall>(fieldId, rules)\<in>set config. \<forall>field. getElementById d fieldId = Some field \<longrightarrow>
        fst (validateField reg field rules d) = Inr True))"
proof (induction config arbitrary: isValid d)
  case Nil
  show ?case by simp
next
  case (Cons entry config)
  obtain fieldId rules where e: "entry = (fieldId, rules)" by (cases entry)
  show ?case
  proof (cases "getElementById d fieldId")
    case None
    with Cons e show ?thesis by simp
  next
    case (Some field)
    obtain r d' where v: "validateField reg field rules d = (r, d')"
      by (cases "validateField reg field rules d")
    have f: "frame d d'" using frame_validateField [of d reg field rules] v by simp
    show ?thesis
    proof (cases r)
      case (Inl err)
      with Some e v show ?thesis by simp
    next
      case (Inr b)
      have "(fst (validateForm_loop reg (entry # config) isValid d) = Inr True) =
            (fst (validateForm_loop reg config (if \<not> b then False else isValid) d') = Inr True)"
        using Some e v Inr by simp
      also have "\<dots> = ((if \<not> b then False else isValid) \<and>
          (\<forall>(fieldId, rules)\<in>set config. \<forall>field. getElementById d fieldId = Some field \<longrightarrow>
              fst (validateField reg field rules d) = Inr True))"
        unfolding Cons by (simp add: frame_getElementById [OF f] frame_validateField_fst [OF f])
      also have "\<dots> = (isValid \<and> (\<forall>(fieldId, rules)\<in>set (entry # config). \<forall>field.
              getElementById d fieldId = Some field \<longrightarrow>
              fst (validateField reg field rules d) = Inr True))"
        using Some e v Inr by auto
      finally show ?thesis .
    qed
  qed
qed

lemma getElementById_Some: "getElementById d s = Some n \<Longrightarrow> el_id (elem d n) = s"
  by (auto simp: getElementById_def find_Some_iff split: if_splits)

lemma show_elem_simps:
  "attributes (show_elem s a b c e) = (if b then (attributes e)(''aria-invalid'' \<mapsto> ''true'') else attributes e)"
  "textContent (show_elem s a b c e) = (if a then s else textContent e)"
  "(x \<in> set (classList (show_elem s a b c e))) =
     ((a \<and> x = ''show'') \<or> (b \<and> x = ''error'') \<or> (c \<and> x = ''has-error'') \<or> x \<in> set (classList e))"
  by (auto simp: show_elem_def Let_def)

lemma clear_elem_simps:
  "attributes (clear_elem a b c e) = (if b then (attributes e)(''aria-invalid'' \<mapsto> ''false'') else attributes e)"
  "textContent (clear_elem a b c e) = (if a then [] else textContent e)"
  "(x \<in> set (classList (clear_elem a b c e))) =
     (\<not> (a \<and> x = ''show'') \<and> \<not> (b \<and> x = ''error'') \<and> \<not> (c \<and> x = ''has-error'') \<and> x \<in> set (classList e))"
  by (auto simp: clear_elem_def Let_def)

lemma elem_validateField:
  "elem (snd (validateField reg field rules d)) n =
     (let a = (getElementById d (el_id (elem d field) @ ''-error'') = Some n);
          b = (n = field);
          c = (closest d field ''form-group'' = Some n)
      in case snd (run_rules reg (el_value (elem d field)) rules) of
           Inr (False, m) \<Rightarrow> show_elem (to_text m) a b c (clear_elem a b c (elem d n))
         | _ \<Rightarrow> clear_elem a b c (elem d n))"
proof -
  obtain ws r where r: "run_rules reg (el_value (elem d field)) rules = (ws, r)"
    by (cases "run_rules reg (el_value (elem d field)) rules")
  let ?d = "clearFieldError field d"
  have f: "frame d ?d" by (rule frame_clearFieldError)
  have id: "el_id (elem ?d field) = el_id (elem d field)" using f by (simp add: frame_def)
  have s: "elem (showFieldError field m ?d) n =
      show_elem (to_text m) (getElementById d (el_id (elem d field) @ ''-error'') = Some n) (n = field)
        (closest d field ''form-group'' = Some n)
        (clear_elem (getElementById d (el_id (elem d field) @ ''-error'') = Some n) (n = field)
        (closest d field ''form-group'' = Some n) (elem d n))" for m
    unfolding elem_showFieldError [of field _ ?d] id frame_getElementById [OF f] frame_closest [OF f]
    by (simp add: elem_clearFieldError [of field d])
  show ?thesis
    unfolding validateField_snd_warns [OF r] Let_def
    by (simp add: r s elem_clearFieldError split: sum.splits bool.splits)
qed

lemma own_display:
  "error_display (snd (validateField reg field rules d)) field =
     display_of (snd (run_rules reg (el_value (elem d field)) rules))
       (getElementById d (el_id (elem d field) @ ''-error''))"
proof -
  let ?d' = "snd (validateField reg field rules d)"
  have f: "frame d ?d'" by (rule frame_validateField)
  have id: "el_id (elem ?d' field) = el_id (elem d field)" using f by (simp add: frame_def)
  have ne: "getElementById d (el_id (elem d field) @ ''-error'') \<noteq> Some field"
    using getElementById_Some [of d "el_id (elem d field) @ ''-error''" field] by auto
  show ?thesis
    unfolding error_display_def id frame_getElementById [OF f]
    using ne
    by (cases "getElementById d (el_id (elem d field) @ ''-error'')")
       (auto simp: display_of_def elem_validateField Let_def show_elem_simps clear_elem_simps
             split: sum.splits bool.splits)
qed

lemma other_display:
  assumes "el_id (elem d g) \<noteq> el_id (elem d field)"
  shows "error_display (snd (validateField reg g rules d)) field = error_display d field"
proof -
  let ?d' = "snd (validateField reg g rules d)"
  have f: "frame d ?d'" by (rule frame_validateField)
  have id: "el_id (elem ?d' field) = el_id (elem d field)" using f by (simp add: frame_def)
  have ne: "g \<noteq> field" using assms by auto
  have ne2: "getElementById d (el_id (elem d g) @ ''-error'') \<noteq> Some e"
    if "getElementById d (el_id (elem d field) @ ''-error'') = Some e" for e
    using getElementById_Some [of d "el_id (elem d field) @ ''-error''" e]
      getElementById_Some [of d "el_id (elem d g) @ ''-error''" e] that assms by auto
  show ?thesis
    unfolding error_display_def id frame_getElementById [OF f]
    using ne ne2
    by (cases "getElementById d (el_id (elem d field) @ ''-error'')")
       (auto simp: elem_validateField Let_def show_elem_simps clear_elem_simps
             split: sum.splits bool.splits)
qed

lemma validateForm_loop_other_display:
  "fieldId \<notin> fst ` set config \<Longrightarrow> el_id (elem d field) = fieldId \<Longrightarrow>
   error_display (snd (validateForm_loop reg config isValid d)) field = error_display d field"
proof (induction config arbitrary: isValid d)
  case Nil
  show ?case by simp
next
  case (Cons entry config)
  obtain fieldId' rules where e: "entry = (fieldId', rules)" by (cases entry)
  from Cons.prems e have ne: "fieldId' \<noteq> fieldId" and rest: "fieldId \<notin> fst ` set config" by auto
  show ?case
  proof (cases "getElementById d fieldId'")
    case None
    with Cons.IH [OF rest Cons.prems(2)] e show ?thesis by simp
  next
    case (Some g)
    obtain r d' where v: "validateField reg g rules d = (r, d')"
      by (cases "validateField reg g rules d")
    have f: "frame d d'" using frame_validateField [of d reg g rules] v by simp
    have id: "el_id (elem d' field) = fieldId" using f Cons.prems(2) by (simp add: frame_def)
    have "el_id (elem d g) \<noteq> el_id (elem d field)"
      using getElementById_Some [OF Some] ne Cons.prems(2) by simp
    from other_display [OF this, of reg rules] v
    have o: "error_display d' field = error_display d field" by simp
    show ?thesis
    proof (cases r)
      case (Inl err)
      with Some e v o show ?thesis by simp
    next
      case (Inr b)
      with Some e v o Cons.IH [OF rest id] show ?thesis by simp
    qed
  qed
qed

lemma validateForm_loop_display:
  "distinct (map fst config) \<Longrightarrow> fst (validateForm_loop reg config isValid d) = Inr b \<Longrightarrow>
   (fieldId, rules) \<in> set config \<Longrightarrow> getElementById d fieldId = Some field \<Longrightarrow>
   error_display (snd (validateForm_loop reg config isValid d)) field =
     display_of (snd (run_rules reg (el_value (elem d field)) rules))
       (getElementById d (el_id (elem d field) @ ''-error''))"
proof (induction config arbitrary: isValid d)
  case Nil
  then show ?case by simp
next
  case (Cons entry config)
  obtain fieldId' rules' where e: "entry = (fieldId', rules')" by (cases entry)
  from Cons.prems(1) e have dist: "distinct (map fst config)" and notin: "fieldId' \<notin> fst ` set config"
    by auto
  show ?case
  proof (cases "getElementById d fieldId'")
    case None
    with Cons.prems e have "(fieldId, rules) \<in> set config"
      and "fst (validateForm_loop reg config isValid d) = Inr b" by auto
    from Cons.IH [OF dist this(2) this(1) Cons.prems(4)] None e show ?thesis by simp
  next
    case (Some g)
    obtain r d' where v: "validateField reg g rules' d = (r, d')"
      by (cases "validateField reg g rules' d")
    have f: "frame d d'" using frame_validateField [of d reg g rules'] v by simp
    from Cons.prems(2) Some e v obtain fv where r: "r = Inr fv"
      by (cases r) auto
    let ?iv = "if \<not> fv then False else isValid"
    have step: "validateForm_loop reg (entry # config) isValid d = validateForm_loop reg config ?iv d'"
      using Some e v r by simp
    show ?thesis
    proof (cases "fieldId = fieldId'")
      case True
      with Cons.prems(3) e notin have "rules = rules'" by (auto simp: image_iff)
      from True Some Cons.prems(4) have g: "g = field" by simp
      have id: "el_id (elem d' field) = fieldId'"
        using f getElementById_Some [OF Some] g by (simp add: frame_def)
      have "error_display (snd (validateForm_loop reg config ?iv d')) field = error_display d' field"
        by (rule validateForm_loop_other_display [OF notin id])
      also have "\<dots> = error_display (snd (validateField reg field rules d)) field"
        using v g \<open>rules = rules'\<close> by simp
      finally show ?thesis unfolding step by (simp add: own_display)
    next
      case False
      with Cons.prems(3) e have mem: "(fieldId, rules) \<in> set config" by auto
      have res: "fst (validateForm_loop reg config ?iv d') = Inr b"
        using Cons.prems(2) step by simp
      have get: "getElementById d' fieldId = Some field"
        using Cons.prems(4) by (simp add: frame_getElementById [OF f])
      have same: "el_value (elem d' field) = el_value (elem d field)" "el_id (elem d' field) = el_id (elem d field)"
        using f by (simp_all add: frame_def)
      from Cons.IH [OF dist res mem get] show ?thesis
        unfolding step same frame_getElementById [OF f] .
    qed
  qed
qed

lemma validateForm_loop_total:
  "\<forall>(fieldId, rules)\<in>set config. \<forall>rule\<in>set rules. \<not> rule_throws reg rule \<Longrightarrow>
   \<exists>b. fst (validateForm_loop reg config isValid d) = Inr b"
proof (induction config arbitrary: isValid d)
  case Nil
  show ?case by simp
next
  case (Cons entry config)
  obtain fieldId rules where e: "entry = (fieldId, rules)" by (cases entry)
  from Cons.prems e have nt: "\<forall>rule\<in>set rules. \<not> rule_throws reg rule"
    and rest: "\<forall>(fieldId, rules)\<in>set config. \<forall>rule\<in>set rules. \<not> rule_throws reg rule" by auto
  show ?case
  proof (cases "getElementById d fieldId")
    case None
    with Cons.IH [OF rest] e show ?thesis by simp
  next
    case (Some field)
    from run_rules_total [OF nt, of "el_value (elem d field)"]
    obtain fv where "fst (validateField reg field rules d) = Inr fv"
      by (auto simp: validateField_fst)
    then obtain d' where "validateField reg field rules d = (Inr fv, d')"
      by (cases "validateField reg field rules d") simp
    with Cons.IH [OF rest] Some e show ?thesis by simp
  qed
qed

section \<open>Properties of validate.js\<close>

lemma example_a_text:
  assumes "el_value (elem d field) = ''a''"
  shows "fst (validateField (VALIDATION_RULES env) field [''required'', ''minLength:2''] d) = Inr False \<and>
     (\<forall>e. getElementById d (el_id (elem d field) @ ''-error'') = Some e \<longrightarrow>
        textContent (elem (snd (validateField (VALIDATION_RULES env) field [''required'', ''minLength:2''] d)) e)
          = ''Must be at least 2 characters long'')"
proof -
  have r: "snd (run_rules (VALIDATION_RULES env) (el_value (elem d field)) [''required'', ''minLength:2''])
     = Inr (False, Text ''Must be at least 2 characters long'')"
    unfolding assms by (simp only: example_a snd_conv)
  show ?thesis
    using validateField_invalid_text [OF r] by (simp add: validateField_fst r del: run_rules.simps)
qed

lemma example_empty_text:
  assumes "el_value (elem d field) = []"
  shows "fst (validateField (VALIDATION_RULES env) field [''required'', ''minLength:2''] d) = Inr False \<and>
     (\<forall>e. getElementById d (el_id (elem d field) @ ''-error'') = Some e \<longrightarrow>
        textContent (elem (snd (validateField (VALIDATION_RULES env) field [''required'', ''minLength:2''] d)) e)
          = ''This field is required'')"
proof -
  have r: "snd (run_rules (VALIDATION_RULES env) (el_value (elem d field)) [''required'', ''minLength:2''])
     = Inr (False, Text ''This field is required'')"
    unfolding assms by (simp only: example_empty snd_conv)
  show ?thesis
    using validateField_invalid_text [OF r] by (simp add: validateField_fst r del: run_rules.simps)
qed

lemma example_contact_page_facts:
  "el_value (elem example_contact_page 11) = ''a''"
  "el_value (elem example_contact_page 13) = []"
  "el_id (elem example_contact_page 11) = ''contact-name''"
  "el_id (elem example_contact_page 13) = ''contact-email''"
  "getElementById example_contact_page ''contact-name'' = Some 11"
  "getElementById example_contact_page ''contact-email'' = Some 13"
  "getElementById example_contact_page ''contact-name-error'' = Some 12"
  "getElementById example_contact_page ''contact-email-error'' = Some 14"
  by (simp_all add: example_contact_page_def blank_element_def getElementById_def)

text \<open>
  Claim C3. For every registry, rule list and field: when no rule name of the list is inherited
  from \<open>Object.prototype\<close>, \<open>validateField\<close> returns a boolean; whenever it returns a
  boolean, that boolean is false if and only if the predicate of at least one rule of the
  list returns false on the field's value; and when it returns false, the text of the
  field's error element is the message of the first rule of the list, in list order, whose
  predicate returns false. A rule given without a parameter whose message is a function
  displays the source text of that function. With the built-in rules, the list
  \<open>['required', 'minLength:2']\<close> fails on the value \<open>a\<close> with the message
  \<open>Must be at least 2 characters long\<close> and on the empty value with \<open>This field is required\<close>.
\<close>

theorem validateField_first_failing_rule:
  "(let v = el_value (elem d field);
        res = validateField reg field rules d;
        errorElement = getElementById d (el_id (elem d field) @ ''-error'')
    in ((\<forall>rule\<in>set rules. \<not> rule_throws reg rule) \<longrightarrow> (\<exists>b. fst res = Inr b)) \<and>
       (\<forall>b. fst res = Inr b \<longrightarrow> (b = False) = (\<exists>rule\<in>set rules. rule_fails reg v rule)) \<and>
       (fst res = Inr False \<longrightarrow>
          (\<exists>rule. find (rule_fails reg v) rules = Some rule \<and>
             (\<forall>e. errorElement = Some e \<longrightarrow>
                  textContent (elem (snd res) e) = rule_message reg rule)))) \<and>
   (el_value (elem d field) = ''a'' \<longrightarrow>
      (let res = validateField (VALIDATION_RULES env) field [''required'', ''minLength:2''] d
       in fst res = Inr False \<and>
          (\<forall>e. getElementById d (el_id (elem d field) @ ''-error'') = Some e \<longrightarrow>
               textContent (elem (snd res) e) = ''Must be at least 2 characters long''))) \<and>
   (el_value (elem d field) = [] \<longrightarrow>
      (let res = validateField (VALIDATION_RULES env) field [''required'', ''minLength:2''] d
       in fst res = Inr False \<and>
          (\<forall>e. getElementById d (el_id (elem d field) @ ''-error'') = Some e \<longrightarrow>
               textContent (elem (snd res) e) = ''This field is required'')))"
proof -
  let ?v = "el_value (elem d field)"
  let ?r = "snd (run_rules reg ?v rules)"
  have total: "\<exists>b. fst (validateField reg field rules d) = Inr b"
    if "\<forall>rule\<in>set rules. \<not> rule_throws reg rule"
  proof -
    from run_rules_total [OF that, of ?v] obtain b m where "?r = Inr (b, m)" by force
    then show ?thesis by (simp add: validateField_fst)
  qed
  have iff: "(b = False) = (\<exists>rule\<in>set rules. rule_fails reg ?v rule)"
    if "fst (validateField reg field rules d) = Inr b" for b
  proof (cases b)
    case True
    with that obtain m where "?r = Inr (True, m)"
      by (auto simp: validateField_fst split: sum.splits)
    from run_rules_valid [OF this] True show ?thesis by simp
  next
    case False
    with that obtain m where "?r = Inr (False, m)"
      by (auto simp: validateField_fst split: sum.splits)
    from run_rules_invalid [OF this] obtain rule where "find (rule_fails reg ?v) rules = Some rule"
      by blast
    then have "rule \<in> set rules \<and> rule_fails reg ?v rule"
      by (auto simp: find_Some_iff)
    with False show ?thesis by blast
  qed
  have msg: "\<exists>rule. find (rule_fails reg ?v) rules = Some rule \<and>
      (\<forall>e. getElementById d (el_id (elem d field) @ ''-error'') = Some e \<longrightarrow>
           textContent (elem (snd (validateField reg field rules d)) e) = rule_message reg rule)"
    if "fst (validateField reg field rules d) = Inr False"
  proof -
    from that obtain m where m: "?r = Inr (False, m)"
      by (auto simp: validateField_fst split: sum.splits)
    from run_rules_invalid [OF m] obtain rule
      where "find (rule_fails reg ?v) rules = Some rule" "to_text m = rule_message reg rule"
      by blast
    with validateField_invalid_text [OF m] show ?thesis by auto
  qed
  show ?thesis
    unfolding Let_def using total iff msg example_a_text [of d field env] example_empty_text [of d field env]
    by blast
qed


text \<open>The theorem at the name field of the example page (value \<open>a\<close>) and at its empty
  email field.\<close>

theorem validateField_first_failing_rule_witness:
  "\<not> rule_throws (VALIDATION_RULES example_env) ''required'' \<and>
   \<not> rule_throws (VALIDATION_RULES example_env) ''minLength:2'' \<and>
   fst (validateField (VALIDATION_RULES example_env) 11 [''required'', ''minLength:2''] example_contact_page)
     = Inr False \<and>
   rule_fails (VALIDATION_RULES example_env) ''a'' ''minLength:2'' \<and>
   find (rule_fails (VALIDATION_RULES example_env) ''a'') [''required'', ''minLength:2'']
     = Some ''minLength:2'' \<and>
   el_value (elem example_contact_page 11) = ''a'' \<and>
   getElementById example_contact_page (el_id (elem example_contact_page 11) @ ''-error'') = Some 12 \<and>
   textContent (elem (snd (validateField (VALIDATION_RULES example_env) 11
      [''required'', ''minLength:2''] example_contact_page)) 12) = ''Must be at least 2 characters long'' \<and>
   el_value (elem example_contact_page 13) = [] \<and>
   getElementById example_contact_page (el_id (elem example_contact_page 13) @ ''-error'') = Some 14 \<and>
   textContent (elem (snd (validateField (VALIDATION_RULES example_env) 13
      [''required'', ''minLength:2''] example_contact_page)) 14) = ''This field is required''"
proof -
  have nt: "\<not> rule_throws (VALIDATION_RULES example_env) ''required''"
    "\<not> rule_throws (VALIDATION_RULES example_env) ''minLength:2''"
    by (simp_all add: rule_throws_def rule_name_def registry_get_def VALIDATION_RULES_def)
  have fails: "\<not> rule_fails (VALIDATION_RULES example_env) ''a'' ''required''"
    "rule_fails (VALIDATION_RULES example_env) ''a'' ''minLength:2''"
    by (simp_all add: rule_fails_def rule_name_def rule_param_def registry_get_def VALIDATION_RULES_def
        rule_required_def rule_minLength_def trim_def is_space_def ToNumber_def is_digit_def
        digit_val_def non_decimal_def unsigned_decimal_def exponent_part_def digits_val_def
        to_double_def round_half_even_def Let_def)
  have e2: "getElementById example_contact_page (el_id (elem example_contact_page 11) @ ''-error'') = Some 12"
    and e4: "getElementById example_contact_page (el_id (elem example_contact_page 13) @ ''-error'') = Some 14"
    by (simp_all add: example_contact_page_facts)
  note inst1 = validateField_first_failing_rule
    [where rules = "[''required'', ''minLength:2'']" and reg = "VALIDATION_RULES example_env"
       and d = example_contact_page and field = 11 and env = example_env]
  note inst3 = validateField_first_failing_rule
    [where rules = "[''required'', ''minLength:2'']" and reg = "VALIDATION_RULES example_env"
       and d = example_contact_page and field = 13 and env = example_env]
  from inst1 have
    "fst (validateField (VALIDATION_RULES example_env) 11 [''required'', ''minLength:2''] example_contact_page)
       = Inr False \<and>
     textContent (elem (snd (validateField (VALIDATION_RULES example_env) 11
        [''required'', ''minLength:2''] example_contact_page)) 12) = ''Must be at least 2 characters long''"
    unfolding Let_def using e2 by (simp add: example_contact_page_facts)
  moreover from inst3 have
    "textContent (elem (snd (validateField (VALIDATION_RULES example_env) 13
        [''required'', ''minLength:2''] example_contact_page)) 14) = ''This field is required''"
    unfolding Let_def using e4 by (simp add: example_contact_page_facts)
  ultimately show ?thesis
    using nt fails e2 e4 by (simp add: example_contact_page_facts)
qed

text \<open>
  Claim C9. Running \<open>validateField\<close> a second time on the same field with the same rule
  list, in the document the first run left (the value of the field is unchanged by the
  run), gives the same result, and leaves every element of the document, the list of
  attached elements and the focus as they were after the first run. Only the console
  differs: each run logs its warnings. The registry is the same in both runs, which fixes
  the clock the \<open>date\<close> rule reads.
\<close>

theorem validateField_idempotent:
  "(let once = validateField reg field rules d;
        twice = validateField reg field rules (snd once)
    in fst twice = fst once \<and> elem (snd twice) = elem (snd once) \<and>
       nodes (snd twice) = nodes (snd once) \<and> activeElement (snd twice) = activeElement (snd once))"
proof -
  let ?d1 = "snd (validateField reg field rules d)"
  have f: "frame d ?d1" by (rule frame_validateField)
  have v: "el_value (elem ?d1 field) = el_value (elem d field)" using f by (simp add: frame_def)
  obtain ws r where r: "run_rules reg (el_value (elem d field)) rules = (ws, r)"
    by (cases "run_rules reg (el_value (elem d field)) rules")
  have r1: "run_rules reg (el_value (elem ?d1 field)) rules = (ws, r)"
    using r v by simp
  have c: "clearFieldError field ?d1 = console_warns ws (clearFieldError field d)"
    unfolding validateField_snd_warns [OF r]
    by (simp add: clearFieldError_showFieldError clearFieldError_console_warns
        clearFieldError_clearFieldError split: sum.splits bool.splits)
  have "elem (snd (validateField reg field rules ?d1)) = elem ?d1"
    unfolding validateField_snd_warns [OF r1] c
    by (simp add: validateField_snd_warns [OF r] showFieldError_console_warns
        split: sum.splits bool.splits)
  moreover have "nodes (snd (validateField reg field rules ?d1)) = nodes ?d1"
    using frame_validateField [of ?d1 reg field rules] by (simp add: frame_def)
  moreover have "activeElement (snd (validateField reg field rules ?d1)) = activeElement ?d1"
    using frame_validateField [of ?d1 reg field rules] by (simp add: frame_def)
  ultimately show ?thesis
    unfolding Let_def by (simp add: frame_validateField_fst [OF f])
qed


text \<open>
  Claim C4. \<open>validateForm\<close> returns true if and only if \<open>validateField\<close> returns true on
  every configured field that the document has (a configured field that is missing from
  the document is skipped). It returns a boolean whenever no rule name of the configuration
  is inherited from \<open>Object.prototype\<close>. Whenever it returns a boolean, true or false, the
  error display of every configured field of the document is the one \<open>validateField\<close>
  gives that field: no field after the first failing one is left unchecked. The keys of
  the configuration object are distinct.
\<close>

theorem validateForm_checks_every_field:
  "((fst (validateForm reg config d) = Inr True) =
      (\<forall>(fieldId, rules)\<in>set config. \<forall>field. getElementById d fieldId = Some field \<longrightarrow>
          fst (validateField reg field rules d) = Inr True)) \<and>
   ((\<forall>(fieldId, rules)\<in>set config. \<forall>rule\<in>set rules. \<not> rule_throws reg rule) \<longrightarrow>
      (\<exists>b. fst (validateForm reg config d) = Inr b)) \<and>
   (distinct (map fst config) \<longrightarrow>
      (\<forall>b. fst (validateForm reg config d) = Inr b \<longrightarrow>
         (\<forall>(fieldId, rules)\<in>set config. \<forall>field. getElementById d fieldId = Some field \<longrightarrow>
            error_display (snd (validateForm reg config d)) field =
              error_display (snd (validateField reg field rules d)) field \<and>
            attributes (elem (snd (validateForm reg config d)) field) ''aria-invalid'' =
              Some (if fst (validateField reg field rules d) = Inr False then ''true'' else ''false''))))"
proof -
  have a: "(fst (validateForm reg config d) = Inr True) =
      (\<forall>(fieldId, rules)\<in>set config. \<forall>field. getElementById d fieldId = Some field \<longrightarrow>
          fst (validateField reg field rules d) = Inr True)"
    unfolding validateForm_def by (simp add: validateForm_loop_true)
  have b: "\<exists>b. fst (validateForm reg config d) = Inr b"
    if "\<forall>(fieldId, rules)\<in>set config. \<forall>rule\<in>set rules. \<not> rule_throws reg rule"
    unfolding validateForm_def by (rule validateForm_loop_total [OF that])
  have c: "error_display (snd (validateForm reg config d)) field =
              error_display (snd (validateField reg field rules d)) field \<and>
            attributes (elem (snd (validateForm reg config d)) field) ''aria-invalid'' =
              Some (if fst (validateField reg field rules d) = Inr False then ''true'' else ''false'')"
    if "distinct (map fst config)" "fst (validateForm reg config d) = Inr b"
      "(fieldId, rules) \<in> set config" "getElementById d fieldId = Some field"
    for b fieldId rules field
  proof -
    have 1: "error_display (snd (validateForm reg config d)) field =
       display_of (snd (run_rules reg (el_value (elem d field)) rules))
         (getElementById d (el_id (elem d field) @ ''-error''))"
      using validateForm_loop_display [OF that(1) that(2) [unfolded validateForm_def] that(3) that(4)]
      by (simp add: validateForm_def)
    have "attributes (elem (snd (validateForm reg config d)) field) ''aria-invalid'' =
       fst (error_display (snd (validateForm reg config d)) field)"
      by (simp add: error_display_def)
    also have "\<dots> = fst (display_of (snd (run_rules reg (el_value (elem d field)) rules))
         (getElementById d (el_id (elem d field) @ ''-error'')))"
      by (simp only: 1)
    also have "\<dots> = Some (if fst (validateField reg field rules d) = Inr False then ''true'' else ''false'')"
      by (auto simp: display_of_def validateField_fst split: sum.splits bool.splits)
    finally show ?thesis using 1 by (simp add: own_display)
  qed
  show ?thesis using a b c by blast
qed


text \<open>The theorem at the contact form of the example page: its first two fields both
  fail and both are marked, the two missing fields are skipped.\<close>

theorem validateForm_checks_every_field_witness:
  "distinct (map fst contact_form_config) \<and>
   fst (validateForm (VALIDATION_RULES example_env) contact_form_config example_contact_page) = Inr False \<and>
   (''contact-name'', [''required'', ''minLength:2'', ''maxLength:100'']) \<in> set contact_form_config \<and>
   (''contact-email'', [''required'', ''email'']) \<in> set contact_form_config \<and>
   getElementById example_contact_page ''contact-name'' = Some 11 \<and>
   getElementById example_contact_page ''contact-email'' = Some 13 \<and>
   fst (validateField (VALIDATION_RULES example_env) 11 [''required'', ''minLength:2'', ''maxLength:100'']
      example_contact_page) = Inr False \<and>
   fst (validateField (VALIDATION_RULES example_env) 13 [''required'', ''email'']
      example_contact_page) = Inr False \<and>
   attributes (elem (snd (validateForm (VALIDATION_RULES example_env) contact_form_config
      example_contact_page)) 11) ''aria-invalid'' = Some ''true'' \<and>
   attributes (elem (snd (validateForm (VALIDATION_RULES example_env) contact_form_config
      example_contact_page)) 13) ''aria-invalid'' = Some ''true''"
proof -
  have d: "distinct (map fst contact_form_config)"
    by (simp add: contact_form_config_def)
  have r: "fst (validateForm (VALIDATION_RULES example_env) contact_form_config example_contact_page)
      = Inr False"
    by code_simp
  have m: "(''contact-name'', [''required'', ''minLength:2'', ''maxLength:100'']) \<in> set contact_form_config"
    "(''contact-email'', [''required'', ''email'']) \<in> set contact_form_config"
    by (simp_all add: contact_form_config_def)
  have f1: "fst (validateField (VALIDATION_RULES example_env) 11 [''required'', ''minLength:2'', ''maxLength:100'']
      example_contact_page) = Inr False"
    by code_simp
  have f3: "fst (validateField (VALIDATION_RULES example_env) 13 [''required'', ''email'']
      example_contact_page) = Inr False"
    by code_simp
  note inst = validateForm_checks_every_field
    [where reg = "VALIDATION_RULES example_env" and config = contact_form_config
       and d = example_contact_page]
  from inst d r m(1) have
    "attributes (elem (snd (validateForm (VALIDATION_RULES example_env) contact_form_config
      example_contact_page)) 11) ''aria-invalid'' =
     Some (if fst (validateField (VALIDATION_RULES example_env) 11
         [''required'', ''minLength:2'', ''maxLength:100''] example_contact_page) = Inr False
       then ''true'' else ''false'')"
    using example_contact_page_facts(5) by blast
  moreover from inst d r m(2) have
    "attributes (elem (snd (validateForm (VALIDATION_RULES example_env) contact_form_config
      example_contact_page)) 13) ''aria-invalid'' =
     Some (if fst (validateField (VALIDATION_RULES example_env) 13
         [''required'', ''email''] example_contact_page) = Inr False
       then ''true'' else ''false'')"
    using example_contact_page_facts(6) by blast
  ultimately show ?thesis
    using d r m f1 f3 by (simp add: example_contact_page_facts)
qed

subsection \<open>Unknown rule names\<close>


lemma run_rules_unknown_step:
  "rule_unknown reg rule \<Longrightarrow>
   run_rules reg v (rule # rules) =
     ((''Unknown validation rule: '' @ rule_name rule) # fst (run_rules reg v rules),
      snd (run_rules reg v rules))"
  by (auto simp: rule_unknown_def rule_name_def split_on_nonempty split: list.splits prod.splits)

lemma run_rules_known_step:
  "\<not> rule_unknown reg rule \<Longrightarrow> \<not> rule_throws reg rule \<Longrightarrow> \<not> rule_fails reg v rule \<Longrightarrow>
   run_rules reg v (rule # rules) = run_rules reg v rules"
  by (auto simp: rule_unknown_def rule_throws_def rule_fails_def rule_name_def rule_param_def
      split_on_nonempty split: list.splits lookup.splits)

lemma run_rules_warns_unknown:
  "\<forall>rule\<in>set rules. \<not> rule_throws reg rule \<and> \<not> rule_fails reg v rule \<Longrightarrow>
   fst (run_rules reg v rules) =
     map (\<lambda>rule. ''Unknown validation rule: '' @ rule_name rule) (filter (rule_unknown reg) rules)"
proof (induction rules)
  case Nil
  show ?case by simp
next
  case (Cons rule rules)
  then have IH: "fst (run_rules reg v rules) =
     map (\<lambda>rule. ''Unknown validation rule: '' @ rule_name rule) (filter (rule_unknown reg) rules)"
    by simp
  from Cons.prems have n: "\<not> rule_throws reg rule" "\<not> rule_fails reg v rule" by simp_all
  show ?case
  proof (cases "rule_unknown reg rule")
    case True
    then show ?thesis by (simp add: run_rules_unknown_step IH del: run_rules.simps)
  next
    case False
    then show ?thesis by (simp add: run_rules_known_step [OF False n] IH del: run_rules.simps)
  qed
qed












text \<open>
  The hypothesis on inherited names excludes no call the module makes. \<open>validateField\<close> is
  local to the module; its callers (the blur listeners, \<open>validateForm\<close> and
  \<open>validateSpecificField\<close>) pass it entries of \<open>FORM_CONFIGS\<close>, whose rule names are all
  registered, and \<open>addValidationRule\<close> only adds names to the registry. On a list outside
  the hypothesis the lookup yields a function of \<open>Object.prototype\<close>, the guard does not skip
  it and the call of its missing \<open>test\<close> method throws: the rule list \<open>['toString']\<close> makes
  \<open>validateField\<close> throw, where the empty list makes it return true.
\<close>

lemma FORM_CONFIGS_rules_registered:
  "\<forall>(formId, config)\<in>set FORM_CONFIGS. \<forall>(fieldId, rules)\<in>set config. \<forall>rule\<in>set rules.
     rule_name rule \<in> dom (VALIDATION_RULES env)"
  by (simp add: FORM_CONFIGS_def contact_form_config_def booking_form_config_def rule_name_def
      VALIDATION_RULES_def)

lemma addValidationRule_keeps_registered:
  "rule_name rule \<in> dom reg \<Longrightarrow> rule_name rule \<in> dom (addValidationRule name testFunction msg reg)"
  by (simp add: addValidationRule_def)

lemma validateField_inherited_rule_name_throws:
  "fst (validateField (VALIDATION_RULES env) field [''toString''] d)
     = Inl (TypeError ''ruleConfig.test is not a function'') \<and>
   rule_name ''toString'' \<notin> dom (VALIDATION_RULES env) \<and>
   fst (validateField (VALIDATION_RULES env) field
          (filter (\<lambda>rule. rule_name rule \<in> dom (VALIDATION_RULES env)) [''toString'']) d) = Inr True"
  by (simp add: validateField_fst rule_name_def registry_get_def VALIDATION_RULES_def
      object_prototype_keys_def)

section \<open>Properties of booking.js\<close>

lemma inject_script_fields [simp]:
  "scriptLoadAttempts (snd (inject_script s)) = scriptLoadAttempts s"
  "BOOKING_CONFIG (snd (inject_script s)) = BOOKING_CONFIG s"
  "isScriptLoaded (snd (inject_script s)) = isScriptLoaded s"
  by (simp_all add: inject_script_def Let_def split: option.splits prod.splits)

lemma loadSetmoreScript_attempts_mono:
  "scriptLoadAttempts s \<le> scriptLoadAttempts (snd (loadSetmoreScript evs s))"
proof (induction evs arbitrary: s)
  case Nil
  show ?case by simp
next
  case (Cons ev evs)
  obtain script s1 where i: "inject_script s = (script, s1)" by (cases "inject_script s")
  then have a: "scriptLoadAttempts s1 = scriptLoadAttempts s"
    using inject_script_fields(1) [of s] by simp
  show ?case
  proof (cases ev)
    case ScriptLoad
    with i a show ?thesis by simp
  next
    case ScriptTimeout
    with i a show ?thesis by simp
  next
    case ScriptError
    let ?s3 = "s1\<lparr>page := remove_node script (page s1), scriptLoadAttempts := Suc (scriptLoadAttempts s1)\<rparr>"
    from Cons [of ?s3] have "scriptLoadAttempts s \<le> scriptLoadAttempts (snd (loadSetmoreScript evs ?s3))"
      using a by simp
    with ScriptError i a show ?thesis by (simp add: Let_def)
  qed
qed

lemma loadSetmoreScript_config:
  "BOOKING_CONFIG (snd (loadSetmoreScript evs s)) = BOOKING_CONFIG s"
proof (induction evs arbitrary: s)
  case Nil
  show ?case by simp
next
  case (Cons ev evs)
  obtain script s1 where i: "inject_script s = (script, s1)" by (cases "inject_script s")
  then have a: "BOOKING_CONFIG s1 = BOOKING_CONFIG s"
    using inject_script_fields(2) [of s] by simp
  show ?case
    using i a Cons by (cases ev) (simp_all add: Let_def)
qed

lemma inject_script_fields_pair:
  "inject_script s = (script, s1) \<Longrightarrow>
   scriptLoadAttempts s1 = scriptLoadAttempts s \<and> BOOKING_CONFIG s1 = BOOKING_CONFIG s \<and>
   isScriptLoaded s1 = isScriptLoaded s"
  using inject_script_fields [of s] by simp

lemma after_error_fields [simp]:
  "scriptLoadAttempts (after_error s) = Suc (scriptLoadAttempts s)"
  "BOOKING_CONFIG (after_error s) = BOOKING_CONFIG s"
  "isScriptLoaded (after_error s) = isScriptLoaded s"
  by (auto simp: after_error_def split: prod.splits dest: inject_script_fields_pair)

lemma loadSetmoreScript_error_step:
  "loadSetmoreScript (ScriptError # evs) s =
     (if int (Suc (scriptLoadAttempts s)) < retryAttempts (BOOKING_CONFIG s)
      then loadSetmoreScript evs (after_error s)
      else (Rejected ''Failed to load Setmore script after multiple attempts'', after_error s))"
  by (auto simp: after_error_def Let_def split: prod.splits dest: inject_script_fields_pair)


lemma after_error_funpow_fields [simp]:
  "scriptLoadAttempts ((after_error ^^ k) s) = scriptLoadAttempts s + k"
  "BOOKING_CONFIG ((after_error ^^ k) s) = BOOKING_CONFIG s"
  by (induction k) simp_all

lemma loadSetmoreScript_errors_rejected:
  "int (scriptLoadAttempts s + k) < retryAttempts (BOOKING_CONFIG s) \<Longrightarrow>
   retryAttempts (BOOKING_CONFIG s) \<le> int (scriptLoadAttempts s + Suc k) \<Longrightarrow>
   fst (loadSetmoreScript (replicate (Suc k) ScriptError @ evs) s)
     = Rejected ''Failed to load Setmore script after multiple attempts'' \<and>
   scriptLoadAttempts (snd (loadSetmoreScript (replicate (Suc k) ScriptError @ evs) s))
     = scriptLoadAttempts s + Suc k \<and>
   snd (loadSetmoreScript (replicate (Suc k) ScriptError @ evs) s)
     = (after_error ^^ Suc k) s"
proof (induction k arbitrary: s)
  case 0
  then show ?case
    by (simp add: loadSetmoreScript_error_step del: loadSetmoreScript.simps)
next
  case (Suc k)
  have IH: "fst (loadSetmoreScript (replicate (Suc k) ScriptError @ evs) (after_error s))
     = Rejected ''Failed to load Setmore script after multiple attempts'' \<and>
   scriptLoadAttempts (snd (loadSetmoreScript (replicate (Suc k) ScriptError @ evs) (after_error s)))
     = scriptLoadAttempts (after_error s) + Suc k \<and>
   snd (loadSetmoreScript (replicate (Suc k) ScriptError @ evs) (after_error s))
     = (after_error ^^ Suc k) (after_error s)"
    using Suc.prems by (intro Suc.IH) simp_all
  have step: "loadSetmoreScript (replicate (Suc (Suc k)) ScriptError @ evs) s
      = loadSetmoreScript (replicate (Suc k) ScriptError @ evs) (after_error s)"
    using Suc.prems by (simp add: loadSetmoreScript_error_step del: loadSetmoreScript.simps)
  show ?case
    unfolding step using IH by (simp add: funpow_swap1 del: loadSetmoreScript.simps)
qed

lemma same_page_refl: "wf_document d \<Longrightarrow> same_page d d"
  by (simp add: same_page_def)

lemma same_page_getElementById: "same_page d0 d \<Longrightarrow> getElementById d x = getElementById d0 x"
  by (auto simp: same_page_def getElementById_def intro!: find_cong)

lemma same_page_update_elem:
  "same_page d0 d \<Longrightarrow> el_id (g (elem d n)) = el_id (elem d n) \<Longrightarrow>
   ancestors (g (elem d n)) = ancestors (elem d n) \<Longrightarrow> same_page d0 (update_elem n g d)"
  by (auto simp: same_page_def wf_document_def elem_update_elem)

lemma same_page_console_error: "same_page d0 d \<Longrightarrow> same_page d0 (console_error w d)"
  by (simp add: same_page_def wf_document_def console_error_def)

lemma filter_insert_abs:
  assumes "k \<notin> set (A @ p # B @ C)"
  shows "filter (\<lambda>m. m \<noteq> k) (A @ p # B @ k # C) = A @ p # B @ C"
proof -
  have "filter (\<lambda>m. m \<noteq> k) (A @ p # B @ k # C) = filter (\<lambda>m. m \<noteq> k) (A @ p # B @ C)"
    by simp
  also have "\<dots> = A @ p # B @ C"
    by (rule filter_True) (use assms in auto)
  finally show ?thesis .
qed

lemma split_inserted:
  assumes "dropWhile P xs = p # rest"
  shows "xs = takeWhile P xs @ p # takeWhile Q rest @ dropWhile Q rest"
proof -
  have "xs = takeWhile P xs @ dropWhile P xs" by simp
  also have "\<dots> = takeWhile P xs @ p # rest" by (simp only: assms)
  also have "rest = takeWhile Q rest @ dropWhile Q rest" by simp
  finally show ?thesis .
qed

lemma filter_inserted:
  assumes k: "k \<notin> set xs"
  shows "filter (\<lambda>m. m \<noteq> k)
     (case dropWhile P xs of [] \<Rightarrow> xs
      | p # rest \<Rightarrow> takeWhile P xs @ p # takeWhile Q rest @ k # dropWhile Q rest) = xs"
proof (cases "dropWhile P xs")
  case Nil
  have "filter (\<lambda>m. m \<noteq> k) xs = xs" using k by (intro filter_True) auto
  then show ?thesis by (simp only: Nil list.case)
next
  case (Cons p rest)
  note e = split_inserted [OF Cons, of Q]
  have "k \<notin> set (takeWhile P xs @ p # takeWhile Q rest @ dropWhile Q rest)"
    using k e by metis
  from filter_insert_abs [OF this] e show ?thesis by (simp only: Cons list.case)
qed

lemma set_inserted:
  "set (case dropWhile P xs of [] \<Rightarrow> xs
      | p # rest \<Rightarrow> takeWhile P xs @ p # takeWhile Q rest @ k # dropWhile Q rest)
     \<subseteq> insert k (set xs)"
proof (cases "dropWhile P xs")
  case Nil
  show ?thesis by (simp only: Nil list.case subset_insertI)
next
  case (Cons p rest)
  note e = split_inserted [OF Cons, of Q]
  have "set (takeWhile P xs @ p # takeWhile Q rest @ k # dropWhile Q rest)
      = insert k (set (takeWhile P xs @ p # takeWhile Q rest @ dropWhile Q rest))"
    by (simp only: set_append list.set) blast
  also have "\<dots> = insert k (set xs)" using e by metis
  finally show ?thesis by (simp only: Cons list.case)
qed

lemma same_page_after_error:
  assumes sp: "same_page d0 (page s)" and none: "getElementById d0 ''setmore_script'' = None"
  shows "same_page d0 (page (after_error s))"
proof -
  let ?d = "page s"
  let ?k = "next_node ?d"
  have wf: "wf_document ?d" and nodes: "nodes ?d = nodes d0" using sp by (simp_all add: same_page_def)
  have fresh: "?k \<notin> set (nodes ?d)" using wf by (auto simp: wf_document_def)
  have fresh2: "\<And>m. m \<in> set (nodes ?d) \<Longrightarrow> ?k \<notin> set (ancestors (elem ?d m))"
    using wf by (auto simp: wf_document_def)
  have g: "getElementById ?d ''setmore_script'' = None"
    using same_page_getElementById [OF sp] none by simp
  define e where "e = setAttribute ''async'' [] (setAttribute ''src''
      ''https://assets.setmore.com/integration/static/setmoreIframeLive.js''
      (set_id ''setmore_script''
        \<lparr>tagName = ''script'', el_id = [], classList = [], attributes = Map.empty,
              style = (\<lambda>_. []), el_value = [], textContent = [], ancestors = []\<rparr>))"
  define d5 where "d5 = ?d\<lparr>next_node := Suc ?k, elem := (elem ?d)(?k := e)\<rparr>"
  have inj: "inject_script s = (?k, s\<lparr>page := appendChild (head d5) ?k d5\<rparr>)"
    by (simp add: inject_script_def g createElement_def update_elem_def Let_def d5_def e_def)
  have f1: "filter (\<lambda>m. m \<noteq> ?k \<and> ?k \<notin> set (ancestors (elem d5 m))) (nodes d5) = nodes ?d"
    using fresh fresh2 by (auto simp: d5_def intro!: filter_True)
  define ns where "ns = (case dropWhile (\<lambda>m. m \<noteq> head d5) (nodes ?d) of
                  [] \<Rightarrow> nodes ?d
                | p # rest \<Rightarrow> takeWhile (\<lambda>m. m \<noteq> head d5) (nodes ?d) @
                             p # takeWhile (\<lambda>m. head d5 \<in> set (ancestors (elem (remove_node ?k d5) m))) rest @ ?k #
                             dropWhile (\<lambda>m. head d5 \<in> set (ancestors (elem (remove_node ?k d5) m))) rest)"
  have ns_sub: "set ns \<subseteq> insert ?k (set (nodes ?d))"
    unfolding ns_def by (rule set_inserted)
  have rn: "nodes (remove_node ?k d5) = nodes ?d"
    by (simp add: remove_node_def f1)
  have app_nodes: "nodes (appendChild (head d5) ?k d5) = ns"
    by (simp add: appendChild_def Let_def ns_def rn cong: list.case_cong)
  have app_elem: "\<And>m. m \<noteq> ?k \<Longrightarrow> elem (appendChild (head d5) ?k d5) m = elem ?d m"
    by (simp add: appendChild_def Let_def remove_node_def d5_def)
  have f2: "filter (\<lambda>m. m \<noteq> ?k \<and> ?k \<notin> set (ancestors (elem (appendChild (head d5) ?k d5) m))) ns
      = filter (\<lambda>m. m \<noteq> ?k) ns"
    using ns_sub fresh2 app_elem by (intro filter_cong) auto
  have f3: "filter (\<lambda>m. m \<noteq> ?k) ns = nodes ?d"
    unfolding ns_def by (rule filter_inserted [OF fresh])
  let ?d7 = "remove_node ?k (appendChild (head d5) ?k d5)"
  have page: "page (after_error s) = ?d7"
    by (simp add: after_error_def inj)
  have n7: "nodes ?d7 = nodes ?d"
    by (simp add: remove_node_def app_nodes f2 f3)
  have e7: "\<And>m. m \<noteq> ?k \<Longrightarrow> elem ?d7 m = elem ?d m"
    by (simp add: remove_node_def app_elem)
  have x7: "next_node ?d7 = Suc ?k"
    by (simp add: remove_node_def appendChild_def Let_def d5_def)
  have "wf_document ?d7"
    unfolding wf_document_def n7 x7
    using wf fresh e7 by (auto simp: wf_document_def less_Suc_eq)
  moreover have "\<forall>n\<in>set (nodes d0). el_id (elem ?d7 n) = el_id (elem d0 n) \<and>
                           ancestors (elem ?d7 n) = ancestors (elem d0 n)"
  proof
    fix n assume n: "n \<in> set (nodes d0)"
    with fresh nodes have "n \<noteq> ?k" by auto
    from e7 [OF this] n sp show "el_id (elem ?d7 n) = el_id (elem d0 n) \<and>
                           ancestors (elem ?d7 n) = ancestors (elem d0 n)"
      by (simp add: same_page_def)
  qed
  ultimately show ?thesis
    unfolding page same_page_def using n7 nodes by simp
qed

lemma set_style_simps [simp]:
  "style (set_style k v e) = (style e)(k := v)"
  "style (setAttribute k' v' e) = style e"
  "classList (set_style k v e) = classList e"
  by (simp_all add: set_style_def setAttribute_def)


lemma showLoadingState_fields [simp]:
  "scriptLoadAttempts (showLoadingState s) = scriptLoadAttempts s"
  "BOOKING_CONFIG (showLoadingState s) = BOOKING_CONFIG s"
  "isScriptLoaded (showLoadingState s) = isScriptLoaded s"
  by (simp_all add: showLoadingState_def split: option.splits)

lemma hideLoadingState_fields [simp]:
  "scriptLoadAttempts (hideLoadingState s) = scriptLoadAttempts s"
  "BOOKING_CONFIG (hideLoadingState s) = BOOKING_CONFIG s"
  "isScriptLoaded (hideLoadingState s) = isScriptLoaded s"
  by (simp_all add: hideLoadingState_def split: option.splits)

lemma same_page_showLoadingState:
  "same_page d0 (page s) \<Longrightarrow> same_page d0 (page (showLoadingState s))"
  by (auto simp: showLoadingState_def split: option.splits intro!: same_page_update_elem)

lemma same_page_hideLoadingState:
  "same_page d0 (page s) \<Longrightarrow> same_page d0 (page (hideLoadingState s))"
  by (auto simp: hideLoadingState_def split: option.splits intro!: same_page_update_elem)

lemma showSetmoreFallback_result:
  assumes c: "getElementById (page s) ''setmore-booking-container'' = Some c"
    and f: "getElementById (page s) ''booking-fallback'' = Some f"
    and l: "getElementById (page s) ''setmore-fallback-link'' = Some l"
  shows "style (elem (page (showSetmoreFallback s)) f) ''display'' = ''block'' \<and>
     attributes (elem (page (showSetmoreFallback s)) l) ''href'' = Some (setmoreUrl (BOOKING_CONFIG s)) \<and>
     style (elem (page (showSetmoreFallback s)) c) ''display'' = ''none''"
proof -
  have ne: "c \<noteq> f" "l \<noteq> f" "c \<noteq> l"
    using getElementById_Some [OF c] getElementById_Some [OF f] getElementById_Some [OF l] by auto
  show ?thesis
    using ne
    by (simp add: showSetmoreFallback_def setupSetmoreFallbackLink_def Let_def c f l
        getElementById_update_elem elem_update_elem)
qed

lemma loadSetmoreScript_timeout_eq:
  "loadSetmoreScript (ScriptTimeout # evs) s = (Rejected ''Script loading timeout'', after_timeout s)"
  by (simp add: after_timeout_def split: prod.splits)

lemma after_timeout_fields [simp]:
  "scriptLoadAttempts (after_timeout s) = scriptLoadAttempts s"
  "BOOKING_CONFIG (after_timeout s) = BOOKING_CONFIG s"
  "isScriptLoaded (after_timeout s) = isScriptLoaded s"
  "page (after_timeout s) = page (after_error s)"
  by (auto simp: after_timeout_def after_error_def split: prod.splits dest: inject_script_fields_pair)

lemma example_booking_facts:
  "scriptLoadAttempts example_booking_state = 0"
  "retryAttempts (BOOKING_CONFIG example_booking_state) = 3"
  "setmoreUrl (BOOKING_CONFIG example_booking_state) = ''https://daixmarededa.setmore.com/book''"
  "page example_booking_state = example_booking_page"
  "wf_document example_booking_page"
  "getElementById example_booking_page ''setmore_script'' = None"
  "getElementById example_booking_page ''setmore-booking-container'' = Some 30"
  "getElementById example_booking_page ''booking-fallback'' = Some 32"
  "getElementById example_booking_page ''setmore-fallback-link'' = Some 33"
  by (simp_all add: example_booking_state_def initial_booking_state_def default_BOOKING_CONFIG_def
      example_booking_page_def blank_element_def wf_document_def getElementById_def)

lemma setupSetmoreFallbackLink_attempts [simp]:
  "scriptLoadAttempts (setupSetmoreFallbackLink s) = scriptLoadAttempts s"
  by (simp add: setupSetmoreFallbackLink_def split: option.splits)

lemma showSetmoreFallback_attempts [simp]:
  "scriptLoadAttempts (showSetmoreFallback s) = scriptLoadAttempts s"
  by (simp add: showSetmoreFallback_def Let_def split: option.splits)

lemma embedSetmoreWidget_attempts [simp]:
  "scriptLoadAttempts (embedSetmoreWidget s) = scriptLoadAttempts s"
  by (simp add: embedSetmoreWidget_def Let_def split: option.splits prod.splits)

lemma showInternalBookingForm_attempts [simp]:
  "scriptLoadAttempts (showInternalBookingForm s) = scriptLoadAttempts s"
  by (simp add: showInternalBookingForm_def setupInternalBookingForm_def Let_def split: option.splits)

lemma openSetmoreBooking_attempts [simp]:
  "scriptLoadAttempts (openSetmoreBooking s) = scriptLoadAttempts s"
  by (simp add: openSetmoreBooking_def Let_def split: option.splits)

lemma openInternalBooking_attempts [simp]:
  "scriptLoadAttempts (openInternalBooking s) = scriptLoadAttempts s"
  by (simp add: openInternalBooking_def)

lemma onWindowError_attempts [simp]:
  "scriptLoadAttempts (onWindowError filename s) = scriptLoadAttempts s"
  by (simp add: onWindowError_def)

lemma loadSetmoreWidget_attempts_mono:
  "scriptLoadAttempts s \<le> scriptLoadAttempts (loadSetmoreWidget evs s)"
proof (cases "getElementById (page s) ''setmore-booking-container''")
  case None
  then show ?thesis by (simp add: loadSetmoreWidget_def)
next
  case (Some c)
  obtain p s1 where r: "loadSetmoreScript evs (showLoadingState s) = (p, s1)"
    by (cases "loadSetmoreScript evs (showLoadingState s)")
  have "scriptLoadAttempts s \<le> scriptLoadAttempts s1"
    using loadSetmoreScript_attempts_mono [of "showLoadingState s" evs] r by simp
  then show ?thesis
    by (cases p) (simp_all add: loadSetmoreWidget_def Some r)
qed

lemma initializeBookingWidget_attempts_mono:
  "scriptLoadAttempts s \<le> scriptLoadAttempts (initializeBookingWidget evs s)"
  by (simp add: initializeBookingWidget_def loadSetmoreWidget_attempts_mono)

lemma booking_step_attempts_mono:
  "scriptLoadAttempts s \<le> scriptLoadAttempts (booking_step operation s)"
proof (cases operation)
  case (Init evs)
  then show ?thesis by (simp add: init_def initializeBookingWidget_attempts_mono)
next
  case (HandleBookingClick hasEvent)
  then show ?thesis by (simp add: handleBookingClick_def)
next
  case (UpdateConfig newConfig evs)
  let ?s1 = "s\<lparr>BOOKING_CONFIG := Object_assign (BOOKING_CONFIG s) newConfig\<rparr>"
  have "scriptLoadAttempts ?s1 \<le> scriptLoadAttempts (initializeBookingWidget evs ?s1)"
    by (rule initializeBookingWidget_attempts_mono)
  with UpdateConfig show ?thesis by (simp add: updateConfig_def Let_def)
qed simp_all

lemma loadSetmoreScript_load_step:
  "fst (loadSetmoreScript (ScriptLoad # evs) s) = Resolved \<and>
   scriptLoadAttempts (snd (loadSetmoreScript (ScriptLoad # evs) s)) = scriptLoadAttempts s \<and>
   isScriptLoaded (snd (loadSetmoreScript (ScriptLoad # evs) s))"
  by (auto split: prod.splits dest: inject_script_fields_pair)

lemma example_exhausted_state_eq:
  "example_exhausted_state = (after_error ^^ 3) example_booking_state"
proof -
  have "snd (loadSetmoreScript (replicate (Suc 2) ScriptError @ []) example_booking_state)
      = (after_error ^^ Suc 2) example_booking_state"
    using loadSetmoreScript_errors_rejected [of example_booking_state 2 "[]"]
    by (simp add: example_booking_facts del: loadSetmoreScript.simps)
  then show ?thesis
    by (simp add: example_exhausted_state_def numeral_3_eq_3 del: loadSetmoreScript.simps)
qed

lemma example_exhausted_facts:
  "scriptLoadAttempts example_exhausted_state = 3"
  "retryAttempts (BOOKING_CONFIG example_exhausted_state) = 3"
  by (simp_all add: example_exhausted_state_eq example_booking_facts)





text \<open>
  Claim C2, as the code has it. A timeout of a script-load attempt rejects the promise at
  once with \<open>Script loading timeout\<close>: the counter \<open>scriptLoadAttempts\<close> stays as it is and
  no further attempt is made, whatever the retry bound. \<open>loadSetmoreWidget\<close> then takes
  its failure path: on a page as in C1 the fallback container is displayed and the link
  carries the configured URL.
\<close>

theorem loadSetmoreScript_timeout_rejects_without_retry:
  "fst (loadSetmoreScript (ScriptTimeout # evs) s) = Rejected ''Script loading timeout'' \<and>
   scriptLoadAttempts (snd (loadSetmoreScript (ScriptTimeout # evs) s)) = scriptLoadAttempts s \<and>
   snd (loadSetmoreScript (ScriptTimeout # evs) s) = snd (loadSetmoreScript [ScriptTimeout] s) \<and>
   (wf_document (page s) \<and>
    getElementById (page s) ''setmore_script'' = None \<and>
    getElementById (page s) ''setmore-booking-container'' = Some c \<and>
    getElementById (page s) ''booking-fallback'' = Some f \<and>
    getElementById (page s) ''setmore-fallback-link'' = Some l \<longrightarrow>
    (let s' = loadSetmoreWidget (ScriptTimeout # evs) s
     in scriptLoadAttempts s' = scriptLoadAttempts s \<and>
        style (elem (page s') f) ''display'' = ''block'' \<and>
        attributes (elem (page s') l) ''href'' = Some (setmoreUrl (BOOKING_CONFIG s))))"
proof -
  have widget: "scriptLoadAttempts (loadSetmoreWidget (ScriptTimeout # evs) s) = scriptLoadAttempts s \<and>
        style (elem (page (loadSetmoreWidget (ScriptTimeout # evs) s)) f) ''display'' = ''block'' \<and>
        attributes (elem (page (loadSetmoreWidget (ScriptTimeout # evs) s)) l) ''href''
          = Some (setmoreUrl (BOOKING_CONFIG s))"
    if wf: "wf_document (page s)" and none: "getElementById (page s) ''setmore_script'' = None"
      and c: "getElementById (page s) ''setmore-booking-container'' = Some c"
      and f: "getElementById (page s) ''booking-fallback'' = Some f"
      and l: "getElementById (page s) ''setmore-fallback-link'' = Some l"
  proof -
    let ?s0 = "showLoadingState s"
    let ?sr = "after_timeout ?s0"
    let ?err = "''Script loading timeout''"
    let ?sa = "?sr\<lparr>page := console_error (''Failed to load Setmore script: '' @ ?err) (page ?sr)\<rparr>"
    let ?sb = "hideLoadingState ?sa"
    have w: "loadSetmoreWidget (ScriptTimeout # evs) s = showSetmoreFallback ?sb"
      by (simp add: loadSetmoreWidget_def c loadSetmoreScript_timeout_eq del: loadSetmoreScript.simps)
    have "same_page (page s) (page ?s0)"
      by (rule same_page_showLoadingState [OF same_page_refl [OF wf]])
    then have "same_page (page s) (page (after_error ?s0))"
      by (rule same_page_after_error [OF _ none])
    then have "same_page (page s) (page ?sa)"
      using same_page_console_error by simp
    then have sp: "same_page (page s) (page ?sb)"
      by (rule same_page_hideLoadingState)
    have cfg: "BOOKING_CONFIG ?sb = BOOKING_CONFIG s"
      by simp
    have att: "scriptLoadAttempts (showSetmoreFallback ?sb) = scriptLoadAttempts s"
      by simp
    show ?thesis
      unfolding w
      using showSetmoreFallback_result [of ?sb c f l] c f l att
      by (simp only: same_page_getElementById [OF sp] cfg)
  qed
  show ?thesis
    unfolding Let_def using widget
    by (simp add: loadSetmoreScript_timeout_eq del: loadSetmoreScript.simps)
qed

text \<open>The theorem at the example booking page.\<close>

theorem loadSetmoreScript_timeout_rejects_without_retry_witness:
  "wf_document (page example_booking_state) \<and>
   getElementById (page example_booking_state) ''setmore_script'' = None \<and>
   getElementById (page example_booking_state) ''setmore-booking-container'' = Some 30 \<and>
   getElementById (page example_booking_state) ''booking-fallback'' = Some 32 \<and>
   getElementById (page example_booking_state) ''setmore-fallback-link'' = Some 33 \<and>
   scriptLoadAttempts (loadSetmoreWidget [ScriptTimeout, ScriptLoad] example_booking_state) = 0 \<and>
   style (elem (page (loadSetmoreWidget [ScriptTimeout, ScriptLoad] example_booking_state)) 32) ''display''
     = ''block'' \<and>
   attributes (elem (page (loadSetmoreWidget [ScriptTimeout, ScriptLoad] example_booking_state)) 33) ''href''
     = Some ''https://daixmarededa.setmore.com/book''"
  using loadSetmoreScript_timeout_rejects_without_retry
    [where s = example_booking_state and evs = "[ScriptLoad]" and c = 30 and f = 32 and l = 33]
  unfolding Let_def
  by (simp add: example_booking_facts del: loadSetmoreScript.simps)


text \<open>
  Claim C2 as stated fails: in a fresh session with the default bound 3, a first attempt
  that times out rejects the promise without a retry and without counting, although a
  second attempt would have loaded; a first attempt that fails with a load error is
  counted and retried, and the second attempt resolves the promise.
\<close>

theorem loadSetmoreScript_timeout_counterexample:
  "fst (loadSetmoreScript [ScriptTimeout, ScriptLoad] example_booking_state)
     = Rejected ''Script loading timeout'' \<and>
   scriptLoadAttempts (snd (loadSetmoreScript [ScriptTimeout, ScriptLoad] example_booking_state)) = 0 \<and>
   \<not> isScriptLoaded (snd (loadSetmoreScript [ScriptTimeout, ScriptLoad] example_booking_state)) \<and>
   fst (loadSetmoreScript [ScriptError, ScriptLoad] example_booking_state) = Resolved \<and>
   scriptLoadAttempts (snd (loadSetmoreScript [ScriptError, ScriptLoad] example_booking_state)) = 1 \<and>
   isScriptLoaded (snd (loadSetmoreScript [ScriptError, ScriptLoad] example_booking_state))"
proof -
  have l: "\<not> isScriptLoaded example_booking_state"
    by (simp add: example_booking_state_def initial_booking_state_def)
  have e: "loadSetmoreScript [ScriptError, ScriptLoad] example_booking_state
      = loadSetmoreScript [ScriptLoad] (after_error example_booking_state)"
    by (simp add: loadSetmoreScript_error_step example_booking_facts del: loadSetmoreScript.simps)
  show ?thesis
    unfolding e loadSetmoreScript_timeout_eq
    using loadSetmoreScript_load_step [of "[]" "after_error example_booking_state"] l
    by (simp add: example_booking_facts del: loadSetmoreScript.simps)
qed

text \<open>
  Claim C10. No operation of the module and no load lowers \<open>scriptLoadAttempts\<close>: a
  successful load leaves it as it is, a load error increments it before the retry is
  decided. Once it has reached \<open>retryAttempts\<close>, a later \<open>loadSetmoreScript\<close> rejects on
  its first load error: no further attempt is made, whatever events would follow.
\<close>

theorem scriptLoadAttempts_shared_retry_budget:
  "scriptLoadAttempts s \<le> scriptLoadAttempts (booking_step operation s) \<and>
   scriptLoadAttempts s \<le> scriptLoadAttempts (snd (loadSetmoreScript evs s)) \<and>
   scriptLoadAttempts (snd (loadSetmoreScript (ScriptLoad # evs) s)) = scriptLoadAttempts s \<and>
   Suc (scriptLoadAttempts s) \<le> scriptLoadAttempts (snd (loadSetmoreScript (ScriptError # evs) s)) \<and>
   (retryAttempts (BOOKING_CONFIG s) \<le> int (scriptLoadAttempts s) \<longrightarrow>
      fst (loadSetmoreScript (ScriptError # evs) s)
        = Rejected ''Failed to load Setmore script after multiple attempts'' \<and>
      snd (loadSetmoreScript (ScriptError # evs) s) = snd (loadSetmoreScript [ScriptError] s) \<and>
      scriptLoadAttempts (snd (loadSetmoreScript (ScriptError # evs) s)) = Suc (scriptLoadAttempts s))"
proof -
  have a: "scriptLoadAttempts (snd (loadSetmoreScript (ScriptLoad # evs) s)) = scriptLoadAttempts s"
    by (auto split: prod.splits dest: inject_script_fields_pair)
  have b: "Suc (scriptLoadAttempts s) \<le> scriptLoadAttempts (snd (loadSetmoreScript (ScriptError # evs) s))"
    using loadSetmoreScript_attempts_mono [of "after_error s" evs]
    by (simp add: loadSetmoreScript_error_step del: loadSetmoreScript.simps)
  have c: "fst (loadSetmoreScript (ScriptError # evs) s)
        = Rejected ''Failed to load Setmore script after multiple attempts'' \<and>
      snd (loadSetmoreScript (ScriptError # evs) s) = snd (loadSetmoreScript [ScriptError] s) \<and>
      scriptLoadAttempts (snd (loadSetmoreScript (ScriptError # evs) s)) = Suc (scriptLoadAttempts s)"
    if "retryAttempts (BOOKING_CONFIG s) \<le> int (scriptLoadAttempts s)"
    using that by (simp add: loadSetmoreScript_error_step del: loadSetmoreScript.simps)
  show ?thesis
    using booking_step_attempts_mono [of s operation] loadSetmoreScript_attempts_mono [of s evs] a b c
    by blast
qed


text \<open>The theorem at the example session after three load errors: a further load is
  rejected on its first error although its second attempt would have loaded.\<close>

theorem scriptLoadAttempts_shared_retry_budget_witness:
  "retryAttempts (BOOKING_CONFIG example_exhausted_state) \<le> int (scriptLoadAttempts example_exhausted_state) \<and>
   scriptLoadAttempts example_exhausted_state = 3 \<and>
   fst (loadSetmoreScript [ScriptError, ScriptLoad] example_exhausted_state)
     = Rejected ''Failed to load Setmore script after multiple attempts'' \<and>
   scriptLoadAttempts (snd (loadSetmoreScript [ScriptError, ScriptLoad] example_exhausted_state)) = 4"
proof -
  have h: "retryAttempts (BOOKING_CONFIG example_exhausted_state) \<le> int (scriptLoadAttempts example_exhausted_state)"
    by (simp add: example_exhausted_facts)
  from scriptLoadAttempts_shared_retry_budget
    [where s = example_exhausted_state and evs = "[ScriptLoad]" and operation = GetConfig] h
  have "fst (loadSetmoreScript [ScriptError, ScriptLoad] example_exhausted_state)
     = Rejected ''Failed to load Setmore script after multiple attempts'' \<and>
   scriptLoadAttempts (snd (loadSetmoreScript [ScriptError, ScriptLoad] example_exhausted_state))
     = Suc (scriptLoadAttempts example_exhausted_state)"
    by blast
  with h show ?thesis by (simp add: example_exhausted_facts del: loadSetmoreScript.simps)
qed

section \<open>Properties of lightbox.js\<close>

subsection \<open>What each function leaves unchanged\<close>

lemma on_doc_simps [simp]:
  "lightbox (on_doc f s) = lightbox s"
  "lightboxImage (on_doc f s) = lightboxImage s"
  "lightboxTitle (on_doc f s) = lightboxTitle s"
  "lightboxDescription (on_doc f s) = lightboxDescription s"
  "lightboxCounter (on_doc f s) = lightboxCounter s"
  "lightboxClose (on_doc f s) = lightboxClose s"
  "lightboxPrev (on_doc f s) = lightboxPrev s"
  "lightboxNext (on_doc f s) = lightboxNext s"
  "currentIndex (on_doc f s) = currentIndex s"
  "galleryItems (on_doc f s) = galleryItems s"
  "isOpen (on_doc f s) = isOpen s"
  "focusedElementBeforeModal (on_doc f s) = focusedElementBeforeModal s"
  "imageLoads (on_doc f s) = imageLoads s"
  "openTimers (on_doc f s) = openTimers s"
  "hasShowToast (on_doc f s) = hasShowToast s"
  "doc (on_doc f s) = f (doc s)"
  by (simp_all add: on_doc_def)

lemma on_elem_simps [simp]:
  "lightbox (on_elem el g s) = lightbox s"
  "lightboxImage (on_elem el g s) = lightboxImage s"
  "lightboxTitle (on_elem el g s) = lightboxTitle s"
  "lightboxDescription (on_elem el g s) = lightboxDescription s"
  "lightboxCounter (on_elem el g s) = lightboxCounter s"
  "lightboxClose (on_elem el g s) = lightboxClose s"
  "lightboxPrev (on_elem el g s) = lightboxPrev s"
  "lightboxNext (on_elem el g s) = lightboxNext s"
  "currentIndex (on_elem el g s) = currentIndex s"
  "galleryItems (on_elem el g s) = galleryItems s"
  "isOpen (on_elem el g s) = isOpen s"
  "focusedElementBeforeModal (on_elem el g s) = focusedElementBeforeModal s"
  "imageLoads (on_elem el g s) = imageLoads s"
  "openTimers (on_elem el g s) = openTimers s"
  "hasShowToast (on_elem el g s) = hasShowToast s"
  "activeElement (doc (on_elem el g s)) = activeElement (doc s)"
  by (simp_all add: on_elem_def split: option.splits)

lemma announce_simps [simp]:
  "lightbox (announceToScreenReader m s) = lightbox s"
  "lightboxImage (announceToScreenReader m s) = lightboxImage s"
  "currentIndex (announceToScreenReader m s) = currentIndex s"
  "galleryItems (announceToScreenReader m s) = galleryItems s"
  "isOpen (announceToScreenReader m s) = isOpen s"
  "focusedElementBeforeModal (announceToScreenReader m s) = focusedElementBeforeModal s"
  "imageLoads (announceToScreenReader m s) = imageLoads s"
  "doc (announceToScreenReader m s) = doc s"
  by (simp_all add: announceToScreenReader_def)

lemma loadCurrentImage_simps [simp]:
  "lightbox (loadCurrentImage s) = lightbox s"
  "lightboxImage (loadCurrentImage s) = lightboxImage s"
  "lightboxCounter (loadCurrentImage s) = lightboxCounter s"
  "lightboxClose (loadCurrentImage s) = lightboxClose s"
  "lightboxPrev (loadCurrentImage s) = lightboxPrev s"
  "lightboxNext (loadCurrentImage s) = lightboxNext s"
  "currentIndex (loadCurrentImage s) = currentIndex s"
  "galleryItems (loadCurrentImage s) = galleryItems s"
  "isOpen (loadCurrentImage s) = isOpen s"
  "focusedElementBeforeModal (loadCurrentImage s) = focusedElementBeforeModal s"
  "activeElement (doc (loadCurrentImage s)) = activeElement (doc s)"
  by (simp_all add: loadCurrentImage_def lb_showLoadingState_def Let_def split: option.splits)

lemma updateNavigation_simps [simp]:
  "lightbox (updateNavigation s) = lightbox s"
  "lightboxImage (updateNavigation s) = lightboxImage s"
  "lightboxCounter (updateNavigation s) = lightboxCounter s"
  "lightboxClose (updateNavigation s) = lightboxClose s"
  "currentIndex (updateNavigation s) = currentIndex s"
  "galleryItems (updateNavigation s) = galleryItems s"
  "isOpen (updateNavigation s) = isOpen s"
  "focusedElementBeforeModal (updateNavigation s) = focusedElementBeforeModal s"
  "imageLoads (updateNavigation s) = imageLoads s"
  "activeElement (doc (updateNavigation s)) = activeElement (doc s)"
  by (simp_all add: updateNavigation_def)

lemma updateCounter_simps [simp]:
  "lightbox (updateCounter s) = lightbox s"
  "lightboxImage (updateCounter s) = lightboxImage s"
  "lightboxClose (updateCounter s) = lightboxClose s"
  "currentIndex (updateCounter s) = currentIndex s"
  "galleryItems (updateCounter s) = galleryItems s"
  "isOpen (updateCounter s) = isOpen s"
  "focusedElementBeforeModal (updateCounter s) = focusedElementBeforeModal s"
  "imageLoads (updateCounter s) = imageLoads s"
  "activeElement (doc (updateCounter s)) = activeElement (doc s)"
  by (simp_all add: updateCounter_def update_elem_def split: option.splits)

lemma showNextImage_index:
  "currentIndex (showNextImage s) =
     (if \<not> isOpen s \<or> length (galleryItems s) \<le> 1 then currentIndex s
      else if currentIndex s < length (galleryItems s) - 1 then currentIndex s + 1 else 0)"
  by (simp add: showNextImage_def Let_def)

lemma showPreviousImage_index:
  "currentIndex (showPreviousImage s) =
     (if \<not> isOpen s \<or> length (galleryItems s) \<le> 1 then currentIndex s
      else if currentIndex s > 0 then currentIndex s - 1 else length (galleryItems s) - 1)"
  by (simp add: showPreviousImage_def Let_def)

lemma attributes_on_elem:
  "attributes (elem (doc (on_elem el g s)) n) =
     (if el = Some n then attributes (g (elem (doc s) n)) else attributes (elem (doc s) n))"
  by (simp add: on_elem_def elem_update_elem split: option.splits)

lemma handleImageError_simps [simp]:
  "lightbox (handleImageError s) = lightbox s"
  "lightboxImage (handleImageError s) = lightboxImage s"
  "currentIndex (handleImageError s) = currentIndex s"
  "galleryItems (handleImageError s) = galleryItems s"
  "isOpen (handleImageError s) = isOpen s"
  "focusedElementBeforeModal (handleImageError s) = focusedElementBeforeModal s"
  "activeElement (doc (handleImageError s)) = activeElement (doc s)"
  by (simp_all add: handleImageError_def Let_def)

lemma updateImageInfo_simps [simp]:
  "lightbox (updateImageInfo ov s) = lightbox s"
  "lightboxImage (updateImageInfo ov s) = lightboxImage s"
  "currentIndex (updateImageInfo ov s) = currentIndex s"
  "galleryItems (updateImageInfo ov s) = galleryItems s"
  "isOpen (updateImageInfo ov s) = isOpen s"
  "focusedElementBeforeModal (updateImageInfo ov s) = focusedElementBeforeModal s"
  "activeElement (doc (updateImageInfo ov s)) = activeElement (doc s)"
  by (simp_all add: updateImageInfo_def Let_def)

lemma attributes_updateImageInfo [simp]:
  "attributes (elem (doc (updateImageInfo ov s)) n) = attributes (elem (doc s) n)"
  by (simp add: updateImageInfo_def Let_def attributes_on_elem)

lemma lb_hideLoadingState_simps [simp]:
  "lightbox (lb_hideLoadingState s) = lightbox s"
  "lightboxImage (lb_hideLoadingState s) = lightboxImage s"
  "lightboxTitle (lb_hideLoadingState s) = lightboxTitle s"
  "lightboxDescription (lb_hideLoadingState s) = lightboxDescription s"
  "currentIndex (lb_hideLoadingState s) = currentIndex s"
  "galleryItems (lb_hideLoadingState s) = galleryItems s"
  "isOpen (lb_hideLoadingState s) = isOpen s"
  "focusedElementBeforeModal (lb_hideLoadingState s) = focusedElementBeforeModal s"
  "hasShowToast (lb_hideLoadingState s) = hasShowToast s"
  "activeElement (doc (lb_hideLoadingState s)) = activeElement (doc s)"
  by (simp_all add: lb_hideLoadingState_def)

lemma image_onload_simps [simp]:
  "lightbox (image_onload l s) = lightbox s"
  "lightboxImage (image_onload l s) = lightboxImage s"
  "currentIndex (image_onload l s) = currentIndex s"
  "galleryItems (image_onload l s) = galleryItems s"
  "isOpen (image_onload l s) = isOpen s"
  "focusedElementBeforeModal (image_onload l s) = focusedElementBeforeModal s"
  "activeElement (doc (image_onload l s)) = activeElement (doc s)"
  by (simp_all add: image_onload_def Let_def)

lemma image_onerror_simps [simp]:
  "lightbox (image_onerror l s) = lightbox s"
  "currentIndex (image_onerror l s) = currentIndex s"
  "isOpen (image_onerror l s) = isOpen s"
  "focusedElementBeforeModal (image_onerror l s) = focusedElementBeforeModal s"
  by (simp_all add: image_onerror_def)

lemma image_onload_attributes:
  "lightboxImage s = Some im \<Longrightarrow>
   attributes (elem (doc (image_onload l s)) im) ''src'' = Some (load_src l) \<and>
   attributes (elem (doc (image_onload l s)) im) ''alt'' = Some (load_alt l)"
  by (simp add: image_onload_def Let_def attributes_on_elem)

lemma open_timer_callback_simps [simp]:
  "lightbox (open_timer_callback s) = lightbox s"
  "isOpen (open_timer_callback s) = isOpen s"
  "focusedElementBeforeModal (open_timer_callback s) = focusedElementBeforeModal s"
  by (simp_all add: open_timer_callback_def Let_def split: option.splits)

lemma showNextImage_simps [simp]:
  "lightbox (showNextImage s) = lightbox s"
  "isOpen (showNextImage s) = isOpen s"
  "focusedElementBeforeModal (showNextImage s) = focusedElementBeforeModal s"
  by (simp_all add: showNextImage_def Let_def)

lemma showPreviousImage_simps [simp]:
  "lightbox (showPreviousImage s) = lightbox s"
  "isOpen (showPreviousImage s) = isOpen s"
  "focusedElementBeforeModal (showPreviousImage s) = focusedElementBeforeModal s"
  by (simp_all add: showPreviousImage_def Let_def)

lemma handleFocusTrap_simps [simp]:
  "lightbox (handleFocusTrap shiftKey s) = lightbox s"
  "isOpen (handleFocusTrap shiftKey s) = isOpen s"
  "focusedElementBeforeModal (handleFocusTrap shiftKey s) = focusedElementBeforeModal s"
  by (simp_all add: handleFocusTrap_def Let_def split: option.splits list.splits)

lemma refresh_simps [simp]:
  "lightbox (refresh s) = lightbox s"
  "isOpen (refresh s) = isOpen s"
  "focusedElementBeforeModal (refresh s) = focusedElementBeforeModal s"
  by (simp_all add: refresh_def setupGalleryItems_def Let_def split: option.splits)

lemma handleKeydown_navigation:
  "key \<noteq> ''Escape'' \<Longrightarrow>
   lightbox (handleKeydown key shiftKey s) = lightbox s \<and>
   isOpen (handleKeydown key shiftKey s) = isOpen s \<and>
   focusedElementBeforeModal (handleKeydown key shiftKey s) = focusedElementBeforeModal s"
  by (simp add: handleKeydown_def)

lemma navigation_step:
  "navigation_event ev \<Longrightarrow>
   lightbox (lightbox_step ev s) = lightbox s \<and>
   isOpen (lightbox_step ev s) = isOpen s \<and>
   focusedElementBeforeModal (lightbox_step ev s) = focusedElementBeforeModal s"
  by (cases ev) (simp_all add: handleKeydown_navigation)

lemma navigation_run:
  "\<forall>ev\<in>set evs. navigation_event ev \<Longrightarrow>
   lightbox (run_events evs s) = lightbox s \<and>
   isOpen (run_events evs s) = isOpen s \<and>
   focusedElementBeforeModal (run_events evs s) = focusedElementBeforeModal s"
proof (induction evs arbitrary: s)
  case Nil
  show ?case by (simp add: run_events_def)
next
  case (Cons ev evs)
  have r: "run_events (ev # evs) s = run_events evs (lightbox_step ev s)"
    by (simp add: run_events_def)
  from Cons.prems have "navigation_event ev" "\<forall>ev\<in>set evs. navigation_event ev" by simp_all
  from navigation_step [OF this(1), of s] Cons.IH [OF this(2), of "lightbox_step ev s"]
  show ?case unfolding r by simp
qed

lemma openLightbox_opened:
  "lightbox s \<noteq> None \<Longrightarrow> 0 \<le> index \<Longrightarrow> index < int (length (galleryItems s)) \<Longrightarrow>
   lightbox (openLightbox index s) = lightbox s \<and>
   isOpen (openLightbox index s) \<and>
   focusedElementBeforeModal (openLightbox index s) = activeElement (doc s) \<and>
   currentIndex (openLightbox index s) = nat index"
  by (auto simp: openLightbox_def Let_def split: option.splits)

lemma closeLightbox_focus:
  "lightbox s \<noteq> None \<Longrightarrow> isOpen s \<Longrightarrow> focusedElementBeforeModal s = Some e \<Longrightarrow>
   activeElement (doc (closeLightbox s)) = Some e \<and> \<not> isOpen (closeLightbox s)"
  by (auto simp: closeLightbox_def Let_def focus_def split: option.splits)

lemma loadCurrentImage_loads:
  "\<exists>xs. imageLoads (loadCurrentImage s) = imageLoads s @ xs"
  by (simp add: loadCurrentImage_def lb_showLoadingState_def Let_def split: option.splits)

lemma showNextImage_loads:
  "\<exists>xs. imageLoads (showNextImage s) = imageLoads s @ xs"
  using loadCurrentImage_loads [of "s\<lparr>currentIndex := (if currentIndex s < length (galleryItems s) - 1
                                       then currentIndex s + 1 else 0)\<rparr>"]
  by (simp add: showNextImage_def Let_def)

lemma showPreviousImage_loads:
  "\<exists>xs. imageLoads (showPreviousImage s) = imageLoads s @ xs"
  using loadCurrentImage_loads [of "s\<lparr>currentIndex := (if currentIndex s > 0 then currentIndex s - 1
                                       else length (galleryItems s) - 1)\<rparr>"]
  by (simp add: showPreviousImage_def Let_def)

lemma loadCurrentImage_captures:
  "lightboxImage s = Some im \<Longrightarrow> item_at (galleryItems s) (currentIndex s) = Some item \<Longrightarrow>
   querySelector_in (doc s) item (has_tag ''img'') = Some img \<Longrightarrow>
   imageLoads (loadCurrentImage s) = imageLoads s @
     [\<lparr>load_src = (case attributes (elem (doc s) img) ''data-full'' of
                      None \<Rightarrow> reflect (elem (doc s) img) ''src''
                    | Some v \<Rightarrow> if v \<noteq> [] then v else reflect (elem (doc s) img) ''src''),
       load_alt = reflect (elem (doc s) img) ''alt'',
       load_overlay = querySelector_in (doc s) item (has_class ''gallery-overlay'')\<rparr>]"
  by (simp add: loadCurrentImage_def lb_showLoadingState_def Let_def)

subsection \<open>The page outside the lightbox\<close>

lemma tagName_op_simps [simp]:
  "tagName (setAttribute k v e) = tagName e" "tagName (set_textContent t e) = tagName e"
  "tagName (set_style k v e) = tagName e"
  by (simp_all add: setAttribute_def set_textContent_def set_style_def)

lemma frame_except_refl [simp]: "frame_except X d d"
  by (simp add: frame_except_def)

lemma frame_except_trans: "frame_except X d d' \<Longrightarrow> frame_except X d' d'' \<Longrightarrow> frame_except X d d''"
  by (simp add: frame_except_def)

lemma frame_except_querySelector_in:
  "frame_except X d d' \<Longrightarrow> querySelector_in d' root (has_tag t) = querySelector_in d root (has_tag t)"
  "frame_except X d d' \<Longrightarrow> querySelector_in d' root (has_class c) = querySelector_in d root (has_class c)"
  by (simp_all add: frame_except_def querySelector_in_def has_tag_def has_class_def)

lemma frame_except_attributes:
  "frame_except X d d' \<Longrightarrow> n \<notin> X \<Longrightarrow> attributes (elem d' n) = attributes (elem d n)"
  by (simp add: frame_except_def)

lemma frame_except_reflect:
  "frame_except X d d' \<Longrightarrow> n \<notin> X \<Longrightarrow> reflect (elem d' n) a = reflect (elem d n) a"
  by (simp add: frame_except_def reflect_def)

lemma frame_except_update_elem:
  "tagName (g (elem d n)) = tagName (elem d n) \<Longrightarrow> classList (g (elem d n)) = classList (elem d n) \<Longrightarrow>
   ancestors (g (elem d n)) = ancestors (elem d n) \<Longrightarrow>
   n \<in> X \<or> attributes (g (elem d n)) = attributes (elem d n) \<Longrightarrow>
   frame_except X d (update_elem n g d)"
  by (auto simp: frame_except_def elem_update_elem)

lemma frame_except_focus [simp]: "frame_except X d (focus n d)"
  by (simp add: frame_except_def focus_def)

lemma frame_except_on_elem:
  "(\<And>e. tagName (g e) = tagName e \<and> classList (g e) = classList e \<and> ancestors (g e) = ancestors e \<and>
        attributes (g e) = attributes e) \<Longrightarrow>
   frame_except X (doc s) (doc (on_elem el g s))"
  by (cases el) (simp_all add: on_elem_def frame_except_update_elem)

lemma frame_except_on_elem_own:
  "(\<And>e. tagName (g e) = tagName e \<and> classList (g e) = classList e \<and> ancestors (g e) = ancestors e) \<Longrightarrow>
   set_option el \<subseteq> X \<Longrightarrow>
   frame_except X (doc s) (doc (on_elem el g s))"
  by (cases el) (simp_all add: on_elem_def frame_except_update_elem)

lemma frame_except_loadCurrentImage: "frame_except X (doc s) (doc (loadCurrentImage s))"
  by (simp add: loadCurrentImage_def lb_showLoadingState_def Let_def frame_except_on_elem
      split: option.splits)

lemma frame_except_on_elem2:
  "(\<And>e. tagName (g e) = tagName e \<and> classList (g e) = classList e \<and> ancestors (g e) = ancestors e \<and>
        attributes (g e) = attributes e) \<Longrightarrow>
   (\<And>e. tagName (g' e) = tagName e \<and> classList (g' e) = classList e \<and> ancestors (g' e) = ancestors e \<and>
        attributes (g' e) = attributes e) \<Longrightarrow>
   frame_except X (doc s) (doc (on_elem el' g' (on_elem el g s)))"
  by (rule frame_except_trans [OF frame_except_on_elem frame_except_on_elem])

lemma frame_except_updateNavigation: "frame_except X (doc s) (doc (updateNavigation s))"
  by (simp add: updateNavigation_def frame_except_on_elem2)

lemma frame_except_updateCounter: "frame_except X (doc s) (doc (updateCounter s))"
  by (simp add: updateCounter_def frame_except_update_elem split: option.splits)

lemma frame_except_reload:
  "frame_except X (doc s) (doc (updateCounter (updateNavigation (loadCurrentImage s))))"
  by (rule frame_except_trans [OF frame_except_trans
        [OF frame_except_loadCurrentImage frame_except_updateNavigation] frame_except_updateCounter])

lemma frame_except_open_timer_callback: "frame_except X (doc s) (doc (open_timer_callback s))"
proof -
  have "frame_except X (doc s) (doc (updateCounter (updateNavigation (loadCurrentImage s))))"
    by (rule frame_except_reload)
  moreover have "frame_except X (doc (updateCounter (updateNavigation (loadCurrentImage s))))
      (doc (open_timer_callback s))"
    by (simp add: open_timer_callback_def Let_def split: option.splits)
  ultimately show ?thesis by (rule frame_except_trans)
qed

lemma frame_except_showNextImage: "frame_except X (doc s) (doc (showNextImage s))"
proof (cases "\<not> isOpen s \<or> length (galleryItems s) \<le> 1")
  case True
  then show ?thesis by (simp add: showNextImage_def)
next
  case False
  let ?s1 = "s\<lparr>currentIndex := (if currentIndex s < length (galleryItems s) - 1
                                       then currentIndex s + 1 else 0)\<rparr>"
  have "frame_except X (doc ?s1) (doc (updateCounter (updateNavigation (loadCurrentImage ?s1))))"
    by (rule frame_except_reload)
  then show ?thesis using False by (simp add: showNextImage_def Let_def)
qed

lemma frame_except_openLightbox:
  "set_option (lightbox s) \<subseteq> X \<Longrightarrow> frame_except X (doc s) (doc (openLightbox index s))"
  by (auto simp: openLightbox_def Let_def on_doc_def frame_except_def elem_update_elem
      split: option.splits)

lemma frame_except_updateImageInfo: "frame_except X (doc s) (doc (updateImageInfo ov s))"
  unfolding updateImageInfo_def Let_def
  by (rule frame_except_on_elem2) simp_all

lemma frame_except_image_onload:
  assumes "set_option (lightboxImage s) \<subseteq> X"
  shows "frame_except X (doc s) (doc (image_onload l s))"
proof -
  let ?s1 = "lb_hideLoadingState s"
  let ?s2 = "on_elem (lightboxImage ?s1) (setAttribute ''src'' (load_src l)) ?s1"
  let ?s3 = "on_elem (lightboxImage ?s2) (setAttribute ''alt'' (load_alt l)) ?s2"
  have 1: "frame_except X (doc s) (doc ?s1)"
    by (simp add: lb_hideLoadingState_def frame_except_on_elem)
  have 2: "frame_except X (doc ?s1) (doc ?s2)"
    using assms by (intro frame_except_on_elem_own) simp_all
  have 3: "frame_except X (doc ?s2) (doc ?s3)"
    using assms by (intro frame_except_on_elem_own) simp_all
  have 4: "frame_except X (doc ?s3) (doc (updateImageInfo (load_overlay l) ?s3))"
    by (rule frame_except_updateImageInfo)
  have "image_onload l s = updateImageInfo (load_overlay l) ?s3"
    by (simp add: image_onload_def Let_def)
  with frame_except_trans [OF frame_except_trans [OF frame_except_trans [OF 1 2] 3] 4]
  show ?thesis by simp
qed

lemma element_vars_on_doc [simp]: "element_vars (on_doc f s) = element_vars s"
  by (simp add: element_vars_def on_doc_def)

lemma element_vars_on_elem [simp]: "element_vars (on_elem el g s) = element_vars s"
  by (simp add: on_elem_def split: option.splits)

lemma element_vars_updates [simp]:
  "element_vars (s\<lparr>currentIndex := i\<rparr>) = element_vars s"
  "element_vars (s\<lparr>openTimers := t\<rparr>) = element_vars s"
  "element_vars (s\<lparr>imageLoads := ls\<rparr>) = element_vars s"
  "element_vars (announceToScreenReader m s) = element_vars s"
  by (simp_all add: element_vars_def announceToScreenReader_def)

lemma element_vars_loadCurrentImage [simp]: "element_vars (loadCurrentImage s) = element_vars s"
  by (simp add: loadCurrentImage_def lb_showLoadingState_def Let_def split: option.splits)

lemma element_vars_updateNavigation [simp]: "element_vars (updateNavigation s) = element_vars s"
  by (simp add: updateNavigation_def)

lemma element_vars_updateCounter [simp]: "element_vars (updateCounter s) = element_vars s"
  by (simp add: updateCounter_def split: option.splits)

lemma element_vars_open_timer_callback [simp]: "element_vars (open_timer_callback s) = element_vars s"
  by (simp add: open_timer_callback_def Let_def split: option.splits)

lemma element_vars_showNextImage [simp]: "element_vars (showNextImage s) = element_vars s"
  by (simp add: showNextImage_def Let_def)

lemma element_vars_openLightbox [simp]: "element_vars (openLightbox index s) = element_vars s"
  by (simp add: openLightbox_def Let_def element_vars_def on_doc_def announceToScreenReader_def
      split: option.splits)

lemma element_vars_image_onload [simp]: "element_vars (image_onload l s) = element_vars s"
  by (simp add: image_onload_def updateImageInfo_def lb_hideLoadingState_def Let_def)

lemma imageLoads_open_timer_callback:
  "imageLoads (open_timer_callback s) = imageLoads (loadCurrentImage s)"
  by (simp add: open_timer_callback_def Let_def split: option.splits)

lemma imageLoads_showNextImage:
  "isOpen s \<Longrightarrow> length (galleryItems s) > 1 \<Longrightarrow>
   imageLoads (showNextImage s) =
     imageLoads (loadCurrentImage (s\<lparr>currentIndex := (if currentIndex s < length (galleryItems s) - 1
                                       then currentIndex s + 1 else 0)\<rparr>))"
  by (simp add: showNextImage_def Let_def)

lemma imageLoads_image_onload [simp]: "imageLoads (image_onload l s) = imageLoads s"
  by (simp add: image_onload_def updateImageInfo_def lb_hideLoadingState_def Let_def)

lemma openLightbox_pending:
  "imageLoads (openLightbox index s) = imageLoads s"
  "lightbox s \<noteq> None \<Longrightarrow> 0 \<le> index \<Longrightarrow> index < int (length (galleryItems s)) \<Longrightarrow>
   openTimers (openLightbox index s) = Suc (openTimers s)"
  by (auto simp: openLightbox_def Let_def on_doc_def announceToScreenReader_def split: option.splits)

lemma currentIndex_open_timer_callback [simp]:
  "currentIndex (open_timer_callback s) = currentIndex s"
  by (simp add: open_timer_callback_def Let_def split: option.splits)

lemma loadCurrentImage_framed:
  "frame_except X d (doc s) \<Longrightarrow> lightboxImage s = Some im \<Longrightarrow>
   item_at (galleryItems s) (currentIndex s) = Some item \<Longrightarrow>
   querySelector_in d item (has_tag ''img'') = Some img \<Longrightarrow> img \<notin> X \<Longrightarrow>
   imageLoads (loadCurrentImage s) = imageLoads s @
     [\<lparr>load_src = (case attributes (elem d img) ''data-full'' of
                      None \<Rightarrow> reflect (elem d img) ''src''
                    | Some v \<Rightarrow> if v \<noteq> [] then v else reflect (elem d img) ''src''),
       load_alt = reflect (elem d img) ''alt'',
       load_overlay = querySelector_in d item (has_class ''gallery-overlay'')\<rparr>]"
  using loadCurrentImage_captures [of s im item img]
  by (simp add: frame_except_querySelector_in frame_except_attributes frame_except_reflect
      split: option.splits)

subsection \<open>A session on the example gallery\<close>

lemma example_lightbox_vars:
  "lightbox example_lightbox_state = Some 60"
  "lightboxImage example_lightbox_state = Some 61"
  "lightboxClose example_lightbox_state = Some 62"
  "lightboxPrev example_lightbox_state = Some 63"
  "lightboxNext example_lightbox_state = Some 64"
  "lightboxTitle example_lightbox_state = None"
  "lightboxDescription example_lightbox_state = None"
  "lightboxCounter example_lightbox_state = None"
  "galleryItems example_lightbox_state = [51, 53]"
  "itemListeners example_lightbox_state = [(51, 0), (53, 1)]"
  "doc example_lightbox_state = example_gallery_page"
  "isOpen example_lightbox_state = False"
  "currentIndex example_lightbox_state = 0"
  "imageLoads example_lightbox_state = []"
  "openTimers example_lightbox_state = 0"
  "focusedElementBeforeModal example_lightbox_state = None"
  by (simp_all add: example_lightbox_state_def lightbox_init_def setupLightbox_def setupGalleryItems_def
      initial_lightbox_state_def example_gallery_page_def blank_element_def getElementById_def
      querySelector_class_def querySelectorAll_in_def querySelector_in_def has_class_def Let_def)

lemma example_gallery_facts:
  "body example_gallery_page = 2"
  "nodes example_gallery_page = [1, 2, 50, 51, 52, 53, 54, 60, 61, 62, 63, 64]"
  "activeElement example_gallery_page = Some 51"
  by (simp_all add: example_gallery_page_def)

lemma example_gallery_items:
  "querySelector_in example_gallery_page 51 (has_tag ''img'') = Some 52"
  "querySelector_in example_gallery_page 53 (has_tag ''img'') = Some 54"
  "querySelector_in example_gallery_page 51 (has_class ''gallery-overlay'') = None"
  "querySelector_in example_gallery_page 53 (has_class ''gallery-overlay'') = None"
  "attributes (elem example_gallery_page 52) ''data-full'' = Some ''a-full.jpg''"
  "attributes (elem example_gallery_page 54) ''data-full'' = Some ''b-full.jpg''"
  "reflect (elem example_gallery_page 52) ''alt'' = ''First''"
  "reflect (elem example_gallery_page 54) ''alt'' = ''Second''"
  by (simp_all add: example_gallery_page_def querySelector_in_def has_tag_def has_class_def
      blank_element_def reflect_def)

lemma run_events_snoc: "run_events (evs @ [ev]) s = lightbox_step ev (run_events evs s)"
  by (simp add: run_events_def)

lemma example_vars:
  assumes "element_vars s = element_vars example_lightbox_state"
  shows "lightbox s = Some 60" "lightboxImage s = Some 61" "lightboxClose s = Some 62"
    "lightboxPrev s = Some 63" "lightboxNext s = Some 64" "galleryItems s = [51, 53]"
  using assms by (simp_all add: element_vars_def example_lightbox_vars)

lemma example_session_activate:
  "element_vars (run_events [ActivateItem 51] example_lightbox_state) = element_vars example_lightbox_state"
  "frame_except {60, 61} example_gallery_page (doc (run_events [ActivateItem 51] example_lightbox_state))"
  "isOpen (run_events [ActivateItem 51] example_lightbox_state)"
  "currentIndex (run_events [ActivateItem 51] example_lightbox_state) = 0"
  "imageLoads (run_events [ActivateItem 51] example_lightbox_state) = []"
  "openTimers (run_events [ActivateItem 51] example_lightbox_state) = Suc 0"
  "focusedElementBeforeModal (run_events [ActivateItem 51] example_lightbox_state) = Some 51"
proof -
  have r: "run_events [ActivateItem 51] example_lightbox_state = openLightbox 0 example_lightbox_state"
    by (simp add: run_events_def example_lightbox_vars)
  have v: "lightbox example_lightbox_state \<noteq> None" "(0::int) \<le> 0"
    "0 < int (length (galleryItems example_lightbox_state))"
    by (simp_all add: example_lightbox_vars)
  show "element_vars (run_events [ActivateItem 51] example_lightbox_state) = element_vars example_lightbox_state"
    unfolding r by simp
  have "frame_except {60, 61} (doc example_lightbox_state) (doc (openLightbox 0 example_lightbox_state))"
    by (rule frame_except_openLightbox) (simp add: example_lightbox_vars)
  then show "frame_except {60, 61} example_gallery_page (doc (run_events [ActivateItem 51] example_lightbox_state))"
    unfolding r by (simp add: example_lightbox_vars)
  note o = openLightbox_opened [OF v]
  show "isOpen (run_events [ActivateItem 51] example_lightbox_state)"
    unfolding r using o by blast
  show "currentIndex (run_events [ActivateItem 51] example_lightbox_state) = 0"
    unfolding r using o by simp
  show "imageLoads (run_events [ActivateItem 51] example_lightbox_state) = []"
    unfolding r by (simp add: openLightbox_pending(1) example_lightbox_vars)
  show "openTimers (run_events [ActivateItem 51] example_lightbox_state) = Suc 0"
    unfolding r using openLightbox_pending(2) [OF v] by (simp add: example_lightbox_vars)
  show "focusedElementBeforeModal (run_events [ActivateItem 51] example_lightbox_state) = Some 51"
    unfolding r using o by (simp add: example_lightbox_vars example_gallery_facts)
qed

lemma example_session_timer:
  "element_vars (run_events [ActivateItem 51, OpenTimer] example_lightbox_state)
     = element_vars example_lightbox_state"
  "frame_except {60, 61} example_gallery_page
     (doc (run_events [ActivateItem 51, OpenTimer] example_lightbox_state))"
  "isOpen (run_events [ActivateItem 51, OpenTimer] example_lightbox_state)"
  "currentIndex (run_events [ActivateItem 51, OpenTimer] example_lightbox_state) = 0"
  "imageLoads (run_events [ActivateItem 51, OpenTimer] example_lightbox_state)
     = [\<lparr>load_src = ''a-full.jpg'', load_alt = ''First'', load_overlay = None\<rparr>]"
proof -
  let ?S1 = "run_events [ActivateItem 51] example_lightbox_state"
  let ?T = "?S1\<lparr>openTimers := openTimers ?S1 - 1\<rparr>"
  have r: "run_events [ActivateItem 51, OpenTimer] example_lightbox_state = open_timer_callback ?T"
    using run_events_snoc [of "[ActivateItem 51]" OpenTimer example_lightbox_state]
    by (simp add: example_session_activate(6))
  have v: "element_vars ?T = element_vars example_lightbox_state"
    by (simp add: example_session_activate(1))
  have f: "frame_except {60, 61} example_gallery_page (doc ?T)"
    using example_session_activate(2) by simp
  show "element_vars (run_events [ActivateItem 51, OpenTimer] example_lightbox_state)
     = element_vars example_lightbox_state"
    unfolding r by (simp add: example_session_activate(1))
  show "frame_except {60, 61} example_gallery_page
     (doc (run_events [ActivateItem 51, OpenTimer] example_lightbox_state))"
    unfolding r by (rule frame_except_trans [OF f frame_except_open_timer_callback])
  show "isOpen (run_events [ActivateItem 51, OpenTimer] example_lightbox_state)"
    "currentIndex (run_events [ActivateItem 51, OpenTimer] example_lightbox_state) = 0"
    unfolding r by (simp_all add: example_session_activate)
  have "imageLoads (loadCurrentImage ?T) = imageLoads ?T @
     [\<lparr>load_src = (case attributes (elem example_gallery_page 52) ''data-full'' of
                      None \<Rightarrow> reflect (elem example_gallery_page 52) ''src''
                    | Some v \<Rightarrow> if v \<noteq> [] then v else reflect (elem example_gallery_page 52) ''src''),
       load_alt = reflect (elem example_gallery_page 52) ''alt'',
       load_overlay = querySelector_in example_gallery_page 51 (has_class ''gallery-overlay'')\<rparr>]"
    by (rule loadCurrentImage_framed [OF f example_vars(2) [OF v]])
       (simp_all add: example_vars(6) [OF example_session_activate(1)] item_at_def
          example_session_activate example_gallery_items)
  then show "imageLoads (run_events [ActivateItem 51, OpenTimer] example_lightbox_state)
     = [\<lparr>load_src = ''a-full.jpg'', load_alt = ''First'', load_overlay = None\<rparr>]"
    unfolding r by (simp add: imageLoads_open_timer_callback example_gallery_items example_session_activate)
qed

lemma example_session_next:
  "element_vars (run_events [ActivateItem 51, OpenTimer, ClickNext] example_lightbox_state)
     = element_vars example_lightbox_state"
  "frame_except {60, 61} example_gallery_page
     (doc (run_events [ActivateItem 51, OpenTimer, ClickNext] example_lightbox_state))"
  "isOpen (run_events [ActivateItem 51, OpenTimer, ClickNext] example_lightbox_state)"
  "currentIndex (run_events [ActivateItem 51, OpenTimer, ClickNext] example_lightbox_state) = 1"
  "imageLoads (run_events [ActivateItem 51, OpenTimer, ClickNext] example_lightbox_state)
     = [\<lparr>load_src = ''a-full.jpg'', load_alt = ''First'', load_overlay = None\<rparr>,
        \<lparr>load_src = ''b-full.jpg'', load_alt = ''Second'', load_overlay = None\<rparr>]"
proof -
  let ?S2 = "run_events [ActivateItem 51, OpenTimer] example_lightbox_state"
  let ?T = "?S2\<lparr>currentIndex := 1\<rparr>"
  note v2 = example_session_timer(1)
  have r: "run_events [ActivateItem 51, OpenTimer, ClickNext] example_lightbox_state = showNextImage ?S2"
    using run_events_snoc [of "[ActivateItem 51, OpenTimer]" ClickNext example_lightbox_state]
    by (simp add: example_vars [OF v2])
  have v: "element_vars ?T = element_vars example_lightbox_state"
    by (simp add: v2)
  have f: "frame_except {60, 61} example_gallery_page (doc ?T)"
    using example_session_timer(2) by simp
  show "element_vars (run_events [ActivateItem 51, OpenTimer, ClickNext] example_lightbox_state)
     = element_vars example_lightbox_state"
    unfolding r by (simp add: v2)
  show "frame_except {60, 61} example_gallery_page
     (doc (run_events [ActivateItem 51, OpenTimer, ClickNext] example_lightbox_state))"
    unfolding r by (rule frame_except_trans [OF example_session_timer(2) frame_except_showNextImage])
  show "isOpen (run_events [ActivateItem 51, OpenTimer, ClickNext] example_lightbox_state)"
    unfolding r by (simp add: example_session_timer)
  show "currentIndex (run_events [ActivateItem 51, OpenTimer, ClickNext] example_lightbox_state) = 1"
    unfolding r by (simp add: showNextImage_index example_session_timer example_vars [OF v2])
  have "imageLoads (loadCurrentImage ?T) = imageLoads ?T @
     [\<lparr>load_src = (case attributes (elem example_gallery_page 54) ''data-full'' of
                      None \<Rightarrow> reflect (elem example_gallery_page 54) ''src''
                    | Some v \<Rightarrow> if v \<noteq> [] then v else reflect (elem example_gallery_page 54) ''src''),
       load_alt = reflect (elem example_gallery_page 54) ''alt'',
       load_overlay = querySelector_in example_gallery_page 53 (has_class ''gallery-overlay'')\<rparr>]"
    by (rule loadCurrentImage_framed [OF f example_vars(2) [OF v]])
       (simp_all add: example_vars(6) [OF v2] item_at_def example_gallery_items)
  then show "imageLoads (run_events [ActivateItem 51, OpenTimer, ClickNext] example_lightbox_state)
     = [\<lparr>load_src = ''a-full.jpg'', load_alt = ''First'', load_overlay = None\<rparr>,
        \<lparr>load_src = ''b-full.jpg'', load_alt = ''Second'', load_overlay = None\<rparr>]"
    unfolding r
    by (simp add: imageLoads_showNextImage example_session_timer example_vars [OF v2]
        example_gallery_items)
qed

lemma example_session_loaded:
  "element_vars (run_events [ActivateItem 51, OpenTimer, ClickNext, ImageLoaded (Suc 0)] example_lightbox_state)
     = element_vars example_lightbox_state"
  "frame_except {60, 61} example_gallery_page
     (doc (run_events [ActivateItem 51, OpenTimer, ClickNext, ImageLoaded (Suc 0)] example_lightbox_state))"
  "isOpen (run_events [ActivateItem 51, OpenTimer, ClickNext, ImageLoaded (Suc 0)] example_lightbox_state)"
  "currentIndex (run_events [ActivateItem 51, OpenTimer, ClickNext, ImageLoaded (Suc 0)] example_lightbox_state) = 1"
  "imageLoads (run_events [ActivateItem 51, OpenTimer, ClickNext, ImageLoaded (Suc 0)] example_lightbox_state)
     = [\<lparr>load_src = ''a-full.jpg'', load_alt = ''First'', load_overlay = None\<rparr>]"
  "reflect (elem (doc (run_events [ActivateItem 51, OpenTimer, ClickNext, ImageLoaded (Suc 0)]
     example_lightbox_state)) 61) ''src'' = ''b-full.jpg''"
proof -
  let ?S3 = "run_events [ActivateItem 51, OpenTimer, ClickNext] example_lightbox_state"
  let ?l = "\<lparr>load_src = ''b-full.jpg'', load_alt = ''Second'', load_overlay = None\<rparr>"
  let ?T = "?S3\<lparr>imageLoads := [\<lparr>load_src = ''a-full.jpg'', load_alt = ''First'', load_overlay = None\<rparr>]\<rparr>"
  note v3 = example_session_next(1)
  have r: "run_events [ActivateItem 51, OpenTimer, ClickNext, ImageLoaded (Suc 0)] example_lightbox_state
      = image_onload ?l ?T"
    using run_events_snoc [of "[ActivateItem 51, OpenTimer, ClickNext]" "ImageLoaded (Suc 0)" example_lightbox_state]
    by (simp add: example_session_next(5))
  have v: "element_vars ?T = element_vars example_lightbox_state" by (simp add: v3)
  have f: "frame_except {60, 61} example_gallery_page (doc ?T)"
    using example_session_next(2) by simp
  have im: "lightboxImage ?T = Some 61" by (rule example_vars(2) [OF v])
  show "element_vars (run_events [ActivateItem 51, OpenTimer, ClickNext, ImageLoaded (Suc 0)] example_lightbox_state)
     = element_vars example_lightbox_state"
    unfolding r by (simp add: v3)
  have "frame_except {60, 61} (doc ?T) (doc (image_onload ?l ?T))"
    by (rule frame_except_image_onload) (simp add: im)
  then show "frame_except {60, 61} example_gallery_page
     (doc (run_events [ActivateItem 51, OpenTimer, ClickNext, ImageLoaded (Suc 0)] example_lightbox_state))"
    unfolding r by (rule frame_except_trans [OF f])
  show "isOpen (run_events [ActivateItem 51, OpenTimer, ClickNext, ImageLoaded (Suc 0)] example_lightbox_state)"
    "currentIndex (run_events [ActivateItem 51, OpenTimer, ClickNext, ImageLoaded (Suc 0)] example_lightbox_state) = 1"
    "imageLoads (run_events [ActivateItem 51, OpenTimer, ClickNext, ImageLoaded (Suc 0)] example_lightbox_state)
     = [\<lparr>load_src = ''a-full.jpg'', load_alt = ''First'', load_overlay = None\<rparr>]"
    unfolding r by (simp_all add: example_session_next)
  show "reflect (elem (doc (run_events [ActivateItem 51, OpenTimer, ClickNext, ImageLoaded (Suc 0)]
     example_lightbox_state)) 61) ''src'' = ''b-full.jpg''"
    unfolding r using image_onload_attributes [OF im, of ?l] by (simp add: reflect_def)
qed

subsection \<open>Navigation\<close>

text \<open>
  Claim C5. Navigation is cyclic over a gallery of \<open>N\<close> items: with the lightbox open at index
  \<open>N - 1\<close>, \<open>showNextImage\<close> sets the current index to 0, and with it open at index 0,
  \<open>showPreviousImage\<close> sets the current index to \<open>N - 1\<close>. From any index inside the gallery
  the two functions step by one modulo \<open>N\<close>.
\<close>

theorem lightbox_navigation_cyclic:
  "(isOpen s \<and> galleryItems s \<noteq> [] \<and> currentIndex s = length (galleryItems s) - 1 \<longrightarrow>
      currentIndex (showNextImage s) = 0) \<and>
   (isOpen s \<and> galleryItems s \<noteq> [] \<and> currentIndex s = 0 \<longrightarrow>
      currentIndex (showPreviousImage s) = length (galleryItems s) - 1) \<and>
   (isOpen s \<and> currentIndex s < length (galleryItems s) \<longrightarrow>
      currentIndex (showNextImage s) = (currentIndex s + 1) mod length (galleryItems s) \<and>
      currentIndex (showPreviousImage s)
        = (currentIndex s + length (galleryItems s) - 1) mod length (galleryItems s))"
proof -
  have a: "currentIndex (showNextImage s) = 0"
    if "isOpen s" "galleryItems s \<noteq> []" "currentIndex s = length (galleryItems s) - 1"
    using that by (simp add: showNextImage_index)
  have b: "currentIndex (showPreviousImage s) = length (galleryItems s) - 1"
    if "isOpen s" "galleryItems s \<noteq> []" "currentIndex s = 0"
    using that by (cases "galleryItems s") (auto simp: showPreviousImage_index)
  have c: "currentIndex (showNextImage s) = (currentIndex s + 1) mod length (galleryItems s)"
    if "isOpen s" "currentIndex s < length (galleryItems s)"
  proof (cases "currentIndex s < length (galleryItems s) - 1")
    case True
    then show ?thesis using that by (simp add: showNextImage_index)
  next
    case False
    with that have "currentIndex s + 1 = length (galleryItems s)" by simp
    then show ?thesis using that False by (simp add: showNextImage_index)
  qed
  have d: "currentIndex (showPreviousImage s)
        = (currentIndex s + length (galleryItems s) - 1) mod length (galleryItems s)"
    if "isOpen s" "currentIndex s < length (galleryItems s)"
  proof (cases "currentIndex s")
    case 0
    then show ?thesis using that by (auto simp: showPreviousImage_index)
  next
    case (Suc i)
    then have "(currentIndex s + length (galleryItems s) - 1) mod length (galleryItems s)
        = (i + length (galleryItems s)) mod length (galleryItems s)" by simp
    also have "\<dots> = i" using that Suc by simp
    finally show ?thesis using that Suc by (simp add: showPreviousImage_index)
  qed
  show ?thesis using a b c d by blast
qed

text \<open>The theorem on the example gallery (two items), opened at its last and at its first
  item.\<close>

theorem lightbox_navigation_cyclic_witness:
  "isOpen (openLightbox 1 example_lightbox_state) \<and>
   length (galleryItems (openLightbox 1 example_lightbox_state)) = 2 \<and>
   currentIndex (openLightbox 1 example_lightbox_state) = 1 \<and>
   currentIndex (showNextImage (openLightbox 1 example_lightbox_state)) = 0 \<and>
   isOpen (openLightbox 0 example_lightbox_state) \<and>
   currentIndex (openLightbox 0 example_lightbox_state) = 0 \<and>
   currentIndex (showPreviousImage (openLightbox 0 example_lightbox_state)) = 1"
proof -
  have l: "lightbox example_lightbox_state \<noteq> None" by (simp add: example_lightbox_vars)
  have g: "galleryItems (openLightbox index example_lightbox_state) = [51, 53]" for index
    by (rule example_vars(6)) simp
  have o1: "isOpen (openLightbox 1 example_lightbox_state)"
    "currentIndex (openLightbox 1 example_lightbox_state) = 1"
    using openLightbox_opened [OF l, of 1] by (simp_all add: example_lightbox_vars)
  have o0: "isOpen (openLightbox 0 example_lightbox_state)"
    "currentIndex (openLightbox 0 example_lightbox_state) = 0"
    using openLightbox_opened [OF l, of 0] by (simp_all add: example_lightbox_vars)
  from lightbox_navigation_cyclic [of "openLightbox 1 example_lightbox_state"] o1
  have n: "currentIndex (showNextImage (openLightbox 1 example_lightbox_state)) = 0"
    by (simp add: g)
  from lightbox_navigation_cyclic [of "openLightbox 0 example_lightbox_state"] o0
  have p: "currentIndex (showPreviousImage (openLightbox 0 example_lightbox_state)) = 1"
    by (simp add: g)
  show ?thesis using o1 o0 n p by (simp add: g)
qed

subsection \<open>Focus\<close>

text \<open>
  Claim C6. When the lightbox has been opened by \<open>openLightbox\<close> while the element \<open>e\<close> had the
  focus, then after any sequence of events that neither open nor close it (navigation by
  buttons and keys, completed and failed image loads, the focus moving inside the lightbox,
  resizing, a refresh) the lightbox is still open, and closing it gives the focus back to
  \<open>e\<close>, whether it is closed by \<open>closeLightbox\<close> itself (the close button and the overlay), by
  the public API, by the Escape key or by the page becoming hidden.
\<close>

theorem closeLightbox_restores_focus:
  "lightbox s \<noteq> None \<and> 0 \<le> index \<and> index < int (length (galleryItems s)) \<and>
   activeElement (doc s) = Some e \<and> (\<forall>ev\<in>set evs. navigation_event ev) \<longrightarrow>
   (let opened = run_events evs (openLightbox index s)
    in isOpen opened \<and>
       activeElement (doc (closeLightbox opened)) = Some e \<and>
       activeElement (doc (lightbox_step ApiCloseLightbox opened)) = Some e \<and>
       activeElement (doc (lightbox_step (KeyDown ''Escape'' shiftKey) opened)) = Some e \<and>
       activeElement (doc (lightbox_step VisibilityHidden opened)) = Some e)"
proof (intro impI, elim conjE)
  assume lb: "lightbox s \<noteq> None" and i: "0 \<le> index" "index < int (length (galleryItems s))"
    and a: "activeElement (doc s) = Some e" and nav: "\<forall>ev\<in>set evs. navigation_event ev"
  let ?opened = "run_events evs (openLightbox index s)"
  from openLightbox_opened [OF lb i] navigation_run [OF nav, of "openLightbox index s"] a lb
  have v: "lightbox ?opened \<noteq> None" "isOpen ?opened" "focusedElementBeforeModal ?opened = Some e"
    by simp_all
  from closeLightbox_focus [OF v] have c: "activeElement (doc (closeLightbox ?opened)) = Some e"
    by simp
  show "let opened = ?opened
    in isOpen opened \<and>
       activeElement (doc (closeLightbox opened)) = Some e \<and>
       activeElement (doc (lightbox_step ApiCloseLightbox opened)) = Some e \<and>
       activeElement (doc (lightbox_step (KeyDown ''Escape'' shiftKey) opened)) = Some e \<and>
       activeElement (doc (lightbox_step VisibilityHidden opened)) = Some e"
    unfolding Let_def using v c by (simp add: handleKeydown_def)
qed

text \<open>The theorem on the example gallery: opened at the second item from the first item,
  which has the focus, then navigated forth and back, the focus having moved to the next
  button.\<close>

theorem closeLightbox_restores_focus_witness:
  "activeElement (doc example_lightbox_state) = Some 51 \<and>
   activeElement (doc (run_events [OpenTimer, ClickNext, KeyDown ''ArrowLeft'' False, FocusMoved (Some 64)]
     (openLightbox 1 example_lightbox_state))) = Some 64 \<and>
   isOpen (run_events [OpenTimer, ClickNext, KeyDown ''ArrowLeft'' False, FocusMoved (Some 64)]
     (openLightbox 1 example_lightbox_state)) \<and>
   activeElement (doc (closeLightbox
     (run_events [OpenTimer, ClickNext, KeyDown ''ArrowLeft'' False, FocusMoved (Some 64)]
       (openLightbox 1 example_lightbox_state)))) = Some 51 \<and>
   activeElement (doc (lightbox_step (KeyDown ''Escape'' False)
     (run_events [OpenTimer, ClickNext, KeyDown ''ArrowLeft'' False, FocusMoved (Some 64)]
       (openLightbox 1 example_lightbox_state)))) = Some 51"
proof -
  have h: "lightbox example_lightbox_state \<noteq> None" "(0::int) \<le> 1"
    "1 < int (length (galleryItems example_lightbox_state))"
    "activeElement (doc example_lightbox_state) = Some 51"
    "\<forall>ev\<in>set [OpenTimer, ClickNext, KeyDown ''ArrowLeft'' False, FocusMoved (Some 64)].
       navigation_event ev"
    by (simp_all add: example_lightbox_vars example_gallery_facts)
  have m: "activeElement (doc (run_events [OpenTimer, ClickNext, KeyDown ''ArrowLeft'' False, FocusMoved (Some 64)]
     (openLightbox 1 example_lightbox_state))) = Some 64"
    using run_events_snoc [of "[OpenTimer, ClickNext, KeyDown ''ArrowLeft'' False]" "FocusMoved (Some 64)"
        "openLightbox 1 example_lightbox_state"]
    by (simp only: lightbox_step.simps(16) on_doc_simps) simp
  from closeLightbox_restores_focus
    [where s = example_lightbox_state and index = 1 and e = 51 and shiftKey = False
       and evs = "[OpenTimer, ClickNext, KeyDown ''ArrowLeft'' False, FocusMoved (Some 64)]"] h
  have "isOpen (run_events [OpenTimer, ClickNext, KeyDown ''ArrowLeft'' False, FocusMoved (Some 64)]
     (openLightbox 1 example_lightbox_state)) \<and>
   activeElement (doc (closeLightbox
     (run_events [OpenTimer, ClickNext, KeyDown ''ArrowLeft'' False, FocusMoved (Some 64)]
       (openLightbox 1 example_lightbox_state)))) = Some 51 \<and>
   activeElement (doc (lightbox_step (KeyDown ''Escape'' False)
     (run_events [OpenTimer, ClickNext, KeyDown ''ArrowLeft'' False, FocusMoved (Some 64)]
       (openLightbox 1 example_lightbox_state)))) = Some 51"
    unfolding Let_def by blast
  with h(4) m show ?thesis by blast
qed

subsection \<open>Image loads that complete late\<close>

text \<open>
  Claim C7, as the code has it. A preload started by \<open>loadCurrentImage\<close> captures the full-size
  URL, the alt text and the overlay of the item that is current when it starts; navigation
  by \<open>showNextImage\<close> and \<open>showPreviousImage\<close> keeps every pending preload; and when a pending
  preload completes, its \<open>onload\<close> handler sets the \<open>src\<close> and \<open>alt\<close> of the lightbox image to the
  captured values, whatever the current index is by then, and leaves the index unchanged.
  There is no guard on the index or on a version.
\<close>

theorem image_onload_applies_unconditionally:
  "(lightboxImage s = Some im \<and> item_at (galleryItems s) (currentIndex s) = Some item \<and>
    querySelector_in (doc s) item (has_tag ''img'') = Some img \<longrightarrow>
      imageLoads (loadCurrentImage s) = imageLoads s @
        [\<lparr>load_src = (case attributes (elem (doc s) img) ''data-full'' of
                         None \<Rightarrow> reflect (elem (doc s) img) ''src''
                       | Some v \<Rightarrow> if v \<noteq> [] then v else reflect (elem (doc s) img) ''src''),
          load_alt = reflect (elem (doc s) img) ''alt'',
          load_overlay = querySelector_in (doc s) item (has_class ''gallery-overlay'')\<rparr>]) \<and>
   (k < length (imageLoads s) \<longrightarrow>
      k < length (imageLoads (showNextImage s)) \<and>
      imageLoads (showNextImage s) ! k = imageLoads s ! k \<and>
      k < length (imageLoads (showPreviousImage s)) \<and>
      imageLoads (showPreviousImage s) ! k = imageLoads s ! k) \<and>
   (k < length (imageLoads s) \<and> lightboxImage s = Some im \<longrightarrow>
      reflect (elem (doc (lightbox_step (ImageLoaded k) s)) im) ''src'' = load_src (imageLoads s ! k) \<and>
      reflect (elem (doc (lightbox_step (ImageLoaded k) s)) im) ''alt'' = load_alt (imageLoads s ! k) \<and>
      currentIndex (lightbox_step (ImageLoaded k) s) = currentIndex s)"
proof (intro conjI impI)
  assume "lightboxImage s = Some im \<and> item_at (galleryItems s) (currentIndex s) = Some item \<and>
    querySelector_in (doc s) item (has_tag ''img'') = Some img"
  then show "imageLoads (loadCurrentImage s) = imageLoads s @
        [\<lparr>load_src = (case attributes (elem (doc s) img) ''data-full'' of
                         None \<Rightarrow> reflect (elem (doc s) img) ''src''
                       | Some v \<Rightarrow> if v \<noteq> [] then v else reflect (elem (doc s) img) ''src''),
          load_alt = reflect (elem (doc s) img) ''alt'',
          load_overlay = querySelector_in (doc s) item (has_class ''gallery-overlay'')\<rparr>]"
    using loadCurrentImage_captures [of s im item img] by blast
next
  assume k: "k < length (imageLoads s)"
  from showNextImage_loads [of s] obtain xs where n: "imageLoads (showNextImage s) = imageLoads s @ xs" ..
  from showPreviousImage_loads [of s] obtain ys where p: "imageLoads (showPreviousImage s) = imageLoads s @ ys" ..
  show "k < length (imageLoads (showNextImage s))" using k n by simp
  show "imageLoads (showNextImage s) ! k = imageLoads s ! k" using k n by (simp add: nth_append)
  show "k < length (imageLoads (showPreviousImage s))" using k p by simp
  show "imageLoads (showPreviousImage s) ! k = imageLoads s ! k" using k p by (simp add: nth_append)
next
  assume a: "k < length (imageLoads s) \<and> lightboxImage s = Some im"
  let ?s0 = "s\<lparr>imageLoads := take k (imageLoads s) @ drop (Suc k) (imageLoads s)\<rparr>"
  have "lightboxImage ?s0 = Some im" using a by simp
  from image_onload_attributes [OF this, of "imageLoads s ! k"] a
  show "reflect (elem (doc (lightbox_step (ImageLoaded k) s)) im) ''src'' = load_src (imageLoads s ! k)"
    "reflect (elem (doc (lightbox_step (ImageLoaded k) s)) im) ''alt'' = load_alt (imageLoads s ! k)"
    "currentIndex (lightbox_step (ImageLoaded k) s) = currentIndex s"
    by (simp_all add: reflect_def)
qed

text \<open>The theorem on the example gallery after the first item has been activated and the
  next button clicked: the index is 1 and the preload of the first item is still pending.\<close>

theorem image_onload_applies_unconditionally_witness:
  "currentIndex (run_events [ActivateItem 51, OpenTimer, ClickNext] example_lightbox_state) = 1 \<and>
   imageLoads (run_events [ActivateItem 51, OpenTimer, ClickNext] example_lightbox_state) ! 0
     = \<lparr>load_src = ''a-full.jpg'', load_alt = ''First'', load_overlay = None\<rparr> \<and>
   imageLoads (loadCurrentImage (run_events [ActivateItem 51, OpenTimer, ClickNext] example_lightbox_state))
     = [\<lparr>load_src = ''a-full.jpg'', load_alt = ''First'', load_overlay = None\<rparr>,
        \<lparr>load_src = ''b-full.jpg'', load_alt = ''Second'', load_overlay = None\<rparr>,
        \<lparr>load_src = ''b-full.jpg'', load_alt = ''Second'', load_overlay = None\<rparr>] \<and>
   imageLoads (showNextImage (run_events [ActivateItem 51, OpenTimer, ClickNext] example_lightbox_state)) ! 0
     = \<lparr>load_src = ''a-full.jpg'', load_alt = ''First'', load_overlay = None\<rparr> \<and>
   reflect (elem (doc (lightbox_step (ImageLoaded 0)
     (run_events [ActivateItem 51, OpenTimer, ClickNext] example_lightbox_state))) 61) ''src''
     = ''a-full.jpg'' \<and>
   reflect (elem (doc (lightbox_step (ImageLoaded 0)
     (run_events [ActivateItem 51, OpenTimer, ClickNext] example_lightbox_state))) 61) ''alt''
     = ''First'' \<and>
   currentIndex (lightbox_step (ImageLoaded 0)
     (run_events [ActivateItem 51, OpenTimer, ClickNext] example_lightbox_state)) = 1"
proof -
  let ?S3 = "run_events [ActivateItem 51, OpenTimer, ClickNext] example_lightbox_state"
  note v3 = example_session_next(1)
  note f3 = example_session_next(2)
  have h: "lightboxImage ?S3 = Some 61" "item_at (galleryItems ?S3) (currentIndex ?S3) = Some 53"
    "querySelector_in (doc ?S3) 53 (has_tag ''img'') = Some 54" "0 < length (imageLoads ?S3)"
    by (simp_all add: example_vars [OF v3] example_session_next item_at_def
        frame_except_querySelector_in [OF f3] example_gallery_items)
  have e: "attributes (elem (doc ?S3) 54) ''data-full'' = Some ''b-full.jpg''"
    "reflect (elem (doc ?S3) 54) ''alt'' = ''Second''"
    "querySelector_in (doc ?S3) 53 (has_class ''gallery-overlay'') = None"
    by (simp_all add: frame_except_attributes [OF f3] frame_except_reflect [OF f3]
        frame_except_querySelector_in [OF f3] example_gallery_items)
  from image_onload_applies_unconditionally [where s = ?S3 and im = 61 and item = 53 and img = 54 and k = 0] h
  have "imageLoads (loadCurrentImage ?S3) = imageLoads ?S3 @
        [\<lparr>load_src = (case attributes (elem (doc ?S3) 54) ''data-full'' of
                         None \<Rightarrow> reflect (elem (doc ?S3) 54) ''src''
                       | Some v \<Rightarrow> if v \<noteq> [] then v else reflect (elem (doc ?S3) 54) ''src''),
          load_alt = reflect (elem (doc ?S3) 54) ''alt'',
          load_overlay = querySelector_in (doc ?S3) 53 (has_class ''gallery-overlay'')\<rparr>] \<and>
     imageLoads (showNextImage ?S3) ! 0 = imageLoads ?S3 ! 0 \<and>
     reflect (elem (doc (lightbox_step (ImageLoaded 0) ?S3)) 61) ''src'' = load_src (imageLoads ?S3 ! 0) \<and>
     reflect (elem (doc (lightbox_step (ImageLoaded 0) ?S3)) 61) ''alt'' = load_alt (imageLoads ?S3 ! 0) \<and>
     currentIndex (lightbox_step (ImageLoaded 0) ?S3) = currentIndex ?S3"
    by blast
  then show ?thesis
    unfolding e by (simp add: example_session_next del: lightbox_step.simps)
qed

text \<open>
  Claim C7 as stated fails: the result of an outdated load is displayed. On the example
  gallery the first item is activated and its preload starts at index 0; the next button moves the index to 1 and
  starts the preload of the second item, which completes first and is displayed; then the
  preload of the first item completes: the index is still 1, whose item names \<open>b-full.jpg\<close>,
  and the lightbox image shows \<open>a-full.jpg\<close>.
\<close>

theorem stale_image_load_counterexample:
  "currentIndex (run_events [ActivateItem 51, OpenTimer] example_lightbox_state) = 0 \<and>
   imageLoads (run_events [ActivateItem 51, OpenTimer] example_lightbox_state)
     = [\<lparr>load_src = ''a-full.jpg'', load_alt = ''First'', load_overlay = None\<rparr>] \<and>
   currentIndex (run_events [ActivateItem 51, OpenTimer, ClickNext] example_lightbox_state) = 1 \<and>
   reflect (elem (doc (run_events [ActivateItem 51, OpenTimer, ClickNext, ImageLoaded (Suc 0)]
     example_lightbox_state)) 61) ''src'' = ''b-full.jpg'' \<and>
   isOpen (run_events [ActivateItem 51, OpenTimer, ClickNext, ImageLoaded (Suc 0), ImageLoaded 0]
     example_lightbox_state) \<and>
   currentIndex (run_events [ActivateItem 51, OpenTimer, ClickNext, ImageLoaded (Suc 0), ImageLoaded 0]
     example_lightbox_state) = 1 \<and>
   item_at (galleryItems (run_events [ActivateItem 51, OpenTimer, ClickNext, ImageLoaded (Suc 0), ImageLoaded 0]
     example_lightbox_state)) 1 = Some 53 \<and>
   querySelector_in (doc (run_events [ActivateItem 51, OpenTimer, ClickNext, ImageLoaded (Suc 0), ImageLoaded 0]
     example_lightbox_state)) 53 (has_tag ''img'') = Some 54 \<and>
   attributes (elem (doc (run_events [ActivateItem 51, OpenTimer, ClickNext, ImageLoaded (Suc 0), ImageLoaded 0]
     example_lightbox_state)) 54) ''data-full'' = Some ''b-full.jpg'' \<and>
   lightboxImage (run_events [ActivateItem 51, OpenTimer, ClickNext, ImageLoaded (Suc 0), ImageLoaded 0]
     example_lightbox_state) = Some 61 \<and>
   reflect (elem (doc (run_events [ActivateItem 51, OpenTimer, ClickNext, ImageLoaded (Suc 0), ImageLoaded 0]
     example_lightbox_state)) 61) ''src'' = ''a-full.jpg'' \<and>
   reflect (elem (doc (run_events [ActivateItem 51, OpenTimer, ClickNext, ImageLoaded (Suc 0), ImageLoaded 0]
     example_lightbox_state)) 61) ''alt'' = ''First''"
proof -
  let ?S4 = "run_events [ActivateItem 51, OpenTimer, ClickNext, ImageLoaded (Suc 0)] example_lightbox_state"
  let ?l = "\<lparr>load_src = ''a-full.jpg'', load_alt = ''First'', load_overlay = None\<rparr>"
  let ?T = "?S4\<lparr>imageLoads := []\<rparr>"
  note v4 = example_session_loaded(1)
  have r: "run_events [ActivateItem 51, OpenTimer, ClickNext, ImageLoaded (Suc 0), ImageLoaded 0]
      example_lightbox_state = image_onload ?l ?T"
    using run_events_snoc [of "[ActivateItem 51, OpenTimer, ClickNext, ImageLoaded (Suc 0)]" "ImageLoaded 0"
        example_lightbox_state]
    by (simp add: example_session_loaded(5))
  have v: "element_vars ?T = element_vars example_lightbox_state" by (simp add: v4)
  have f: "frame_except {60, 61} example_gallery_page (doc ?T)"
    using example_session_loaded(2) by simp
  have im: "lightboxImage ?T = Some 61" by (rule example_vars(2) [OF v])
  have v5: "element_vars (image_onload ?l ?T) = element_vars example_lightbox_state"
    by (simp add: v4)
  have "frame_except {60, 61} (doc ?T) (doc (image_onload ?l ?T))"
    by (rule frame_except_image_onload) (simp add: im)
  then have f5: "frame_except {60, 61} example_gallery_page (doc (image_onload ?l ?T))"
    by (rule frame_except_trans [OF f])
  have a: "isOpen (image_onload ?l ?T)" "currentIndex (image_onload ?l ?T) = 1"
    by (simp_all add: example_session_loaded)
  have b: "item_at (galleryItems (image_onload ?l ?T)) 1 = Some 53"
    "lightboxImage (image_onload ?l ?T) = Some 61"
    by (simp_all add: example_vars [OF v5] example_vars [OF v4] item_at_def)
  have c: "querySelector_in (doc (image_onload ?l ?T)) 53 (has_tag ''img'') = Some 54"
    "attributes (elem (doc (image_onload ?l ?T)) 54) ''data-full'' = Some ''b-full.jpg''"
    by (simp_all add: frame_except_querySelector_in [OF f5] frame_except_attributes [OF f5]
        example_gallery_items)
  have d: "reflect (elem (doc (image_onload ?l ?T)) 61) ''src'' = ''a-full.jpg''"
    "reflect (elem (doc (image_onload ?l ?T)) 61) ''alt'' = ''First''"
    using image_onload_attributes [OF im, of ?l] by (simp_all add: reflect_def)
  show ?thesis
    unfolding r using a b c d
    by (simp add: example_session_timer example_session_next example_session_loaded)
qed

end
